(* ===== verification/Agent_Prelude.thy ===== *)
theory Agent_Prelude
  imports Complex_Main "HOL-Library.AList" "HOL-Library.Multiset"
begin

text \<open>
  Shared vocabulary of the development: named theorem collections, the model of a Go map as
  an association list with distinct keys, and generic facts about lists, sums and maps.
  Every other theory imports this one.
\<close>

section \<open>Fact collections\<close>

named_theorems go_simps
  \<comment> \<open>characteristic equations of the Go library operations\<close>
named_theorems gate_simps
  \<comment> \<open>definitions of the opt-in gates of the control channel\<close>
named_theorems frame_simps
  \<comment> \<open>what each session operation does to each field of the session\<close>

section \<open>Results\<close>

text \<open>A fallible Go function \<open>(T, error)\<close> returns \<open>Inl e\<close> for a non-nil error and
  \<open>Inr v\<close> for a value; \<open>is_ok\<close> and \<open>result_bind\<close> are the \<open>if err != nil\<close> idiom.\<close>

definition is_ok :: "'e + 'a \<Rightarrow> bool" where
  "is_ok r = (case r of Inl _ \<Rightarrow> False | Inr _ \<Rightarrow> True)"

lemma is_ok_simps [simp]: "is_ok (Inr v)" "\<not> is_ok (Inl e)"
  by (simp_all add: is_ok_def)

definition result_bind :: "'e + 'a \<Rightarrow> ('a \<Rightarrow> 'e + 'b) \<Rightarrow> 'e + 'b" where
  "result_bind r f = (case r of Inl e \<Rightarrow> Inl e | Inr v \<Rightarrow> f v)"

lemma result_bind_simps [simp]:
  "result_bind (Inl e) f = Inl e" "result_bind (Inr v) f = f v"
  by (simp_all add: result_bind_def)

lemma result_bind_Inr_iff:
  "result_bind r f = Inr w \<longleftrightarrow> (\<exists>v. r = Inr v \<and> f v = Inr w)"
  by (cases r) auto

lemma is_ok_iff: "is_ok r \<longleftrightarrow> (\<exists>v. r = Inr v)"
  by (cases r) auto

lemma is_ok_bind_const:
  "is_ok (result_bind r (\<lambda>v. result_bind q (\<lambda>w. Inr (f v w)))) \<longleftrightarrow> is_ok r \<and> is_ok q"
  by (cases r; cases q) auto

text \<open>A loop that appends the items of each element to an accumulator and stops at the
  first error, as \<open>for ... { xs, err := f(e); if err != nil { return nil, err };
  all = append(all, xs...) }\<close> does.\<close>

fun collect :: "('a \<Rightarrow> 'e + 'b list) \<Rightarrow> 'a list \<Rightarrow> 'e + 'b list" where
  "collect f [] = Inr []"
| "collect f (x # xs) =
     (case f x of Inl e \<Rightarrow> Inl e
      | Inr ys \<Rightarrow> (case collect f xs of Inl e \<Rightarrow> Inl e | Inr zs \<Rightarrow> Inr (ys @ zs)))"

lemma collect_Inr_iff:
  "collect f xs = Inr ys \<longleftrightarrow>
     (\<forall>x \<in> set xs. is_ok (f x)) \<and> ys = concat (map (\<lambda>x. projr (f x)) xs)"
proof (induction xs arbitrary: ys)
  case Nil
  show ?case by auto
next
  case (Cons x xs)
  show ?case
  proof (cases "f x")
    case (Inl e)
    then show ?thesis by simp
  next
    case (Inr zs)
    show ?thesis
    proof (cases "collect f xs")
      case (Inl e)
      then have "\<not> (\<forall>y \<in> set xs. is_ok (f y))"
        using Cons.IH [of "concat (map (\<lambda>x. projr (f x)) xs)"] by simp
      with Inl Inr show ?thesis by simp
    next
      case (Inr us)
      with Cons.IH [of us] \<open>f x = Inr zs\<close> show ?thesis by auto
    qed
  qed
qed

lemma collect_append:
  "collect f (xs @ ys) =
     result_bind (collect f xs) (\<lambda>us. result_bind (collect f ys) (\<lambda>vs. Inr (us @ vs)))"
  by (induction xs) (auto simp: result_bind_def split: sum.splits)

lemma collect_filter:
  assumes "\<And>x. \<not> P x \<Longrightarrow> f x = Inr []"
  shows "collect f (filter P xs) = collect f xs"
proof (induction xs)
  case (Cons x xs)
  then show ?case
    using assms [of x] by (cases "P x") (simp_all split: sum.splits)
qed simp

lemma collect_cong:
  "(\<And>x. x \<in> set xs \<Longrightarrow> f x = g x) \<Longrightarrow> collect f xs = collect g xs"
  by (induction xs) (auto split: sum.splits)

lemma collect_ok_iff: "is_ok (collect f xs) \<longleftrightarrow> (\<forall>x \<in> set xs. is_ok (f x))"
proof (cases "collect f xs")
  case (Inl e)
  then show ?thesis
    using collect_Inr_iff [of f xs "concat (map (\<lambda>x. projr (f x)) xs)"] by auto
next
  case (Inr ys)
  then show ?thesis using collect_Inr_iff [of f xs ys] by simp
qed

section \<open>Go maps\<close>

text \<open>
  A Go map is an association list with distinct keys; the order of the list stands for the
  (unspecified) iteration order, so a statement about every list with the same lookups is a
  statement about every iteration order. \<open>AList.update\<close> is \<open>m[k] = v\<close> and
  \<open>AList.delete\<close> is \<open>delete(m, k)\<close>; reading a missing key gives the zero value.
\<close>

type_synonym ('k, 'v) gomap = "('k \<times> 'v) list"

abbreviation gomap_keys :: "('k, 'v) gomap \<Rightarrow> 'k list" where
  "gomap_keys m \<equiv> map fst m"

definition gomap_ok :: "('k, 'v) gomap \<Rightarrow> bool" where
  "gomap_ok m = distinct (gomap_keys m)"

lemma gomap_ok_Nil [simp]: "gomap_ok []"
  by (simp add: gomap_ok_def)

lemma gomap_ok_update [simp]: "gomap_ok m \<Longrightarrow> gomap_ok (AList.update k v m)"
  by (simp add: gomap_ok_def distinct_update)

lemma gomap_ok_delete [simp]: "gomap_ok m \<Longrightarrow> gomap_ok (AList.delete k m)"
  by (simp add: gomap_ok_def distinct_delete)

lemma map_of_update [simp]: "map_of (AList.update k v m) = (map_of m)(k \<mapsto> v)"
  by (rule update_conv')

lemma keys_update [simp]:
  "set (gomap_keys (AList.update k v m)) = insert k (set (gomap_keys m))"
  using dom_update [of k v m] by (simp add: image_image)

lemma map_of_delete [simp]: "map_of (AList.delete k m) = (map_of m)(k := None)"
  by (rule delete_conv')

lemma keys_map_of: "set (gomap_keys m) = dom (map_of m)"
  by (simp add: dom_map_of_conv_image_fst)

lemma map_of_filter_key:
  "map_of (filter (\<lambda>e. fst e \<noteq> k) m) = (map_of m)(k := None)"
  by (induction m) (auto simp: fun_eq_iff)

lemma length_gomap_eq_card: "gomap_ok m \<Longrightarrow> length m = card (dom (map_of m))"
  by (metis distinct_card gomap_ok_def keys_map_of length_map)

section \<open>Lists\<close>

lemma filter_single_append:
  "filter P (xs @ [x]) = filter P xs @ (if P x then [x] else [])"
  by simp

lemma upt_snoc: "[0..<n] @ [n] = [0..<Suc n]"
  by simp

lemma foldl_invariant:
  assumes "P s" and "\<And>s x. x \<in> set xs \<Longrightarrow> P s \<Longrightarrow> P (f s x)"
  shows "P (foldl f s xs)"
  using assms by (induction xs arbitrary: s) auto

end
