(* ===== verification/Go_Strings.thy ===== *)
theory Go_Strings
  imports Agent_Prelude "HOL-Library.Char_ord" "HOL-Library.List_Lexorder"
    "HOL-Library.Sublist"
begin

text \<open>
  The operations of Go's \<open>strings\<close>, \<open>strconv\<close>, \<open>sort\<close> and \<open>path/filepath\<close> packages that
  the agent uses. A Go string is a sequence of bytes, here a \<open>string\<close> (a list of 8-bit
  characters), and the order on strings is the bytewise lexicographic order of
  \<open>List_Lexorder\<close>, which is the order of \<open>sort.Strings\<close>.
\<close>

section \<open>Prefixes and suffixes\<close>

definition has_prefix :: "string \<Rightarrow> string \<Rightarrow> bool" where
  "has_prefix s p = (take (length p) s = p)"

definition has_suffix :: "string \<Rightarrow> string \<Rightarrow> bool" where
  "has_suffix s p = has_prefix (rev s) (rev p)"

definition trim_prefix :: "string \<Rightarrow> string \<Rightarrow> string" where
  "trim_prefix s p = (if has_prefix s p then drop (length p) s else s)"

lemma has_prefix_iff [go_simps]: "has_prefix s p \<longleftrightarrow> prefix p s"
  unfolding has_prefix_def prefix_def by (metis append_eq_conv_conj append_take_drop_id)

lemma has_suffix_iff [go_simps]: "has_suffix s p \<longleftrightarrow> suffix p s"
  by (simp add: has_suffix_def has_prefix_iff suffix_to_prefix)

lemma has_prefix_append [simp]: "has_prefix (p @ s) p"
  by (simp add: has_prefix_def)

lemma trim_prefix_append [simp]: "trim_prefix (p @ s) p = s"
  by (simp add: trim_prefix_def has_prefix_def)

section \<open>Trimming\<close>

text \<open>\<open>strings.TrimRight(s, cutset)\<close> for an ASCII cutset.\<close>

definition trim_right :: "string \<Rightarrow> string \<Rightarrow> string" where
  "trim_right s cs = rev (dropWhile (\<lambda>c. c \<in> set cs) (rev s))"

lemma trim_right_no_trailing:
  "trim_right s cs \<noteq> [] \<Longrightarrow> last (trim_right s cs) \<notin> set cs"
  unfolding trim_right_def
  by (metis (no_types, lifting) hd_dropWhile last_rev rev_is_Nil_conv)

lemma trim_right_split: "\<exists>t. s = trim_right s cs @ t \<and> set t \<subseteq> set cs"
proof -
  have "rev s = takeWhile (\<lambda>c. c \<in> set cs) (rev s) @ dropWhile (\<lambda>c. c \<in> set cs) (rev s)"
    by simp
  then have "s = trim_right s cs @ rev (takeWhile (\<lambda>c. c \<in> set cs) (rev s))"
    unfolding trim_right_def by (metis rev_append rev_rev_ident)
  moreover have "set (rev (takeWhile (\<lambda>c. c \<in> set cs) (rev s))) \<subseteq> set cs"
    by (auto dest: set_takeWhileD)
  ultimately show ?thesis by blast
qed

text \<open>The UTF-8 encodings of the characters \<open>unicode.IsSpace\<close> accepts, which
  \<open>strings.TrimSpace\<close> and \<open>strings.Fields\<close> use. No encoding is a proper prefix or suffix
  of another one, so scanning bytes for them is the rune-wise scan of the library.\<close>

definition go_spaces :: "string list" where
  "go_spaces =
     [[CHR 0x09], [CHR 0x0A], [CHR 0x0B], [CHR 0x0C], [CHR 0x0D], [CHR 0x20],
      [CHR 0xC2, CHR 0x85], [CHR 0xC2, CHR 0xA0], [CHR 0xE1, CHR 0x9A, CHR 0x80],
      [CHR 0xE2, CHR 0x80, CHR 0x80], [CHR 0xE2, CHR 0x80, CHR 0x81],
      [CHR 0xE2, CHR 0x80, CHR 0x82], [CHR 0xE2, CHR 0x80, CHR 0x83],
      [CHR 0xE2, CHR 0x80, CHR 0x84], [CHR 0xE2, CHR 0x80, CHR 0x85],
      [CHR 0xE2, CHR 0x80, CHR 0x86], [CHR 0xE2, CHR 0x80, CHR 0x87],
      [CHR 0xE2, CHR 0x80, CHR 0x88], [CHR 0xE2, CHR 0x80, CHR 0x89],
      [CHR 0xE2, CHR 0x80, CHR 0x8A], [CHR 0xE2, CHR 0x80, CHR 0xA8],
      [CHR 0xE2, CHR 0x80, CHR 0xA9], [CHR 0xE2, CHR 0x80, CHR 0xAF],
      [CHR 0xE2, CHR 0x81, CHR 0x9F], [CHR 0xE3, CHR 0x80, CHR 0x80]]"

text \<open>\<open>strip pats s\<close> removes patterns from the front of \<open>s\<close> while one of them is there.\<close>

definition lead_len :: "string list \<Rightarrow> string \<Rightarrow> nat" where
  "lead_len pats s =
     (case find (\<lambda>p. has_prefix s p) pats of None \<Rightarrow> 0 | Some p \<Rightarrow> length p)"

lemma lead_len_le: "lead_len pats s \<le> length s"
proof (cases "find (\<lambda>p. has_prefix s p) pats")
  case None
  then show ?thesis by (simp add: lead_len_def)
next
  case (Some p)
  then have "has_prefix s p" by (auto simp: find_Some_iff)
  then have "length p \<le> length s"
    by (metis has_prefix_def length_take min.absorb_iff1 min.commute)
  with Some show ?thesis by (simp add: lead_len_def)
qed

function strip :: "string list \<Rightarrow> string \<Rightarrow> string" where
  "strip pats s =
     (if lead_len pats s = 0 then s else strip pats (drop (lead_len pats s) s))"
  by pat_completeness auto
termination
proof (relation "measure (\<lambda>(pats, s). length s)", goal_cases)
  case 1
  show ?case by simp
next
  case (2 pats s)
  with lead_len_le [of pats s] show ?case by simp
qed

declare strip.simps [simp del]

definition trim_space :: "string \<Rightarrow> string" where
  "trim_space s = rev (strip (map rev go_spaces) (rev (strip go_spaces s)))"

lemma strip_fix: "lead_len pats s = 0 \<Longrightarrow> strip pats s = s"
  by (simp add: strip.simps)

lemma strip_done: "lead_len pats (strip pats s) = 0"
proof (induction pats s rule: strip.induct)
  case (1 pats s)
  then show ?case by (simp add: strip.simps [of pats s])
qed

lemma strip_idem [simp]: "strip pats (strip pats s) = strip pats s"
  by (rule strip_fix [OF strip_done])

lemma strip_suffix: "suffix (strip pats s) s"
proof (induction pats s rule: strip.induct)
  case (1 pats s)
  then show ?case
    by (cases "lead_len pats s = 0")
      (auto simp: strip.simps [of pats s] intro: suffix_order.trans suffix_drop)
qed

lemma lead_len_0_iff:
  assumes "[] \<notin> set pats"
  shows "lead_len pats s = 0 \<longleftrightarrow> (\<forall>p \<in> set pats. \<not> prefix p s)"
  using assms
  by (auto simp: lead_len_def has_prefix_iff find_None_iff find_Some_iff
      split: option.splits) (metis nth_mem)+

lemma lead_len_prefix_0:
  assumes "[] \<notin> set pats" "lead_len pats s = 0" "prefix t s"
  shows "lead_len pats t = 0"
  using assms by (meson lead_len_0_iff prefix_order.trans)

lemma go_spaces_nonempty: "[] \<notin> set go_spaces" "[] \<notin> set (map rev go_spaces)"
  by (auto simp: go_spaces_def)

lemma trim_space_idem [simp]: "trim_space (trim_space s) = trim_space s"
proof -
  let ?l = "strip go_spaces s"
  have "prefix (trim_space s) ?l"
    unfolding trim_space_def by (metis rev_rev_ident strip_suffix suffix_to_prefix)
  then have "lead_len go_spaces (trim_space s) = 0"
    using go_spaces_nonempty(1) lead_len_prefix_0 strip_done by blast
  then show ?thesis
    unfolding trim_space_def [of "trim_space s"] by (simp add: strip_fix trim_space_def)
qed

section \<open>Decimal output\<close>

text \<open>\<open>strconv.Itoa\<close>.\<close>

definition digit_char :: "nat \<Rightarrow> char" where
  "digit_char d = char_of (48 + d)"

fun digits :: "nat \<Rightarrow> string" where
  "digits n = (if n < 10 then [digit_char n] else digits (n div 10) @ [digit_char (n mod 10)])"

declare digits.simps [simp del]

definition itoa :: "int \<Rightarrow> string" where
  "itoa i = (if i < 0 then CHR ''-'' # digits (nat (- i)) else digits (nat i))"

section \<open>Splitting, joining and paths\<close>

text \<open>\<open>strings.Split(s, sep)\<close> for a one-byte separator, and \<open>strings.Join\<close>.\<close>

fun split_on :: "char \<Rightarrow> string \<Rightarrow> string list" where
  "split_on c [] = [[]]"
| "split_on c (x # xs) =
     (if x = c then [] # split_on c xs
      else (case split_on c xs of [] \<Rightarrow> [[x]] | w # ws \<Rightarrow> (x # w) # ws))"

fun join_with :: "string \<Rightarrow> string list \<Rightarrow> string" where
  "join_with sep [] = []"
| "join_with sep [w] = w"
| "join_with sep (w # v # ws) = w @ sep @ join_with sep (v # ws)"

lemma split_on_nonempty [simp]: "split_on c s \<noteq> []"
  by (induction s) (auto split: list.splits)

lemma join_split: "join_with [c] (split_on c s) = s"
proof (induction s)
  case Nil
  then show ?case by simp
next
  case (Cons x xs)
  obtain w ws where "split_on c xs = w # ws"
    by (cases "split_on c xs") auto
  with Cons show ?case by (cases ws) auto
qed

text \<open>\<open>filepath.Clean\<close> on Unix: the path elements are pushed on a stack, \<open>.\<close> and empty
  elements are dropped and \<open>..\<close> pops the element before it where there is one.\<close>

fun clean_step :: "bool \<Rightarrow> string list \<Rightarrow> string \<Rightarrow> string list" where
  "clean_step rooted stk e =
     (if e = [] \<or> e = ''.'' then stk
      else if e = ''..'' then
        (case stk of
           [] \<Rightarrow> if rooted then [] else [e]
         | t # ts \<Rightarrow> if t = ''..'' then e # stk else ts)
      else e # stk)"

definition path_clean :: "string \<Rightarrow> string" where
  "path_clean p =
     (let rooted = has_prefix p ''/'';
          body = join_with ''/'' (rev (foldl (clean_step rooted) [] (split_on CHR ''/'' p)))
      in if rooted then CHR ''/'' # body else if body = [] then ''.'' else body)"

text \<open>\<open>filepath.Join(a, b)\<close> for two non-empty elements and \<open>filepath.Dir\<close>.\<close>

definition path_join :: "string \<Rightarrow> string \<Rightarrow> string" where
  "path_join a b =
     (if a = [] then (if b = [] then [] else path_clean b)
      else path_clean (a @ ''/'' @ b))"

definition path_dir :: "string \<Rightarrow> string" where
  "path_dir p = path_clean (rev (dropWhile (\<lambda>c. c \<noteq> CHR ''/'') (rev p)))"

lemma path_examples:
  "path_dir ''/etc/iclic-host-agent/control.yaml'' = ''/etc/iclic-host-agent''"
  "path_join ''/etc/iclic-host-agent'' ''services.d'' = ''/etc/iclic-host-agent/services.d''"
  "path_clean ''a/../../b//./c'' = ''../b/c''"
  by code_simp+

end
