(* ===== verification/Go_Strconv.thy ===== *)
theory Go_Strconv
  imports Go_Strings
begin

text \<open>
  Decimal input (\<open>strconv.ParseUint\<close>, \<open>ParseInt\<close> and \<open>Atoi\<close> on a 64-bit target) and
  \<open>strings.Fields\<close>, with what reading back a printed number or a joined line gives.
\<close>

section \<open>Decimal input\<close>

definition is_digit :: "char \<Rightarrow> bool" where
  "is_digit c = (48 \<le> (of_char c :: nat) \<and> (of_char c :: nat) \<le> 57)"

fun digits_val :: "nat \<Rightarrow> string \<Rightarrow> nat option" where
  "digits_val acc [] = Some acc"
| "digits_val acc (c # cs) =
     (if is_digit c then digits_val (10 * acc + (of_char c - 48)) cs else None)"

definition parse_uint :: "string \<Rightarrow> nat option" where
  "parse_uint s =
     (if s = [] then None
      else (case digits_val 0 s of
              None \<Rightarrow> None
            | Some n \<Rightarrow> if n < 2 ^ 64 then Some n else None))"

text \<open>\<open>ParseInt(s, 10, 64)\<close>, and \<open>Atoi(s)\<close> where \<open>int\<close> has 64 bits.\<close>

definition parse_int :: "string \<Rightarrow> int option" where
  "parse_int s =
     (let neg = (s \<noteq> [] \<and> hd s = CHR ''-'');
          u = (if s \<noteq> [] \<and> (hd s = CHR ''-'' \<or> hd s = CHR ''+'') then tl s else s)
      in case parse_uint u of
           None \<Rightarrow> None
         | Some n \<Rightarrow>
             if neg then (if n \<le> 2 ^ 63 then Some (- int n) else None)
             else (if n < 2 ^ 63 then Some (int n) else None))"

lemma of_char_digit_char: "d < 10 \<Longrightarrow> (of_char (digit_char d) :: nat) = 48 + d"
  by (simp add: digit_char_def of_char_of)

lemma is_digit_digit_char: "d < 10 \<Longrightarrow> is_digit (digit_char d)"
  by (simp add: is_digit_def of_char_digit_char)

lemma digits_val_snoc:
  "digits_val a (s @ [c]) =
     (case digits_val a s of
        None \<Rightarrow> None | Some v \<Rightarrow> if is_digit c then Some (10 * v + (of_char c - 48)) else None)"
  by (induction s arbitrary: a) auto

lemma digits_val_digits: "digits_val 0 (digits n) = Some n"
proof (induction n rule: digits.induct)
  case (1 n)
  show ?case
  proof (cases "n < 10")
    case True
    then show ?thesis
      by (simp add: digits.simps is_digit_digit_char of_char_digit_char)
  next
    case False
    then show ?thesis
      using 1 by (subst digits.simps)
        (simp add: digits_val_snoc is_digit_digit_char of_char_digit_char)
  qed
qed

lemma digits_chars: "digits n \<noteq> [] \<and> (\<forall>c\<in>set (digits n). is_digit c)"
proof (induction n rule: digits.induct)
  case (1 n)
  then show ?case by (subst (1 2) digits.simps) (auto simp: is_digit_digit_char)
qed

lemma parse_uint_digits: "n < 2 ^ 64 \<Longrightarrow> parse_uint (digits n) = Some n"
  using digits_chars [of n] by (simp add: parse_uint_def digits_val_digits)

lemma parse_uint_range: "parse_uint s = Some n \<Longrightarrow> n < 2 ^ 64"
  by (auto simp: parse_uint_def split: option.splits if_splits)

lemma parse_int_range:
  "parse_int s = Some i \<Longrightarrow> - (2 ^ 63) \<le> i \<and> i < 2 ^ 63"
  by (auto simp: parse_int_def Let_def split: option.splits if_splits)

lemma digit_not_sign: "is_digit c \<Longrightarrow> c \<noteq> CHR ''-'' \<and> c \<noteq> CHR ''+''"
  by (auto simp: is_digit_def)

lemma parse_int_itoa:
  assumes "- (2 ^ 63) \<le> i" "i < 2 ^ 63"
  shows "parse_int (itoa i) = Some i"
proof (cases "i < 0")
  case True
  then have "parse_uint (digits (nat (- i))) = Some (nat (- i))"
    using assms by (intro parse_uint_digits) (simp add: nat_less_iff)
  then show ?thesis
    using True assms by (simp add: parse_int_def itoa_def Let_def nat_le_iff)
next
  case False
  have d: "digits (nat i) \<noteq> [] \<and> is_digit (hd (digits (nat i)))"
    using digits_chars [of "nat i"] by simp
  have "parse_uint (digits (nat i)) = Some (nat i)"
    using assms False by (intro parse_uint_digits) (simp add: nat_less_iff)
  then show ?thesis
    using False assms d digit_not_sign
    by (auto simp: parse_int_def itoa_def Let_def nat_less_iff)
qed

section \<open>Fields\<close>

fun word_of :: "string \<Rightarrow> string \<times> string" where
  "word_of [] = ([], [])"
| "word_of (c # cs) =
     (if lead_len go_spaces (c # cs) > 0 then ([], c # cs)
      else (case word_of cs of (w, r) \<Rightarrow> (c # w, r)))"

lemma word_of_length: "length (snd (word_of s)) \<le> length s"
  by (induction s) (auto split: prod.splits)

lemma strip_length: "length (strip pats s) \<le> length s"
  using suffix_length_le [OF strip_suffix] .

function str_fields :: "string \<Rightarrow> string list" where
  "str_fields s =
     (case strip go_spaces s of
        [] \<Rightarrow> []
      | c # cs \<Rightarrow> (case word_of cs of (w, r) \<Rightarrow> (c # w) # str_fields r))"
  by pat_completeness auto
termination
proof (relation "measure length", goal_cases)
  case (2 s c cs w r)
  then have "length r \<le> length cs" "length (c # cs) \<le> length s"
    using word_of_length [of cs] strip_length [of go_spaces s] by (metis snd_conv)+
  then show ?case by simp
qed simp

declare str_fields.simps [simp del]

text \<open>Words of characters that no white space starts with, such as digits and ASCII letters.\<close>

definition space_lead :: "char \<Rightarrow> bool" where
  "space_lead c = (c \<in> set (map hd go_spaces))"

definition plain_word :: "string \<Rightarrow> bool" where
  "plain_word w = (w \<noteq> [] \<and> (\<forall>c\<in>set w. \<not> space_lead c))"

lemma lead_len_plain: "\<not> space_lead c \<Longrightarrow> lead_len go_spaces (c # cs) = 0"
  using go_spaces_nonempty(1)
  by (auto simp: lead_len_0_iff space_lead_def prefix_def Cons_eq_append_conv image_iff)

lemma lead_len_space: "lead_len go_spaces (CHR '' '' # cs) = 1"
  by (simp add: lead_len_def go_spaces_def has_prefix_def)

lemma word_of_plain:
  assumes "\<forall>c\<in>set w. \<not> space_lead c" "s = [] \<or> lead_len go_spaces s > 0"
  shows "word_of (w @ s) = (w, s)"
  using assms by (induction w) (cases s; auto simp: lead_len_plain)+

lemma strip_plain: "\<not> space_lead c \<Longrightarrow> strip go_spaces (c # cs) = c # cs"
  by (intro strip_fix lead_len_plain)

lemma fields_word:
  assumes "plain_word w" "s = [] \<or> lead_len go_spaces s > 0"
  shows "str_fields (w @ s) = w # str_fields s"
proof -
  obtain c cs where w: "w = c # cs" "\<not> space_lead c" "\<forall>c\<in>set cs. \<not> space_lead c"
    using assms(1) by (cases w) (auto simp: plain_word_def)
  then show ?thesis
    using word_of_plain [OF w(3) assms(2)]
    by (subst str_fields.simps) (simp add: strip_plain)
qed

lemma fields_Nil [simp]: "str_fields [] = []"
  by (subst str_fields.simps) (simp add: strip_fix lead_len_def go_spaces_def has_prefix_def)

lemma strip_space: "strip go_spaces (CHR '' '' # s) = strip go_spaces s"
  by (subst strip.simps) (simp add: lead_len_space)

lemma fields_space: "str_fields (CHR '' '' # s) = str_fields s"
  by (subst (1 2) str_fields.simps) (simp add: strip_space)

lemma fields_join:
  "(\<And>w. w \<in> set ws \<Longrightarrow> plain_word w) \<Longrightarrow> str_fields (join_with '' '' ws) = ws"
proof (induction ws rule: induct_list012)
  case (2 w)
  then show ?case using fields_word [of w "[]"] by simp
next
  case (3 w v ws)
  then show ?case
    using fields_word [of w "'' '' @ join_with '' '' (v # ws)"]
    by (simp add: lead_len_space fields_space)
qed simp

lemma digit_not_space: "is_digit c \<Longrightarrow> \<not> space_lead c"
  by (auto simp: space_lead_def go_spaces_def is_digit_def)

lemma plain_digits: "plain_word (digits n)"
  using digits_chars [of n] digit_not_space by (auto simp: plain_word_def)

end
