(* ===== verification/Go_Float.thy ===== *)
theory Go_Float
  imports Go_Strconv
begin

text \<open>
  IEEE double arithmetic over exact rationals: rounding to nearest even at 53 bits, the
  operations the agent uses, the conversions from and to integers, and error bounds for the
  rounding.
\<close>

section \<open>Doubles\<close>

text \<open>A \<open>float64\<close> is a finite rational number, an infinity or NaN; signed zeros are not
  distinguished.\<close>

datatype f64 = Fin rat | PosInf | NegInf | NaN

text \<open>The two targets the agent is built for (.github/workflows). Go leaves the conversion of
  an out-of-range \<open>float64\<close> to \<open>int\<close> to the implementation: amd64 yields the smallest
  integer, arm64 saturates and sends NaN to 0.\<close>

datatype goarch = Amd64 | Arm64

definition min_int64 :: int where "min_int64 = - (2 ^ 63)"
definition max_int64 :: int where "max_int64 = 2 ^ 63 - 1"

definition rat_trunc :: "rat \<Rightarrow> int" where
  "rat_trunc r = (if 0 \<le> r then floor r else ceiling r)"

definition int_overflow :: "goarch \<Rightarrow> bool \<Rightarrow> int" where
  "int_overflow arch neg =
     (case arch of Amd64 \<Rightarrow> min_int64 | Arm64 \<Rightarrow> if neg then min_int64 else max_int64)"

fun f64_to_int :: "goarch \<Rightarrow> f64 \<Rightarrow> int" where
  "f64_to_int arch (Fin r) =
     (let t = rat_trunc r in
      if min_int64 \<le> t \<and> t \<le> max_int64 then t else int_overflow arch (r < 0))"
| "f64_to_int arch PosInf = int_overflow arch False"
| "f64_to_int arch NegInf = int_overflow arch True"
| "f64_to_int arch NaN = (case arch of Amd64 \<Rightarrow> min_int64 | Arm64 \<Rightarrow> 0)"

lemma f64_to_int_range: "min_int64 \<le> f64_to_int arch x \<and> f64_to_int arch x \<le> max_int64"
  by (cases x; cases arch)
    (auto simp: Let_def int_overflow_def min_int64_def max_int64_def)

section \<open>Rounding\<close>

definition pow2 :: "int \<Rightarrow> rat" where
  "pow2 e = (if 0 \<le> e then 2 ^ nat e else 1 / 2 ^ nat (- e))"

text \<open>The binary exponent of a positive rational: \<open>pow2 (ilog2 r) \<le> r < pow2 (ilog2 r + 1)\<close>.\<close>

fun bit_len :: "nat \<Rightarrow> nat" where
  "bit_len n = (if n = 0 then 0 else Suc (bit_len (n div 2)))"

declare bit_len.simps [simp del]

definition ilog2 :: "rat \<Rightarrow> int" where
  "ilog2 r =
     (let q = quotient_of r;
          e = int (bit_len (nat (fst q))) - int (bit_len (nat (snd q)))
      in if pow2 e \<le> r then e else e - 1)"

definition round_half_even :: "rat \<Rightarrow> int" where
  "round_half_even q =
     (let f = floor q; d = q - of_int f
      in if d < 1 / 2 then f else if d > 1 / 2 then f + 1 else if even f then f else f + 1)"

text \<open>The unit in the last place for a value of the magnitude of \<open>r\<close>.\<close>

definition ulp :: "rat \<Rightarrow> rat" where
  "ulp r = pow2 (max (ilog2 \<bar>r\<bar>) (- 1022) - 52)"

definition f64_round :: "rat \<Rightarrow> f64" where
  "f64_round r =
     (if r = 0 then Fin 0
      else let v = of_int (round_half_even (r / ulp r)) * ulp r
           in if pow2 1024 \<le> \<bar>v\<bar> then (if r > 0 then PosInf else NegInf) else Fin v)"

definition f64_of_int :: "int \<Rightarrow> f64" where
  "f64_of_int i = f64_round (of_int i)"

section \<open>Arithmetic\<close>

fun f64_neg :: "f64 \<Rightarrow> f64" where
  "f64_neg (Fin a) = Fin (- a)"
| "f64_neg PosInf = NegInf"
| "f64_neg NegInf = PosInf"
| "f64_neg NaN = NaN"

fun f64_add :: "f64 \<Rightarrow> f64 \<Rightarrow> f64" where
  "f64_add (Fin a) (Fin b) = f64_round (a + b)"
| "f64_add NaN y = NaN"
| "f64_add x NaN = NaN"
| "f64_add PosInf NegInf = NaN"
| "f64_add NegInf PosInf = NaN"
| "f64_add PosInf y = PosInf"
| "f64_add NegInf y = NegInf"
| "f64_add x PosInf = PosInf"
| "f64_add x NegInf = NegInf"

definition f64_sub :: "f64 \<Rightarrow> f64 \<Rightarrow> f64" where
  "f64_sub x y = f64_add x (f64_neg y)"

definition f64_inf :: "bool \<Rightarrow> f64" where
  "f64_inf neg = (if neg then NegInf else PosInf)"

fun f64_sgn :: "f64 \<Rightarrow> int" where
  "f64_sgn (Fin a) = (if a < 0 then - 1 else if a = 0 then 0 else 1)"
| "f64_sgn PosInf = 1"
| "f64_sgn NegInf = - 1"
| "f64_sgn NaN = 0"

fun f64_mul :: "f64 \<Rightarrow> f64 \<Rightarrow> f64" where
  "f64_mul (Fin a) (Fin b) = f64_round (a * b)"
| "f64_mul NaN y = NaN"
| "f64_mul x NaN = NaN"
| "f64_mul x y = (if f64_sgn x * f64_sgn y = 0 then NaN else f64_inf (f64_sgn x * f64_sgn y < 0))"

fun f64_div :: "f64 \<Rightarrow> f64 \<Rightarrow> f64" where
  "f64_div (Fin a) (Fin b) =
     (if b = 0 then (if a = 0 then NaN else f64_inf (a < 0)) else f64_round (a / b))"
| "f64_div NaN y = NaN"
| "f64_div x NaN = NaN"
| "f64_div (Fin a) y = Fin 0"
| "f64_div x (Fin b) = f64_inf (f64_sgn x * (if b < 0 then - 1 else 1) < 0)"
| "f64_div x y = NaN"

text \<open>Comparisons are false on NaN.\<close>

fun f64_less :: "f64 \<Rightarrow> f64 \<Rightarrow> bool" where
  "f64_less (Fin a) (Fin b) = (a < b)"
| "f64_less NaN y = False"
| "f64_less x NaN = False"
| "f64_less x y = (x \<noteq> y \<and> (x = NegInf \<or> y = PosInf))"

definition f64_le :: "f64 \<Rightarrow> f64 \<Rightarrow> bool" where
  "f64_le x y = (f64_less x y \<or> x = y \<and> x \<noteq> NaN)"

section \<open>Rounding is exact on small integers and close elsewhere\<close>

lemma pow2_pos [simp]: "0 < pow2 e"
  by (simp add: pow2_def)

lemma pow2_add: "pow2 (a + b) = pow2 a * pow2 b"
proof -
  have "pow2 e = 2 powi e" for e
    by (simp add: pow2_def power_int_def field_simps)
  then show ?thesis by (simp add: power_int_add)
qed

lemma pow2_nat: "pow2 (int n) = 2 ^ n"
  by (simp add: pow2_def)

lemma pow2_nonneg [simp]: "0 \<le> pow2 e" "pow2 e \<noteq> 0"
  using pow2_pos [of e] by linarith+

lemma pow2_mono:
  assumes "a \<le> b"
  shows "pow2 a \<le> pow2 b"
proof -
  have "pow2 b = pow2 a * pow2 (int (nat (b - a)))" using assms by (simp flip: pow2_add)
  moreover have "1 \<le> pow2 (int (nat (b - a)))" unfolding pow2_nat by simp
  ultimately show ?thesis using mult_left_mono [of 1 _ "pow2 a"] by simp
qed

lemma pow2_less_cancel: "pow2 a < pow2 b \<Longrightarrow> a < b"
  using pow2_mono [of b a] by (meson not_le)

lemma round_half_even_near: "\<bar>of_int (round_half_even q) - q\<bar> \<le> 1 / 2"
  unfolding round_half_even_def Let_def
  using of_int_floor_le [of q] floor_correct [of q] by (auto simp: abs_le_iff)

lemma round_half_even_int [simp]: "round_half_even (of_int i) = i"
  by (simp add: round_half_even_def)

lemma bit_len_bounds: "0 < n \<Longrightarrow> 2 ^ (bit_len n - 1) \<le> n \<and> n < 2 ^ bit_len n \<and> 0 < bit_len n"
proof (induction n rule: bit_len.induct)
  case (1 n)
  show ?case
  proof (cases "n div 2 = 0")
    case True
    with 1 have "n = 1" by auto
    then show ?thesis by (simp add: bit_len.simps)
  next
    case False
    with 1 have h: "2 ^ (bit_len (n div 2) - 1) \<le> n div 2" "n div 2 < 2 ^ bit_len (n div 2)"
        "0 < bit_len (n div 2)" by auto
    have "bit_len n = Suc (bit_len (n div 2))" using 1 by (subst bit_len.simps) simp
    moreover have "(2::nat) ^ bit_len (n div 2) = 2 * 2 ^ (bit_len (n div 2) - 1)"
      using h(3) by (metis Suc_diff_1 power_Suc)
    moreover have "2 * 2 ^ (bit_len (n div 2) - 1) \<le> n"
      using mult_le_mono2 [OF h(1), of 2] times_div_less_eq_dividend [of 2 n] by linarith
    moreover have "n < 2 * 2 ^ bit_len (n div 2)" using h(2) by linarith
    ultimately show ?thesis by simp
  qed
qed

text \<open>The exponent is right: the significand has 53 bits.\<close>

lemma ilog2_bounds:
  assumes "0 < r"
  shows "pow2 (ilog2 r) \<le> r \<and> r < pow2 (ilog2 r + 1)"
proof -
  obtain a b where q: "quotient_of r = (a, b)" by fastforce
  have b: "0 < b" using quotient_of_denom_pos [OF q] .
  have r: "r = of_int a / of_int b" using quotient_of_div [OF q] .
  then have a: "0 < a" using assms b by (simp add: zero_less_divide_iff)
  let ?x = "bit_len (nat a)" and ?y = "bit_len (nat b)"
  have x: "2 ^ (?x - 1) \<le> nat a" "nat a < 2 ^ ?x" "0 < ?x"
    using bit_len_bounds [of "nat a"] a by auto
  have y: "2 ^ (?y - 1) \<le> nat b" "nat b < 2 ^ ?y" "0 < ?y"
    using bit_len_bounds [of "nat b"] b by auto
  have p: "pow2 (int ?x - 1) \<le> of_int a" "of_int a < pow2 (int ?x)"
      "pow2 (int ?y - 1) \<le> of_int b" "of_int b < pow2 (int ?y)"
  proof -
    have e: "int ?x - 1 = int (?x - 1)" "int ?y - 1 = int (?y - 1)" using x(3) y(3) by auto
    have i: "(2::int) ^ (?x - 1) \<le> a" "a < 2 ^ ?x" "(2::int) ^ (?y - 1) \<le> b" "b < 2 ^ ?y"
      using x y a b by (simp_all add: nat_less_iff le_nat_iff)
    show "pow2 (int ?x - 1) \<le> of_int a" "of_int a < pow2 (int ?x)"
        "pow2 (int ?y - 1) \<le> of_int b" "of_int b < pow2 (int ?y)"
      using i unfolding e pow2_nat
      by (metis of_int_le_iff of_int_less_iff of_int_numeral of_int_power)+
  qed
  let ?e = "int ?x - int ?y"
  have le: "pow2 (?e - 1) \<le> r"
  proof -
    have "pow2 (?e - 1) * of_int b \<le> pow2 (?e - 1) * pow2 (int ?y)"
      using p(4) by (intro mult_left_mono) auto
    also have "\<dots> = pow2 (int ?x - 1)" by (simp flip: pow2_add)
    also have "\<dots> \<le> of_int a" by (rule p(1))
    finally show ?thesis using b by (simp add: r pos_le_divide_eq)
  qed
  have less: "r < pow2 (?e + 1)"
  proof -
    have "of_int a < pow2 (int ?x)" by (rule p(2))
    also have "\<dots> = pow2 (?e + 1) * pow2 (int ?y - 1)" by (simp flip: pow2_add)
    also have "\<dots> \<le> pow2 (?e + 1) * of_int b" using p(3) by (intro mult_left_mono) (auto simp: less_imp_le)
    finally show ?thesis using b by (simp add: r pos_divide_less_eq)
  qed
  show ?thesis
    using le less by (auto simp: ilog2_def q Let_def)
qed

text \<open>Below this magnitude the exponent is the smallest one.\<close>

definition tiny :: rat where "tiny = pow2 (- 1022)"

lemma ulp_le: "r \<noteq> 0 \<Longrightarrow> ulp r \<le> max \<bar>r\<bar> tiny * pow2 (- 52)"
proof -
  assume "r \<noteq> 0"
  then have "pow2 (ilog2 \<bar>r\<bar>) \<le> \<bar>r\<bar>" using ilog2_bounds [of "\<bar>r\<bar>"] by simp
  then have "pow2 (max (ilog2 \<bar>r\<bar>) (- 1022)) \<le> max \<bar>r\<bar> tiny"
    by (auto simp: tiny_def max_def not_le intro: order_trans [OF pow2_mono])
  then have "pow2 (max (ilog2 \<bar>r\<bar>) (- 1022)) * pow2 (- 52) \<le> max \<bar>r\<bar> tiny * pow2 (- 52)"
    by (intro mult_right_mono) auto
  then show ?thesis by (simp add: ulp_def flip: pow2_add)
qed

lemma ulp_pos [simp]: "0 < ulp r"
  by (simp add: ulp_def)

lemma rounded_near: "\<bar>of_int (round_half_even (r / ulp r)) * ulp r - r\<bar> \<le> ulp r / 2"
proof -
  have "of_int (round_half_even (r / ulp r)) * ulp r - r =
      (of_int (round_half_even (r / ulp r)) - r / ulp r) * ulp r"
    by (simp add: field_simps ulp_def)
  then have "\<bar>of_int (round_half_even (r / ulp r)) * ulp r - r\<bar> =
      \<bar>of_int (round_half_even (r / ulp r)) - r / ulp r\<bar> * ulp r"
    by (simp add: abs_mult ulp_def)
  also have "\<dots> \<le> 1 / 2 * ulp r"
    using round_half_even_near [of "r / ulp r"] by (intro mult_right_mono) (auto simp: ulp_def)
  finally show ?thesis by simp
qed

lemma f64_round_near:
  assumes "\<bar>r\<bar> \<le> 2 ^ 80"
  shows "\<exists>v. f64_round r = Fin v \<and> \<bar>v - r\<bar> \<le> max \<bar>r\<bar> tiny * pow2 (- 53)"
proof (cases "r = 0")
  case True
  then show ?thesis by (simp add: f64_round_def tiny_def)
next
  case False
  let ?v = "of_int (round_half_even (r / ulp r)) * ulp r"
  have half: "pow2 (- 52) / 2 = pow2 (- 53)" by (simp add: pow2_def)
  have near: "\<bar>?v - r\<bar> \<le> max \<bar>r\<bar> tiny * pow2 (- 53)"
    using rounded_near [of r] ulp_le [OF False] unfolding half [symmetric] by simp
  have "tiny \<le> 1" using pow2_mono [of "- 1022" 0] by (simp add: tiny_def pow2_def)
  then have "max \<bar>r\<bar> tiny \<le> 2 ^ 80" using assms by simp
  moreover have "pow2 (- 53) \<le> 1" by (simp add: pow2_def)
  ultimately have "max \<bar>r\<bar> tiny * pow2 (- 53) \<le> 2 ^ 80 * 1"
    by (intro mult_mono) auto
  with near assms have "\<bar>?v\<bar> \<le> 2 ^ 81" by simp
  moreover have "(2 :: rat) ^ 81 < pow2 1024"
    unfolding pow2_def by simp
  ultimately have "\<not> pow2 1024 \<le> \<bar>?v\<bar>" by simp
  with near False show ?thesis by (simp add: f64_round_def Let_def)
qed

lemma f64_round_int:
  assumes "\<bar>i\<bar> < 2 ^ 53"
  shows "f64_round (of_int i) = Fin (of_int i)"
proof (cases "i = 0")
  case True
  then show ?thesis by (simp add: f64_round_def)
next
  case False
  let ?r = "rat_of_int i"
  let ?e = "max (ilog2 \<bar>?r\<bar>) (- 1022)"
  have "pow2 (ilog2 \<bar>?r\<bar>) \<le> \<bar>?r\<bar>" using False ilog2_bounds [of "\<bar>?r\<bar>"] by simp
  also have "\<bar>?r\<bar> < pow2 53"
    using assms by (simp add: pow2_def)
  finally have "ilog2 \<bar>?r\<bar> < 53" by (rule pow2_less_cancel)
  then have e: "?e \<le> 52" by simp
  have "pow2 (52 - ?e) * pow2 (?e - 52) = 1" by (simp add: pow2_def flip: pow2_add)
  then have inv: "1 / ulp ?r = of_int (2 ^ nat (52 - ?e))"
    using e by (simp add: ulp_def divide_eq_eq) (simp add: pow2_def)
  then have q: "?r / ulp ?r = of_int (i * 2 ^ nat (52 - ?e))"
    by (metis of_int_mult times_divide_eq_right mult.right_neutral)
  have v: "of_int (round_half_even (?r / ulp ?r)) * ulp ?r = ?r"
    unfolding q round_half_even_int
    using q ulp_pos [of ?r] by (metis nonzero_divide_eq_eq order_less_irrefl)
  have "\<bar>?r\<bar> < pow2 1024"
    using \<open>\<bar>?r\<bar> < pow2 53\<close> pow2_mono [of 53 1024] by simp
  with v False show ?thesis by (simp add: f64_round_def Let_def)
qed

end
