(* ===== verification/Go_Value.thy ===== *)
theory Go_Value
  imports Go_Float
begin

text \<open>
  Go values as the agent handles them: the dynamic values of type \<open>any\<close> that YAML and JSON
  decoding produce, JSON documents, and the part of \<open>encoding/json\<close> that decodes an object into a struct. The lexical layer of JSON
  and YAML (bytes to tree) is not modelled: it is a parameter of the definitions that use it.
\<close>

section \<open>Dynamic values\<close>

text \<open>Values of type \<open>any\<close>: \<open>VStrs\<close> is a \<open>[]string\<close>, \<open>VList\<close> a \<open>[]any\<close> and \<open>VMap\<close> a
  \<open>map[string]any\<close>; \<open>VInt\<close> is an \<open>int\<close> and \<open>VInt64\<close> an \<open>int64\<close>.\<close>

datatype gval =
    VNil
  | VBool bool
  | VInt int
  | VInt64 int
  | VFloat f64
  | VStr string
  | VStrs "string list"
  | VList "gval list"
  | VMap "(string \<times> gval) list"

type_synonym gargs = "(string, gval) gomap"

text \<open>\<open>m[key]\<close> on a \<open>map[string]any\<close>: a missing key reads as nil.\<close>

definition gget :: "gargs \<Rightarrow> string \<Rightarrow> gval" where
  "gget m k = (case map_of m k of None \<Rightarrow> VNil | Some v \<Rightarrow> v)"

lemma gget_Nil [simp]: "gget [] k = VNil"
  by (simp add: gget_def)

section \<open>JSON documents\<close>

text \<open>A document as the parser sees it, object members in document order, duplicates
  included. An integer literal (no fraction, no exponent) is \<open>JInt\<close>, because it alone decodes
  into a Go integer; any other number is \<open>JNum\<close>.\<close>

datatype json =
    JNull
  | JBool bool
  | JInt int
  | JNum f64
  | JStr string
  | JArr "json list"
  | JObj "(string \<times> json) list"

definition go_map_of_members :: "(string \<times> gval) list \<Rightarrow> gargs" where
  "go_map_of_members es = foldl (\<lambda>m e. AList.update (fst e) (snd e) m) [] es"

text \<open>Decoding into \<open>any\<close>: numbers become \<open>float64\<close>, a repeated key keeps its last value.\<close>

primrec json_any :: "json \<Rightarrow> gval" where
  "json_any JNull = VNil"
| "json_any (JBool b) = VBool b"
| "json_any (JInt i) = VFloat (f64_of_int i)"
| "json_any (JNum x) = VFloat x"
| "json_any (JStr s) = VStr s"
| "json_any (JArr js) = VList (map json_any js)"
| "json_any (JObj es) = VMap (go_map_of_members (map (map_prod id json_any) es))"

lemma go_map_of_members_ok: "gomap_ok (go_map_of_members es)"
  unfolding go_map_of_members_def by (rule foldl_invariant) auto

lemma go_map_of_members_snoc:
  "go_map_of_members (es @ [(k, v)]) = AList.update k v (go_map_of_members es)"
  by (simp add: go_map_of_members_def)

lemma map_of_go_map_of_members: "map_of (go_map_of_members es) = map_of (rev es)"
proof (induction es rule: rev_induct)
  case Nil
  show ?case by (simp add: go_map_of_members_def)
next
  case (snoc e es)
  then show ?case
    by (cases e) (auto simp: go_map_of_members_snoc fun_eq_iff)
qed

text \<open>
  \<open>encoding/json\<close> matches an object key to a struct field by its exact name and otherwise
  case-insensitively. Besides the ASCII letters two other characters fold to an ASCII letter:
  U+017F (long s) and U+212A (Kelvin sign).
\<close>

definition ascii_upper :: "char \<Rightarrow> char" where
  "ascii_upper c =
     (if CHR ''a'' \<le> c \<and> c \<le> CHR ''z'' then char_of (of_char c - (32 :: nat)) else c)"

fun fold_name :: "string \<Rightarrow> string" where
  "fold_name [] = []"
| "fold_name (c # s) =
     (case (c, s) of
        (c, []) \<Rightarrow> [ascii_upper c]
      | (c, d # t) \<Rightarrow>
          if c = CHR 0xC5 \<and> d = CHR 0xBF then CHR ''S'' # fold_name t
          else if c = CHR 0xE2 \<and> d = CHR 0x84 \<and> t \<noteq> [] \<and> hd t = CHR 0xAA
            then CHR ''K'' # fold_name (tl t)
          else ascii_upper c # fold_name (d # t))"

definition json_field :: "string list \<Rightarrow> string \<Rightarrow> string option" where
  "json_field names key =
     (if key \<in> set names then Some key
      else find (\<lambda>n. fold_name n = fold_name key) names)"

lemma json_field_exact [simp]: "key \<in> set names \<Longrightarrow> json_field names key = Some key"
  by (simp add: json_field_def)

lemma json_field_mem: "json_field names key = Some n \<Longrightarrow> n \<in> set names"
  by (auto simp: json_field_def find_Some_iff split: if_splits)

lemma json_field_examples:
  "json_field [''type'', ''reqId''] ''REQID'' = Some ''reqId''"
  "json_field [''type'', ''args''] [CHR 0x61, CHR 0x72, CHR 0x67, CHR 0xC5, CHR 0xBF]
     = Some ''args''"
  "json_field [''type'', ''reqId''] ''req_id'' = None"
  by code_simp+

end
