(* ===== verification/Collector_Config.thy ===== *)
theory Collector_Config
  imports Go_Value
begin

text \<open>
  The collector configuration: bindings (collectors/binding.go), the directory loader
  (collectors/loader.go), the registry of primitive names (collectors/registry.go) and the
  service definitions that expand into bindings (collectors/services.go). The file system is
  a record of what \<open>os.ReadDir\<close> and \<open>os.ReadFile\<close> return, and \<open>yaml.Unmarshal\<close> (a
  third-party module) is a parameter of the definitions that call it.
\<close>

section \<open>Files and directories\<close>

datatype io_err = NotExist | IoErr string

record dirent =
  de_name :: string
  de_isdir :: bool

datatype dir_result = DirNotExist | DirErr string | DirOk "dirent list"

record filesys =
  fs_dir :: "string \<Rightarrow> dir_result"
  fs_file :: "string \<Rightarrow> io_err + string"

section \<open>Bindings\<close>

record Binding =
  ID :: string
  Primitive :: string
  Args :: gargs
  OutputKey :: string

section \<open>Service definitions\<close>

type_synonym axis = gargs

record serviceMetric =
  sm_Key :: string
  sm_Exec :: "string list"
  sm_Parse :: string

record serviceDef =
  sd_Name :: string
  sd_Label :: string
  sd_Up :: axis
  sd_Health :: axis
  sd_Version :: axis
  sd_Metrics :: "serviceMetric list"
  sd_Logs :: gargs

record ServiceLogSource =
  sls_Name :: string
  sls_Type :: string
  sls_Container :: string
  sls_Path :: string
  sls_Unit :: string

record ServiceMetricRef =
  smr_Key :: string
  smr_Kind :: string

record ServiceSummary =
  ss_Name :: string
  ss_Label :: string
  ss_Logs :: bool
  ss_Metrics :: "ServiceMetricRef list"

datatype load_error =
    ReadDirError string
  | ReadFileError string io_err
  | YamlError string
  | ServiceNameRequired
  | UnknownProbe string string
  | MetricIncomplete string
  | InService string load_error

section \<open>The directory loader\<close>

definition yaml_file :: "string \<Rightarrow> bool" where
  "yaml_file name = (has_suffix name ''.yaml'' \<or> has_suffix name ''.yml'')"

text \<open>\<open>parseFile\<close> and \<open>LoadDir\<close>: \<open>parse\<close> is \<open>yaml.Unmarshal\<close> into \<open>[]Binding\<close>,
  \<open>None\<close> for a parse error. Directory names are unique, so the unstable
  \<open>sort.Slice\<close> by name is the sort by name.\<close>

definition parseFile ::
  "filesys \<Rightarrow> (string \<Rightarrow> Binding list option) \<Rightarrow> string \<Rightarrow> string \<Rightarrow> load_error + Binding list" where
  "parseFile fs parse name path =
     (case fs_file fs path of
        Inl e \<Rightarrow> Inl (ReadFileError name e)
      | Inr data \<Rightarrow> (case parse data of None \<Rightarrow> Inl (YamlError name) | Some bs \<Rightarrow> Inr bs))"

definition load_entry ::
  "filesys \<Rightarrow> (string \<Rightarrow> Binding list option) \<Rightarrow> string \<Rightarrow> dirent \<Rightarrow> load_error + Binding list" where
  "load_entry fs parse dir e =
     (if de_isdir e then Inr []
      else if \<not> yaml_file (de_name e) then Inr []
      else parseFile fs parse (de_name e) (path_join dir (de_name e)))"

definition LoadDir ::
  "filesys \<Rightarrow> (string \<Rightarrow> Binding list option) \<Rightarrow> string \<Rightarrow> load_error + Binding list" where
  "LoadDir fs parse dir =
     (case fs_dir fs dir of
        DirNotExist \<Rightarrow> Inr []
      | DirErr e \<Rightarrow> Inl (ReadDirError e)
      | DirOk es \<Rightarrow> collect (load_entry fs parse dir) (sort_key de_name es))"

text \<open>\<open>loadServiceDefs\<close>: \<open>parse\<close> is \<open>yaml.Unmarshal\<close> into a \<open>serviceFile\<close>, here its
  single field.\<close>

definition service_entry ::
  "filesys \<Rightarrow> (string \<Rightarrow> serviceDef option) \<Rightarrow> string \<Rightarrow> dirent \<Rightarrow> load_error + serviceDef list" where
  "service_entry fs parse dir e =
     (if de_isdir e \<or> \<not> yaml_file (de_name e) then Inr []
      else (case fs_file fs (path_join dir (de_name e)) of
              Inl err \<Rightarrow> Inl (ReadFileError (de_name e) err)
            | Inr data \<Rightarrow>
                (case parse data of
                   None \<Rightarrow> Inl (YamlError (de_name e))
                 | Some sd \<Rightarrow> if sd_Name sd = [] then Inr [] else Inr [sd])))"

definition loadServiceDefs ::
  "filesys \<Rightarrow> (string \<Rightarrow> serviceDef option) \<Rightarrow> string \<Rightarrow> load_error + serviceDef list" where
  "loadServiceDefs fs parse dir =
     (case fs_dir fs dir of
        DirNotExist \<Rightarrow> Inr []
      | DirErr e \<Rightarrow> Inl (ReadDirError e)
      | DirOk es \<Rightarrow> collect (service_entry fs parse dir) (sort_key de_name es))"

section \<open>Expanding a service\<close>

definition axisStr :: "axis \<Rightarrow> string \<Rightarrow> string \<Rightarrow> string" where
  "axisStr ax key dflt =
     (case gget ax key of VStr v \<Rightarrow> if v \<noteq> [] then v else dflt | _ \<Rightarrow> dflt)"

definition axisBinding ::
  "string \<Rightarrow> string \<Rightarrow> axis \<Rightarrow> load_error + Binding option" where
  "axisBinding name axisName ax =
     (if ax = [] then Inr None else
      let key = name @ ''_'' @ axisName;
          bind = (\<lambda>prim args. Inr (Some \<lparr>ID = key, Primitive = prim, Args = args, OutputKey = key\<rparr>))
      in
      if gget ax ''tcp'' \<noteq> VNil then
        bind ''tcp.connect''
          [(''host'', VStr (axisStr ax ''host'' ''127.0.0.1'')), (''port'', gget ax ''tcp'')]
      else if gget ax ''http'' \<noteq> VNil then
        (if gget ax ''path'' \<noteq> VNil then
           bind ''http.get_json'' [(''url'', gget ax ''http''), (''path'', gget ax ''path'')]
         else bind ''http.get'' [(''url'', gget ax ''http''), (''expect'', VStr ''ok'')])
      else if gget ax ''systemd'' \<noteq> VNil then
        bind ''systemctl.is_active'' [(''unit'', gget ax ''systemd'')]
      else if gget ax ''docker'' \<noteq> VNil then
        bind ''exec''
          [(''cmd'', VList [VStr ''docker'', VStr ''inspect'', VStr ''-f'',
                            VStr ''{{.State.Running}}'', gget ax ''docker'']),
           (''parse'', VStr ''trimmed'')]
      else if gget ax ''exec'' \<noteq> VNil then
        bind ''exec''
          ((''cmd'', gget ax ''exec'') #
           (case map_of ax ''parse'' of None \<Rightarrow> [] | Some p \<Rightarrow> [(''parse'', p)]))
      else Inl (UnknownProbe name axisName))"

definition axis_bindings :: "serviceDef \<Rightarrow> string \<times> axis \<Rightarrow> load_error + Binding list" where
  "axis_bindings s a =
     (case axisBinding (sd_Name s) (fst a) (snd a) of
        Inl e \<Rightarrow> Inl e
      | Inr None \<Rightarrow> Inr []
      | Inr (Some b) \<Rightarrow> Inr [b])"

definition metric_binding :: "serviceDef \<Rightarrow> serviceMetric \<Rightarrow> load_error + Binding list" where
  "metric_binding s m =
     (if sm_Key m = [] \<or> sm_Exec m = [] then Inl (MetricIncomplete (sd_Name s))
      else
        let key = sd_Name s @ ''_'' @ sm_Key m in
        Inr [\<lparr>ID = key, Primitive = ''exec'',
              Args = (''cmd'', VStrs (sm_Exec m)) #
                     (if sm_Parse m \<noteq> [] then [(''parse'', VStr (sm_Parse m))] else []),
              OutputKey = key\<rparr>])"

definition expandService :: "serviceDef \<Rightarrow> load_error + Binding list" where
  "expandService s =
     (if sd_Name s = [] then Inl ServiceNameRequired
      else result_bind
             (collect (axis_bindings s)
                [(''up'', sd_Up s), (''health'', sd_Health s), (''version'', sd_Version s)])
             (\<lambda>bs. result_bind (collect (metric_binding s) (sd_Metrics s))
                (\<lambda>ms. Inr (bs @ ms))))"

definition expand_item :: "serviceDef \<Rightarrow> load_error + Binding list" where
  "expand_item s =
     (case expandService s of Inl e \<Rightarrow> Inl (InService (sd_Name s) e) | Inr bs \<Rightarrow> Inr bs)"

definition LoadServiceDir ::
  "filesys \<Rightarrow> (string \<Rightarrow> serviceDef option) \<Rightarrow> string \<Rightarrow> load_error + Binding list" where
  "LoadServiceDir fs parse dir =
     result_bind (loadServiceDefs fs parse dir) (collect expand_item)"

section \<open>Log sources and summaries\<close>

definition logsStr :: "gargs \<Rightarrow> string \<Rightarrow> string" where
  "logsStr m key = (case gget m key of VStr s \<Rightarrow> s | _ \<Rightarrow> [])"

definition service_log_source :: "serviceDef \<Rightarrow> ServiceLogSource" where
  "service_log_source s =
     \<lparr>sls_Name = sd_Name s, sls_Type = logsStr (sd_Logs s) ''type'',
      sls_Container = logsStr (sd_Logs s) ''container'',
      sls_Path = logsStr (sd_Logs s) ''path'', sls_Unit = logsStr (sd_Logs s) ''unit''\<rparr>"

definition LoadServiceLogSources ::
  "filesys \<Rightarrow> (string \<Rightarrow> serviceDef option) \<Rightarrow> string \<Rightarrow> load_error + ServiceLogSource list" where
  "LoadServiceLogSources fs parse dir =
     result_bind (loadServiceDefs fs parse dir)
       (\<lambda>defs. Inr (map service_log_source (filter (\<lambda>s. sd_Logs s \<noteq> []) defs)))"

definition service_summary :: "serviceDef \<Rightarrow> ServiceSummary" where
  "service_summary s =
     (let ref = (\<lambda>key kind. \<lparr>smr_Key = sd_Name s @ ''_'' @ key, smr_Kind = kind\<rparr>) in
      \<lparr>ss_Name = sd_Name s, ss_Label = sd_Label s,
       ss_Logs = (sd_Logs s \<noteq> [] \<and> logsStr (sd_Logs s) ''type'' \<noteq> []),
       ss_Metrics =
         (if sd_Up s \<noteq> [] then [ref ''up'' ''up''] else []) @
         (if sd_Health s \<noteq> [] then [ref ''health'' ''health''] else []) @
         (if sd_Version s \<noteq> [] then [ref ''version'' ''version''] else []) @
         map (\<lambda>m. ref (sm_Key m) ''custom'') (sd_Metrics s)\<rparr>)"

definition LoadServiceSummaries ::
  "filesys \<Rightarrow> (string \<Rightarrow> serviceDef option) \<Rightarrow> string \<Rightarrow> load_error + ServiceSummary list" where
  "LoadServiceSummaries fs parse dir =
     result_bind (loadServiceDefs fs parse dir) (\<lambda>defs. Inr (map service_summary defs))"

section \<open>The primitive registry\<close>

definition DefaultRegistry :: "string list" where
  "DefaultRegistry =
     [''procfs.loadavg'', ''procfs.uptime'', ''procfs.memory'', ''procfs.swap'',
      ''procfs.cpu_count'', ''procfs.cpu_used_pct'', ''procfs.diskstats'', ''procfs.netdev'',
      ''os.release'', ''os.hostname'', ''os.kernel'', ''os.arch'', ''reboot.required'',
      ''disk.usage'', ''disk.max_used_pct'', ''exec'', ''systemctl.is_active'',
      ''systemd.resources'', ''tcp.connect'', ''ssl.cert_expiry'', ''http.get'',
      ''http.probe'', ''http.get_json'', ''file.stat'', ''file.newest_age_seconds'',
      ''apt.security_count'', ''docker.containers'', ''docker.stats'', ''runtime.services'',
      ''security.snapshot'']"

section \<open>The contract of a configuration directory\<close>

text \<open>
  \<open>LoadDir\<close> and \<open>loadServiceDefs\<close> share one contract: a missing directory is empty, an
  unreadable one is an error, entries are read in name order and everything that is not a YAML
  file is skipped. What follows from the contract is proved once.
\<close>

definition yaml_entry :: "dirent \<Rightarrow> bool" where
  "yaml_entry e = (\<not> de_isdir e \<and> yaml_file (de_name e))"

locale config_dir =
  fixes load :: "filesys \<Rightarrow> string \<Rightarrow> 'e + 'a list"
    and item :: "filesys \<Rightarrow> string \<Rightarrow> dirent \<Rightarrow> 'e + 'a list"
  assumes load_missing: "fs_dir fs d = DirNotExist \<Longrightarrow> load fs d = Inr []"
    and load_unreadable: "fs_dir fs d = DirErr msg \<Longrightarrow> \<not> is_ok (load fs d)"
    and load_entries:
      "fs_dir fs d = DirOk es \<Longrightarrow> load fs d = collect (item fs d) (sort_key de_name es)"
    and item_skip: "\<not> yaml_entry e \<Longrightarrow> item fs d e = Inr []"
    and item_local: "fs_file fs = fs_file fs' \<Longrightarrow> item fs d e = item fs' d e"
begin

lemma load_only_yaml:
  assumes "fs_dir fs d = DirOk es"
  shows "load fs d = collect (item fs d) (sort_key de_name (filter yaml_entry es))"
  using load_entries [OF assms]
  by (simp add: collect_filter [of yaml_entry, OF item_skip] flip: filter_sort)

lemma load_same_files:
  assumes "fs_dir fs d = DirOk es" "fs_dir fs' d = DirOk es'"
    and "mset (filter yaml_entry es) = mset (filter yaml_entry es')"
    and "distinct (map de_name es)" and "fs_file fs = fs_file fs'"
  shows "load fs d = load fs' d"
proof -
  have "distinct (map de_name (filter yaml_entry es))"
    using assms(4) by (induction es) auto
  then have "sort_key de_name (filter yaml_entry es) = sort_key de_name (filter yaml_entry es')"
    using assms(3) by (intro sort_key_inj_key_eq) (auto simp: distinct_map)
  moreover have "collect (item fs d) xs = collect (item fs' d) xs" for xs
    using assms(5) by (intro collect_cong item_local)
  ultimately show ?thesis
    using assms(1,2) by (simp add: load_only_yaml)
qed

lemma load_all_or_nothing:
  assumes "fs_dir fs d = DirOk es" and "load fs d = Inr xs"
  shows "\<forall>e \<in> set es. is_ok (item fs d e)"
  using assms load_entries [of fs d es] by (auto simp: collect_Inr_iff)

end

interpretation collectors_d: config_dir "\<lambda>fs d. LoadDir fs parse d" "\<lambda>fs d. load_entry fs parse d"
  for parse
  by unfold_locales (auto simp: LoadDir_def load_entry_def parseFile_def yaml_entry_def)

interpretation services_d: config_dir "\<lambda>fs d. loadServiceDefs fs parse d"
  "\<lambda>fs d. service_entry fs parse d" for parse
  by unfold_locales (auto simp: loadServiceDefs_def service_entry_def yaml_entry_def)

section \<open>What expansion produces\<close>

definition probe_keys :: "string list" where
  "probe_keys = [''tcp'', ''http'', ''systemd'', ''docker'', ''exec'']"

definition axis_wf :: "axis \<Rightarrow> bool" where
  "axis_wf ax = (ax = [] \<or> (\<exists>p \<in> set probe_keys. gget ax p \<noteq> VNil))"

definition metric_wf :: "serviceMetric \<Rightarrow> bool" where
  "metric_wf m = (sm_Key m \<noteq> [] \<and> sm_Exec m \<noteq> [])"

definition service_wf :: "serviceDef \<Rightarrow> bool" where
  "service_wf s =
     (sd_Name s \<noteq> [] \<and> axis_wf (sd_Up s) \<and> axis_wf (sd_Health s) \<and> axis_wf (sd_Version s) \<and>
      list_all metric_wf (sd_Metrics s))"

definition well_bound :: "string \<Rightarrow> Binding \<Rightarrow> bool" where
  "well_bound name b =
     (Primitive b \<in> set DefaultRegistry \<and> has_prefix (OutputKey b) (name @ ''_'') \<and>
      ID b = OutputKey b)"

lemma axisBinding_None_iff [simp]: "axisBinding name a ax = Inr None \<longleftrightarrow> ax = []"
  by (simp add: axisBinding_def Let_def)

lemma axisBinding_ok_iff: "is_ok (axisBinding name a ax) \<longleftrightarrow> axis_wf ax"
  by (simp add: axisBinding_def axis_wf_def probe_keys_def Let_def)

lemma axisBinding_SomeD:
  "axisBinding name a ax = Inr (Some b) \<Longrightarrow>
     ax \<noteq> [] \<and> OutputKey b = name @ ''_'' @ a \<and> well_bound name b"
  by (auto simp: axisBinding_def Let_def well_bound_def DefaultRegistry_def has_prefix_def
      split: if_splits)

lemma axis_bindings_ok_iff: "is_ok (axis_bindings s a) \<longleftrightarrow> axis_wf (snd a)"
  using axisBinding_ok_iff [of "sd_Name s" "fst a" "snd a"]
  by (auto simp: axis_bindings_def is_ok_def split: sum.splits option.splits)

lemma axis_bindings_InrD:
  assumes "axis_bindings s a = Inr bs"
  shows "map OutputKey bs = (if snd a \<noteq> [] then [sd_Name s @ ''_'' @ fst a] else [])
    \<and> list_all (well_bound (sd_Name s)) bs"
  using assms
  by (auto simp: axis_bindings_def split: sum.splits option.splits dest: axisBinding_SomeD)

lemma metric_binding_ok_iff: "is_ok (metric_binding s m) \<longleftrightarrow> metric_wf m"
  by (simp add: metric_binding_def metric_wf_def Let_def)

lemma metric_binding_InrD:
  assumes "metric_binding s m = Inr bs"
  shows "map OutputKey bs = [sd_Name s @ ''_'' @ sm_Key m]
    \<and> list_all (well_bound (sd_Name s)) bs"
  using assms
  by (auto simp: metric_binding_def Let_def well_bound_def DefaultRegistry_def has_prefix_def
      split: if_splits)

lemma collect_mapD:
  assumes "collect f xs = Inr ys"
    and "\<And>x zs. f x = Inr zs \<Longrightarrow> map key zs = keys x \<and> list_all P zs"
  shows "map key ys = concat (map keys xs) \<and> list_all P ys"
  using assms by (induction xs arbitrary: ys) (fastforce split: sum.splits)+

lemma expandService_InrE:
  assumes "expandService s = Inr bs"
  obtains as ms where "bs = as @ ms" "sd_Name s \<noteq> []"
    and "collect (axis_bindings s)
          [(''up'', sd_Up s), (''health'', sd_Health s), (''version'', sd_Version s)] = Inr as"
    and "collect (metric_binding s) (sd_Metrics s) = Inr ms"
  using assms by (auto simp: expandService_def result_bind_Inr_iff split: if_splits)

lemma expandService_keys:
  assumes "expandService s = Inr bs"
  shows "map OutputKey bs = map smr_Key (ss_Metrics (service_summary s))
    \<and> list_all (well_bound (sd_Name s)) bs"
proof -
  from assms obtain as ms where bs: "bs = as @ ms"
    and as: "collect (axis_bindings s)
          [(''up'', sd_Up s), (''health'', sd_Health s), (''version'', sd_Version s)] = Inr as"
    and ms: "collect (metric_binding s) (sd_Metrics s) = Inr ms"
    by (rule expandService_InrE)
  note A = collect_mapD [OF as axis_bindings_InrD]
  note M = collect_mapD [OF ms metric_binding_InrD]
  have "concat (map (\<lambda>m. [sd_Name s @ ''_'' @ sm_Key m]) (sd_Metrics s)) =
      map (\<lambda>m. sd_Name s @ ''_'' @ sm_Key m) (sd_Metrics s)"
    by (induction "sd_Metrics s") auto
  with A M bs show ?thesis
    by (simp add: service_summary_def Let_def comp_def concat_map_singleton)
qed

lemma expandService_ok_iff: "is_ok (expandService s) \<longleftrightarrow> service_wf s"
  by (auto simp: expandService_def service_wf_def list_all_iff is_ok_bind_const
      collect_ok_iff axis_bindings_ok_iff metric_binding_ok_iff simp del: collect.simps)

lemma expand_item_InrD:
  assumes "expand_item s = Inr bs"
  shows "map OutputKey bs = map smr_Key (ss_Metrics (service_summary s))
    \<and> list_all (\<lambda>b. Primitive b \<in> set DefaultRegistry) bs"
proof -
  from assms have "expandService s = Inr bs"
    by (auto simp: expand_item_def split: sum.splits)
  from expandService_keys [OF this] show ?thesis
    by (auto simp: well_bound_def list_all_iff)
qed

section \<open>Properties\<close>

text \<open>The bindings of a collectors.d directory do not depend on the order in which the
  operating system lists it, nor on entries that are not YAML files: two directories with the
  same YAML entries over the same files load alike, errors included.\<close>

lemma LoadDir_same_files:
  assumes "fs_dir fs d = DirOk es" and "fs_dir fs' d = DirOk es'"
    and "mset (filter yaml_entry es) = mset (filter yaml_entry es')"
    and "distinct (map de_name es)" and "fs_file fs = fs_file fs'"
  shows "LoadDir fs parse d = LoadDir fs' parse d"
  using assms by (rule collectors_d.load_same_files)

definition demo_binding :: "string \<Rightarrow> Binding" where
  "demo_binding k = \<lparr>ID = k, Primitive = ''exec'', Args = [], OutputKey = k\<rparr>"

definition demo_fs :: "dirent list \<Rightarrow> filesys" where
  "demo_fs es = \<lparr>fs_dir = (\<lambda>_. DirOk es), fs_file = (\<lambda>p. Inr p)\<rparr>"

definition demo_entry :: "string \<Rightarrow> dirent" where
  "demo_entry n = \<lparr>de_name = n, de_isdir = False\<rparr>"

lemma LoadDir_same_files_witness:
  "LoadDir (demo_fs [demo_entry ''b.yaml'', demo_entry ''a.yml''])
     (\<lambda>p. Some [demo_binding p]) ''d'' =
   LoadDir (demo_fs [demo_entry ''README'', demo_entry ''a.yml'', demo_entry ''b.yaml''])
     (\<lambda>p. Some [demo_binding p]) ''d''
   \<and> LoadDir (demo_fs [demo_entry ''b.yaml'', demo_entry ''a.yml''])
       (\<lambda>p. Some [demo_binding p]) ''d'' =
     Inr [demo_binding ''d/a.yml'', demo_binding ''d/b.yaml'']"
proof
  show "LoadDir (demo_fs [demo_entry ''b.yaml'', demo_entry ''a.yml''])
     (\<lambda>p. Some [demo_binding p]) ''d'' =
   LoadDir (demo_fs [demo_entry ''README'', demo_entry ''a.yml'', demo_entry ''b.yaml''])
     (\<lambda>p. Some [demo_binding p]) ''d''"
    by (rule LoadDir_same_files [where es = "[demo_entry ''b.yaml'', demo_entry ''a.yml'']"
          and es' = "[demo_entry ''README'', demo_entry ''a.yml'', demo_entry ''b.yaml'']"])
      (simp_all add: demo_fs_def demo_entry_def yaml_entry_def yaml_file_def has_suffix_def
        has_prefix_def)
  show "LoadDir (demo_fs [demo_entry ''b.yaml'', demo_entry ''a.yml''])
       (\<lambda>p. Some [demo_binding p]) ''d'' =
     Inr [demo_binding ''d/a.yml'', demo_binding ''d/b.yaml'']"
    by code_simp
qed

text \<open>Whenever the services of a directory expand, the heartbeat's service summaries list
  exactly the output keys of the bindings, in the same order, and every binding names a
  primitive of the registry: no advertised metric is left without a collector.\<close>

lemma service_keys_advertised:
  assumes "LoadServiceDir fs parse dir = Inr bs"
  shows "\<exists>rows. LoadServiceSummaries fs parse dir = Inr rows
    \<and> map OutputKey bs = concat (map (\<lambda>s. map smr_Key (ss_Metrics s)) rows)
    \<and> (\<forall>b \<in> set bs. Primitive b \<in> set DefaultRegistry)"
proof -
  from assms obtain defs where defs: "loadServiceDefs fs parse dir = Inr defs"
    and bs: "collect expand_item defs = Inr bs"
    by (auto simp: LoadServiceDir_def result_bind_Inr_iff)
  from collect_mapD [OF bs expand_item_InrD] defs show ?thesis
    by (auto simp: LoadServiceSummaries_def list_all_iff comp_def)
qed

definition demo_service :: serviceDef where
  "demo_service =
     \<lparr>sd_Name = ''tleasy'', sd_Label = ''TL Easy'', sd_Up = [(''tcp'', VInt 8080)],
      sd_Health = [(''http'', VStr ''http://x/h''), (''path'', VStr ''status'')],
      sd_Version = [],
      sd_Metrics = [\<lparr>sm_Key = ''q'', sm_Exec = [''echo'', ''1''], sm_Parse = ''int''\<rparr>],
      sd_Logs = [(''type'', VStr ''file''), (''path'', VStr ''/var/log/x'')]\<rparr>"

lemma service_keys_advertised_witness:
  "\<exists>bs rows. LoadServiceDir (demo_fs [demo_entry ''app.yaml'']) (\<lambda>_. Some demo_service) ''d'' = Inr bs
    \<and> LoadServiceSummaries (demo_fs [demo_entry ''app.yaml'']) (\<lambda>_. Some demo_service) ''d'' = Inr rows
    \<and> map OutputKey bs = [''tleasy_up'', ''tleasy_health'', ''tleasy_q'']
    \<and> map OutputKey bs = concat (map (\<lambda>s. map smr_Key (ss_Metrics s)) rows)"
proof -
  let ?load = "LoadServiceDir (demo_fs [demo_entry ''app.yaml'']) (\<lambda>_. Some demo_service) ''d''"
  have ok: "?load = Inr (projr ?load)" by code_simp
  have keys: "map OutputKey (projr ?load) = [''tleasy_up'', ''tleasy_health'', ''tleasy_q'']"
    by code_simp
  obtain rows where
    "LoadServiceSummaries (demo_fs [demo_entry ''app.yaml'']) (\<lambda>_. Some demo_service) ''d'' = Inr rows"
    "map OutputKey (projr ?load) = concat (map (\<lambda>s. map smr_Key (ss_Metrics s)) rows)"
    using service_keys_advertised [OF ok] by (elim exE conjE)
  with ok keys show ?thesis by (intro exI conjI)
qed

text \<open>A service definition expands exactly when it is well formed (it has a name, each axis
  is absent or has one of the five probes, each metric has a key and a command); every binding
  it expands to is then named after the service and identified by its output key.\<close>

lemma expandService_total:
  "(is_ok (expandService s) \<longleftrightarrow> service_wf s)
   \<and> (\<forall>bs. expandService s = Inr bs \<longrightarrow> list_all (well_bound (sd_Name s)) bs)"
  using expandService_ok_iff expandService_keys by blast

lemma expandService_total_witness:
  "is_ok (expandService demo_service) \<and> service_wf demo_service
   \<and> list_all (well_bound ''tleasy'') (projr (expandService demo_service))
   \<and> \<not> is_ok (expandService (demo_service\<lparr>sd_Up := [(''wat'', VInt 1)]\<rparr>))"
proof -
  have ok: "is_ok (expandService demo_service)"
    by code_simp
  then have wf: "service_wf demo_service"
    using expandService_total [of demo_service] by blast
  from ok have "expandService demo_service = Inr (projr (expandService demo_service))"
    by (auto simp: is_ok_iff)
  then have "list_all (well_bound (sd_Name demo_service)) (projr (expandService demo_service))"
    using expandService_total [of demo_service] by blast
  moreover have "sd_Name demo_service = ''tleasy''" by (simp add: demo_service_def)
  moreover have "\<not> is_ok (expandService (demo_service\<lparr>sd_Up := [(''wat'', VInt 1)]\<rparr>))"
    by code_simp
  ultimately show ?thesis using ok wf by simp
qed

end
