(* ===== verification/Control_Config.thy ===== *)
theory Control_Config
  imports Collector_Config
begin

text \<open>
  The operator's allow-list of the control channel (control/config.go): its shape, how
  \<open>loadControlConfig\<close> reads it with its ceilings and merges the log sources of the service
  definitions, the opt-in gates and the verbs and sources that are advertised to the server.
\<close>

section \<open>The allow-list\<close>

definition hardMaxLines :: int where "hardMaxLines = 5000"
definition hardMaxFollowSeconds :: int where "hardMaxFollowSeconds = 3600"
definition defaultLines :: int where "defaultLines = 200"
definition defaultMaxLines :: int where "defaultMaxLines = 2000"
definition defaultFollowSeconds :: int where "defaultFollowSeconds = 600"

lemmas limit_defs = hardMaxLines_def hardMaxFollowSeconds_def defaultLines_def
  defaultMaxLines_def defaultFollowSeconds_def

record simpleVerb =
  sv_Enabled :: bool

record logSource =
  src_Type :: string
  src_Container :: string
  src_Path :: string
  src_Unit :: string

record logsConfig =
  logs_Enabled :: bool
  DefaultLines :: int
  MaxLines :: int
  MaxFollowSeconds :: int
  Sources :: "(string, logSource) gomap"

record sectionControl =
  ctl_Enabled :: bool
  Logs :: logsConfig
  Top :: simpleVerb
  Df :: simpleVerb
  Ports :: simpleVerb
  Cron :: simpleVerb
  Svc :: simpleVerb
  Pkg :: simpleVerb
  Docker :: simpleVerb
  Metrics :: simpleVerb

record ControlConfig =
  Control :: sectionControl

text \<open>The zero value \<open>ControlConfig{}\<close>.\<close>

definition off :: simpleVerb where
  "off = \<lparr>sv_Enabled = False\<rparr>"

definition zero_logs :: logsConfig where
  "zero_logs = \<lparr>logs_Enabled = False, DefaultLines = 0, MaxLines = 0, MaxFollowSeconds = 0,
     Sources = []\<rparr>"

definition zero_config :: ControlConfig where
  "zero_config = \<lparr>Control = \<lparr>ctl_Enabled = False, Logs = zero_logs, Top = off, Df = off,
     Ports = off, Cron = off, Svc = off, Pkg = off, Docker = off, Metrics = off\<rparr>\<rparr>"

section \<open>Loading\<close>

definition defaultControlConfigPath :: string where
  "defaultControlConfigPath = ''/etc/iclic-host-agent/control.yaml''"

definition envControlConfigPath :: string where
  "envControlConfigPath = ''ICLIC_CONTROL_CONFIG''"

definition apply_limits :: "logsConfig \<Rightarrow> logsConfig" where
  "apply_limits l0 =
     (let l1 = (if DefaultLines l0 \<le> 0 then l0\<lparr>DefaultLines := defaultLines\<rparr> else l0);
          l2 = (if MaxLines l1 \<le> 0 then l1\<lparr>MaxLines := defaultMaxLines\<rparr> else l1);
          l3 = (if MaxLines l2 > hardMaxLines then l2\<lparr>MaxLines := hardMaxLines\<rparr> else l2);
          l4 = (if MaxFollowSeconds l3 \<le> 0
                then l3\<lparr>MaxFollowSeconds := defaultFollowSeconds\<rparr> else l3)
      in if MaxFollowSeconds l4 > hardMaxFollowSeconds
         then l4\<lparr>MaxFollowSeconds := hardMaxFollowSeconds\<rparr> else l4)"

text \<open>One iteration of the loop that adds the services' log sources: a source without a type is
  skipped and an existing name is kept.\<close>

definition add_service_source ::
  "(string, logSource) gomap \<Rightarrow> ServiceLogSource \<Rightarrow> (string, logSource) gomap" where
  "add_service_source srcs s =
     (if sls_Type s = [] then srcs
      else if map_of srcs (sls_Name s) \<noteq> None then srcs
      else AList.update (sls_Name s)
             \<lparr>src_Type = sls_Type s, src_Container = sls_Container s, src_Path = sls_Path s,
              src_Unit = sls_Unit s\<rparr> srcs)"

definition merge_service_sources ::
  "(string, logSource) gomap \<Rightarrow> ServiceLogSource list \<Rightarrow> (string, logSource) gomap" where
  "merge_service_sources srcs ss = foldl add_service_source srcs ss"

text \<open>
  \<open>loadControlConfig\<close>: \<open>env\<close> is \<open>os.Getenv\<close>, \<open>yaml\<close> is \<open>yaml.Unmarshal\<close> into a
  \<open>ControlConfig\<close> (\<open>None\<close> for an error) and \<open>svc_yaml\<close> the same for a service file.
\<close>

definition loadControlConfig ::
  "(string \<Rightarrow> string) \<Rightarrow> filesys \<Rightarrow> (string \<Rightarrow> ControlConfig option)
   \<Rightarrow> (string \<Rightarrow> serviceDef option) \<Rightarrow> ControlConfig" where
  "loadControlConfig env fs yaml svc_yaml =
     (let path = (if env envControlConfigPath = [] then defaultControlConfigPath
                  else env envControlConfigPath)
      in case fs_file fs path of
           Inl _ \<Rightarrow> zero_config
         | Inr data \<Rightarrow>
             (case yaml data of
                None \<Rightarrow> zero_config
              | Some cfg0 \<Rightarrow>
                  let l = apply_limits (Logs (Control cfg0));
                      cfg = cfg0\<lparr>Control := (Control cfg0)\<lparr>Logs := l\<rparr>\<rparr>
                  in if ctl_Enabled (Control cfg) \<and> logs_Enabled l then
                       (case LoadServiceLogSources fs svc_yaml
                               (path_join (path_dir path) ''services.d'') of
                          Inl _ \<Rightarrow> cfg
                        | Inr ss \<Rightarrow>
                            cfg\<lparr>Control := (Control cfg)
                                 \<lparr>Logs := l\<lparr>Sources := merge_service_sources (Sources l) ss\<rparr>\<rparr>\<rparr>)
                     else cfg))"

section \<open>Gates and advertisement\<close>

definition logsEnabled :: "ControlConfig \<Rightarrow> bool" where
  "logsEnabled c =
     (ctl_Enabled (Control c) \<and> logs_Enabled (Logs (Control c)) \<and>
      length (Sources (Logs (Control c))) > 0)"

definition topEnabled :: "ControlConfig \<Rightarrow> bool" where
  "topEnabled c = (ctl_Enabled (Control c) \<and> sv_Enabled (Top (Control c)))"

definition dfEnabled :: "ControlConfig \<Rightarrow> bool" where
  "dfEnabled c = (ctl_Enabled (Control c) \<and> sv_Enabled (Df (Control c)))"

definition portsEnabled :: "ControlConfig \<Rightarrow> bool" where
  "portsEnabled c = (ctl_Enabled (Control c) \<and> sv_Enabled (Ports (Control c)))"

definition cronEnabled :: "ControlConfig \<Rightarrow> bool" where
  "cronEnabled c = (ctl_Enabled (Control c) \<and> sv_Enabled (Cron (Control c)))"

definition svcEnabled :: "ControlConfig \<Rightarrow> bool" where
  "svcEnabled c = (ctl_Enabled (Control c) \<and> sv_Enabled (Svc (Control c)))"

definition pkgEnabled :: "ControlConfig \<Rightarrow> bool" where
  "pkgEnabled c = (ctl_Enabled (Control c) \<and> sv_Enabled (Pkg (Control c)))"

definition dockerEnabled :: "ControlConfig \<Rightarrow> bool" where
  "dockerEnabled c = (ctl_Enabled (Control c) \<and> sv_Enabled (Docker (Control c)))"

definition metricsEnabled :: "ControlConfig \<Rightarrow> bool" where
  "metricsEnabled c = (ctl_Enabled (Control c) \<and> sv_Enabled (Metrics (Control c)))"

lemmas [gate_simps] = logsEnabled_def topEnabled_def dfEnabled_def portsEnabled_def
  cronEnabled_def svcEnabled_def pkgEnabled_def dockerEnabled_def metricsEnabled_def

definition source :: "ControlConfig \<Rightarrow> string \<Rightarrow> logSource option" where
  "source c name = map_of (Sources (Logs (Control c))) name"

definition verbs :: "ControlConfig \<Rightarrow> string list" where
  "verbs c =
     (if logsEnabled c then [''logs.tail''] else []) @
     (if topEnabled c then [''proc.top'', ''proc.top.live''] else []) @
     (if dfEnabled c then [''disk.df''] else []) @
     (if portsEnabled c then [''net.listen''] else []) @
     (if cronEnabled c then [''cron.list''] else []) @
     (if svcEnabled c then [''svc.status'', ''svc.list''] else []) @
     (if pkgEnabled c then [''pkg.list''] else []) @
     (if dockerEnabled c then [''docker.ps''] else []) @
     (if metricsEnabled c then [''metrics.live''] else [])"

definition sourceNames :: "ControlConfig \<Rightarrow> string list" where
  "sourceNames c = sort (gomap_keys (Sources (Logs (Control c))))"

section \<open>Facts about loading\<close>

definition limits_ok :: "logsConfig \<Rightarrow> bool" where
  "limits_ok l =
     (1 \<le> DefaultLines l \<and> 1 \<le> MaxLines l \<and> MaxLines l \<le> hardMaxLines \<and>
      1 \<le> MaxFollowSeconds l \<and> MaxFollowSeconds l \<le> hardMaxFollowSeconds)"

lemma apply_limits_ok: "limits_ok (apply_limits l)"
  by (simp add: apply_limits_def limits_ok_def limit_defs Let_def)

lemma apply_limits_frame [simp]:
  "logs_Enabled (apply_limits l) = logs_Enabled l" "Sources (apply_limits l) = Sources l"
  by (simp_all add: apply_limits_def Let_def)

lemma limits_ok_Sources [simp]: "limits_ok (l\<lparr>Sources := s\<rparr>) = limits_ok l"
  by (simp add: limits_ok_def)

lemma merge_service_sources_snoc:
  "merge_service_sources srcs (ss @ [s]) = add_service_source (merge_service_sources srcs ss) s"
  by (simp add: merge_service_sources_def)

text \<open>The names stay distinct, so the merged list is a Go map again.\<close>

lemma merge_service_sources_ok:
  "gomap_ok srcs \<Longrightarrow> gomap_ok (merge_service_sources srcs ss)"
  unfolding merge_service_sources_def
  by (rule foldl_invariant) (auto simp: add_service_source_def)

definition service_source_of :: "ServiceLogSource \<Rightarrow> logSource" where
  "service_source_of s = \<lparr>src_Type = sls_Type s, src_Container = sls_Container s,
     src_Path = sls_Path s, src_Unit = sls_Unit s\<rparr>"

text \<open>What a name resolves to after the merge: the operator's entry, or else the first usable
  service of that name.\<close>

definition first_service :: "string \<Rightarrow> ServiceLogSource list \<Rightarrow> ServiceLogSource option" where
  "first_service name ss = find (\<lambda>s. sls_Name s = name \<and> sls_Type s \<noteq> []) ss"

lemma find_append:
  "find P (xs @ ys) = (case find P xs of None \<Rightarrow> find P ys | Some x \<Rightarrow> Some x)"
  by (induction xs) auto

lemma map_of_merge_service_sources:
  "map_of (merge_service_sources srcs ss) name =
     (case map_of srcs name of
        Some src \<Rightarrow> Some src
      | None \<Rightarrow> map_option service_source_of (first_service name ss))"
proof (induction ss rule: rev_induct)
  case Nil
  show ?case by (simp add: merge_service_sources_def first_service_def split: option.split)
next
  case (snoc s ss)
  then show ?case
    by (auto simp: merge_service_sources_snoc add_service_source_def first_service_def
        find_append service_source_of_def split: option.splits)
qed

lemma load_absent:
  assumes "fs_file fs (if env envControlConfigPath = [] then defaultControlConfigPath
      else env envControlConfigPath) = Inl e"
  shows "loadControlConfig env fs yaml svc_yaml = zero_config"
  using assms by (simp add: loadControlConfig_def Let_def)

lemma load_cases:
  "loadControlConfig env fs yaml svc_yaml = zero_config \<or>
   limits_ok (Logs (Control (loadControlConfig env fs yaml svc_yaml)))"
  by (auto simp: loadControlConfig_def Let_def apply_limits_ok split: sum.splits option.splits)

lemma zero_config_gates [simp]:
  "\<not> ctl_Enabled (Control zero_config)" "Sources (Logs (Control zero_config)) = []"
  by (simp_all add: zero_config_def zero_logs_def)

lemma verbs_disabled: "\<not> ctl_Enabled (Control c) \<Longrightarrow> verbs c = []"
  by (simp add: verbs_def gate_simps)

end
