(* ===== verification/Control_Wire.thy ===== *)
theory Control_Wire
  imports Control_Config
begin

text \<open>
  The wire format of the control channel (control/control.go): decoding a request frame, the
  frames the agent sends, the accessors for request arguments, the command line of a log
  source and the URL of the channel. The lexical layer of JSON is the parameter \<open>parse\<close>.
\<close>

section \<open>Inbound frames\<close>

record reqFrame =
  f_Type :: string
  f_ReqID :: string
  f_Verb :: string
  f_Target :: string
  f_Args :: "gargs option"

definition zero_req :: reqFrame where
  "zero_req = \<lparr>f_Type = [], f_ReqID = [], f_Verb = [], f_Target = [], f_Args = None\<rparr>"

definition req_fields :: "string list" where
  "req_fields = [''type'', ''reqId'', ''verb'', ''target'', ''args'']"

text \<open>Decoding a member into a \<open>string\<close> field: null leaves the field, another type is an
  error that is reported after the whole object has been read.\<close>

definition dec_string :: "json \<Rightarrow> (string \<Rightarrow> 'r \<Rightarrow> 'r) \<Rightarrow> 'r \<times> bool \<Rightarrow> 'r \<times> bool" where
  "dec_string j upd rb =
     (case j of JStr s \<Rightarrow> (upd s (fst rb), snd rb) | JNull \<Rightarrow> rb | _ \<Rightarrow> (fst rb, False))"

definition dec_args :: "json \<Rightarrow> reqFrame \<times> bool \<Rightarrow> reqFrame \<times> bool" where
  "dec_args j rb =
     (case j of
        JNull \<Rightarrow> ((fst rb)\<lparr>f_Args := None\<rparr>, snd rb)
      | JObj es \<Rightarrow>
          ((fst rb)\<lparr>f_Args :=
             Some (foldl (\<lambda>m e. AList.update (fst e) (json_any (snd e)) m)
                     (case f_Args (fst rb) of None \<Rightarrow> [] | Some m \<Rightarrow> m) es)\<rparr>, snd rb)
      | _ \<Rightarrow> (fst rb, False))"

definition dec_member :: "reqFrame \<times> bool \<Rightarrow> string \<times> json \<Rightarrow> reqFrame \<times> bool" where
  "dec_member rb m =
     (case json_field req_fields (fst m) of
        None \<Rightarrow> rb
      | Some n \<Rightarrow>
          if n = ''type'' then dec_string (snd m) (\<lambda>s r. r\<lparr>f_Type := s\<rparr>) rb
          else if n = ''reqId'' then dec_string (snd m) (\<lambda>s r. r\<lparr>f_ReqID := s\<rparr>) rb
          else if n = ''verb'' then dec_string (snd m) (\<lambda>s r. r\<lparr>f_Verb := s\<rparr>) rb
          else if n = ''target'' then dec_string (snd m) (\<lambda>s r. r\<lparr>f_Target := s\<rparr>) rb
          else dec_args (snd m) rb)"

text \<open>\<open>json.Unmarshal(data, &f)\<close> for a request frame: \<open>None\<close> is an error.\<close>

definition unmarshal_req :: "(string \<Rightarrow> json option) \<Rightarrow> string \<Rightarrow> reqFrame option" where
  "unmarshal_req parse data =
     (case parse data of
        None \<Rightarrow> None
      | Some JNull \<Rightarrow> Some zero_req
      | Some (JObj es) \<Rightarrow>
          (let rb = foldl dec_member (zero_req, True) es in
           if snd rb then Some (fst rb) else None)
      | Some _ \<Rightarrow> None)"

section \<open>Request arguments\<close>

definition argInt :: "goarch \<Rightarrow> gargs option \<Rightarrow> string \<Rightarrow> int \<Rightarrow> int" where
  "argInt arch args key dflt =
     (case args of
        None \<Rightarrow> dflt
      | Some m \<Rightarrow>
          (case map_of m key of
             Some (VFloat f) \<Rightarrow> f64_to_int arch f
           | _ \<Rightarrow> dflt))"

definition argBool :: "gargs option \<Rightarrow> string \<Rightarrow> bool \<Rightarrow> bool" where
  "argBool args key dflt =
     (case args of
        None \<Rightarrow> dflt
      | Some m \<Rightarrow> (case map_of m key of Some (VBool b) \<Rightarrow> b | _ \<Rightarrow> dflt))"

definition clampInt :: "int \<Rightarrow> int \<Rightarrow> int \<Rightarrow> int" where
  "clampInt v lo hi = (if v < lo then lo else if v > hi then hi else v)"

lemma clampInt_bounds: "lo \<le> hi \<Longrightarrow> lo \<le> clampInt v lo hi \<and> clampInt v lo hi \<le> hi"
  by (simp add: clampInt_def)

section \<open>Log sources\<close>

datatype log_error = BadSource | BadSourceType

definition log_error_text :: "log_error \<Rightarrow> string" where
  "log_error_text e = (case e of BadSource \<Rightarrow> ''bad_source'' | BadSourceType \<Rightarrow> ''bad_source_type'')"

definition logArgs :: "logSource \<Rightarrow> int \<Rightarrow> bool \<Rightarrow> log_error + string list" where
  "logArgs src lines follow =
     (let n = itoa lines in
      if src_Type src = ''docker'' then
        (if src_Container src = [] then Inl BadSource
         else let a = [''docker'', ''logs'', ''--tail'', n];
                  a = (if follow then a @ [''-f''] else a)
              in Inr (a @ [src_Container src]))
      else if src_Type src = ''file'' then
        (if src_Path src = [] then Inl BadSource
         else let a = [''tail'', ''-n'', n];
                  a = (if follow then a @ [''-F''] else a)
              in Inr (a @ [src_Path src]))
      else if src_Type src = ''journald'' then
        (if src_Unit src = [] then Inl BadSource
         else let a = [''journalctl'', ''--no-pager'', ''-n'', n, ''-u'', src_Unit src]
              in Inr (if follow then a @ [''-f''] else a))
      else Inl BadSourceType)"

section \<open>Outbound frames\<close>

record logsCaps =
  lcap_Sources :: "string list"
  lcap_MaxLines :: int
  lcap_MaxFollowSeconds :: int

record capabilities =
  cap_Verbs :: "string list"
  cap_Logs :: "logsCaps option"

record hello =
  h_Type :: string
  h_AgentVersion :: string
  h_ProtocolVersion :: int
  h_OS :: string
  h_Arch :: string
  h_Capabilities :: capabilities

definition protocolVersion :: int where "protocolVersion = 1"

definition arch_name :: "goarch \<Rightarrow> string" where
  "arch_name a = (case a of Amd64 \<Rightarrow> ''amd64'' | Arm64 \<Rightarrow> ''arm64'')"

definition helloFrame :: "goarch \<Rightarrow> ControlConfig \<Rightarrow> string \<Rightarrow> hello" where
  "helloFrame arch c agentVersion =
     \<lparr>h_Type = ''hello'', h_AgentVersion = agentVersion, h_ProtocolVersion = protocolVersion,
      h_OS = ''linux'', h_Arch = arch_name arch,
      h_Capabilities =
        \<lparr>cap_Verbs = verbs c,
         cap_Logs =
           (if logsEnabled c then
              Some \<lparr>lcap_Sources = sourceNames c, lcap_MaxLines = MaxLines (Logs (Control c)),
                    lcap_MaxFollowSeconds = MaxFollowSeconds (Logs (Control c))\<rparr>
            else None)\<rparr>\<rparr>"

text \<open>The frames the session writes after the hello: a data frame, the end of a stream, an
  error.\<close>

datatype out_frame =
    ResFrame string nat string
  | EofFrame string
  | ErrFrame string string int

definition frame_json :: "out_frame \<Rightarrow> (string \<times> gval) list" where
  "frame_json f =
     (case f of
        ResFrame reqID seq data \<Rightarrow>
          [(''type'', VStr ''res''), (''reqId'', VStr reqID), (''seq'', VInt (int seq)),
           (''data'', VStr data)]
      | EofFrame reqID \<Rightarrow>
          [(''type'', VStr ''res''), (''reqId'', VStr reqID), (''eof'', VBool True)]
      | ErrFrame reqID msg code \<Rightarrow>
          [(''type'', VStr ''res''), (''reqId'', VStr reqID), (''error'', VStr msg),
           (''code'', VInt code)])"

section \<open>The address of the channel\<close>

definition controlURL :: "string \<Rightarrow> string" where
  "controlURL base =
     (let u = (if has_prefix base ''https://'' then ''wss://'' @ trim_prefix base ''https://''
               else if has_prefix base ''http://'' then ''ws://'' @ trim_prefix base ''http://''
               else base)
      in trim_right u ''/'' @ ''/api/v1/server/control'')"

section \<open>Facts\<close>

lemma map_of_logArgs_length:
  "logArgs src lines follow = Inr argv \<Longrightarrow>
     hd argv \<in> {''docker'', ''tail'', ''journalctl''} \<and> argv \<noteq> []"
  by (auto simp: logArgs_def Let_def split: if_splits)

lemma logArgs_ok_iff:
  "is_ok (logArgs src lines follow) \<longleftrightarrow>
     (src_Type src = ''docker'' \<and> src_Container src \<noteq> [] \<or>
      src_Type src = ''file'' \<and> src_Path src \<noteq> [] \<or>
      src_Type src = ''journald'' \<and> src_Unit src \<noteq> [])"
  by (auto simp: logArgs_def Let_def)

lemma argInt_range:
  "min_int64 \<le> dflt \<Longrightarrow> dflt \<le> max_int64 \<Longrightarrow>
     min_int64 \<le> argInt arch args key dflt \<and> argInt arch args key dflt \<le> max_int64"
  by (auto simp: argInt_def f64_to_int_range split: option.splits gval.splits)

end
