(* ===== verification/Control_Jobs.thy ===== *)
theory Control_Jobs
  imports Control_Wire
begin

text \<open>
  The jobs behind the verbs (control/control.go): each job decides, from the allow-list and the
  request alone, to refuse or to run a fixed command line, with a cap on the lines and a
  deadline, or to sample the live metrics. The decision is the value of the job; what the
  session does with it is the next theory.
\<close>

section \<open>Plans\<close>

text \<open>\<open>Command argv maxLines deadline\<close> is the call of \<open>streamCommand\<close> (a \<open>maxLines\<close> of 0 is no
  cap) under a context with that timeout in seconds; \<open>Sample delay deadline\<close> is the sampling
  loop of \<open>metrics.live\<close>.\<close>

datatype plan =
    Refuse out_frame
  | Command "string list" nat "int option"
  | Sample int int

type_synonym job = "goarch \<Rightarrow> ControlConfig \<Rightarrow> reqFrame \<Rightarrow> plan"

definition not_permitted :: "reqFrame \<Rightarrow> plan" where
  "not_permitted f = Refuse (ErrFrame (f_ReqID f) ''not_permitted'' 403)"

definition maxLiveStreamSeconds :: int where "maxLiveStreamSeconds = 600"

section \<open>One definition per job\<close>

definition logsJob :: job where
  "logsJob arch c f =
     (if \<not> logsEnabled c then not_permitted f
      else (case source c (f_Target f) of
              None \<Rightarrow> Refuse (ErrFrame (f_ReqID f) ''unknown_target'' 404)
            | Some src \<Rightarrow>
                let logs = Logs (Control c);
                    lines = clampInt (argInt arch (f_Args f) ''lines'' (DefaultLines logs))
                              1 (MaxLines logs);
                    follow = argBool (f_Args f) ''follow'' False;
                    deadline = (if follow then Some (MaxFollowSeconds logs) else None)
                in (case logArgs src lines follow of
                      Inl e \<Rightarrow> Refuse (ErrFrame (f_ReqID f) (log_error_text e) 400)
                    | Inr argv \<Rightarrow> Command argv 0 deadline)))"

definition procTopJob :: job where
  "procTopJob arch c f =
     (if \<not> topEnabled c then not_permitted f
      else let n = clampInt (argInt arch (f_Args f) ''lines'' 20) 1 100
           in Command [''ps'', ''-eo'', ''pid,user,pcpu,pmem,rss,comm'', ''--sort=-pcpu'']
                (nat (n + 1)) None)"

definition diskDfJob :: job where
  "diskDfJob arch c f =
     (if \<not> dfEnabled c then not_permitted f else Command [''df'', ''-hPT''] 0 None)"

definition netListenJob :: job where
  "netListenJob arch c f =
     (if \<not> portsEnabled c then not_permitted f else Command [''ss'', ''-tulnp''] 500 None)"

definition procTopLiveJob :: job where
  "procTopLiveJob arch c f =
     (if \<not> topEnabled c then not_permitted f
      else let delay = clampInt (argInt arch (f_Args f) ''interval'' 2) 1 10
           in Command [''top'', ''-b'', ''-d'', itoa delay] 0 (Some maxLiveStreamSeconds))"

definition cron_script :: string where
  \<open>cron_script =
     ''echo '### systemd timers'; systemctl list-timers --all --no-pager 2>/dev/null; '' @
     ''echo; echo '### /etc/crontab'; cat /etc/crontab 2>/dev/null; '' @
     ''echo; echo '### /etc/cron.d'; for f in /etc/cron.d/*; do [ -f "$f" ] && echo "--- $f ---" && cat "$f"; done 2>/dev/null; '' @
     ''echo; echo '### root crontab'; crontab -l 2>/dev/null; '' @
     ''echo; echo '### periodic dirs'; ls -1 /etc/cron.hourly /etc/cron.daily /etc/cron.weekly /etc/cron.monthly 2>/dev/null''\<close>

definition cronListJob :: job where
  "cronListJob arch c f =
     (if \<not> cronEnabled c then not_permitted f
      else Command [''sh'', ''-c'', cron_script] 2000 None)"

definition svcStatusJob :: job where
  "svcStatusJob arch c f =
     (if \<not> svcEnabled c then not_permitted f
      else Command [''systemctl'', ''list-units'', ''--type=service'',
                    ''--state=running,failed'', ''--no-pager'', ''--no-legend'', ''--plain'']
             1000 None)"

definition svcListJob :: job where
  "svcListJob arch c f =
     (if \<not> svcEnabled c then not_permitted f
      else Command [''systemctl'', ''list-units'', ''--type=service'', ''--all'',
                    ''--no-pager'', ''--no-legend'', ''--plain''] 2000 None)"

text \<open>The script of \<open>pkg.list\<close> holds backslash escapes for the formatter; \<open>bs\<close> is a
  backslash.\<close>

definition pkg_script :: string where
  \<open>pkg_script =
     (let bs = [CHR 0x5C] in
      ''if command -v dpkg-query >/dev/null 2>&1; then '' @
      ''dpkg-query -W -f='${Package}'' @ bs @ ''t${Version}'' @ bs @ ''t${Architecture}'' @ bs @
      ''n' 2>/dev/null | sort; '' @
      ''elif command -v rpm >/dev/null 2>&1; then '' @
      ''rpm -qa --qf '%{NAME}'' @ bs @ ''t%{VERSION}-%{RELEASE}'' @ bs @ ''t%{ARCH}'' @ bs @
      ''n' 2>/dev/null | sort; '' @
      ''else echo 'no supported package manager (dpkg/rpm)'; fi'')\<close>

definition pkgListJob :: job where
  "pkgListJob arch c f =
     (if \<not> pkgEnabled c then not_permitted f
      else Command [''sh'', ''-c'', pkg_script] 5000 None)"

definition dockerPsJob :: job where
  "dockerPsJob arch c f =
     (if \<not> dockerEnabled c then not_permitted f
      else Command [''docker'', ''ps'', ''-a'', ''--format'',
                    ''table {{.Names}}'' @ [CHR 0x09] @ ''{{.Status}}'' @ [CHR 0x09] @
                    ''{{.Image}}'' @ [CHR 0x09] @ ''{{.Ports}}''] 500 None)"

definition metricsLiveJob :: job where
  "metricsLiveJob arch c f =
     (if \<not> metricsEnabled c then not_permitted f
      else let delay = clampInt (argInt arch (f_Args f) ''interval'' 2) 1 10
           in Sample delay maxLiveStreamSeconds)"

text \<open>The dispatch table of \<open>handleReq\<close>; \<open>ping\<close> is answered without a job.\<close>

definition verb_job :: "string \<Rightarrow> job option" where
  "verb_job v =
     (if v = ''logs.tail'' then Some logsJob
      else if v = ''proc.top'' then Some procTopJob
      else if v = ''proc.top.live'' then Some procTopLiveJob
      else if v = ''disk.df'' then Some diskDfJob
      else if v = ''net.listen'' then Some netListenJob
      else if v = ''cron.list'' then Some cronListJob
      else if v = ''svc.status'' then Some svcStatusJob
      else if v = ''svc.list'' then Some svcListJob
      else if v = ''pkg.list'' then Some pkgListJob
      else if v = ''docker.ps'' then Some dockerPsJob
      else if v = ''metrics.live'' then Some metricsLiveJob
      else None)"

section \<open>The allow-list as a set of command lines\<close>

text \<open>
  The command lines an allow-list permits, one rule per opt-in. Nothing in a rule comes from a
  request except a line count, a refresh interval, the choice of a configured source and
  whether to follow it.
\<close>

inductive permitted :: "ControlConfig \<Rightarrow> string list \<Rightarrow> bool" where
  logs: "logsEnabled c \<Longrightarrow> source c name = Some src \<Longrightarrow>
    logArgs src (clampInt v 1 (MaxLines (Logs (Control c)))) follow = Inr argv \<Longrightarrow>
    permitted c argv"
| ps: "topEnabled c \<Longrightarrow>
    permitted c [''ps'', ''-eo'', ''pid,user,pcpu,pmem,rss,comm'', ''--sort=-pcpu'']"
| top: "topEnabled c \<Longrightarrow> 1 \<le> d \<Longrightarrow> d \<le> 10 \<Longrightarrow> permitted c [''top'', ''-b'', ''-d'', itoa d]"
| df: "dfEnabled c \<Longrightarrow> permitted c [''df'', ''-hPT'']"
| ss: "portsEnabled c \<Longrightarrow> permitted c [''ss'', ''-tulnp'']"
| cron: "cronEnabled c \<Longrightarrow> permitted c [''sh'', ''-c'', cron_script]"
| units: "svcEnabled c \<Longrightarrow> st \<in> {''--state=running,failed'', ''--all''} \<Longrightarrow>
    permitted c [''systemctl'', ''list-units'', ''--type=service'', st, ''--no-pager'',
      ''--no-legend'', ''--plain'']"
| pkg: "pkgEnabled c \<Longrightarrow> permitted c [''sh'', ''-c'', pkg_script]"
| docker: "dockerEnabled c \<Longrightarrow> permitted c [''docker'', ''ps'', ''-a'', ''--format'',
      ''table {{.Names}}'' @ [CHR 0x09] @ ''{{.Status}}'' @ [CHR 0x09] @ ''{{.Image}}'' @
      [CHR 0x09] @ ''{{.Ports}}'']"

text \<open>A command line that ends by itself after at most \<open>hardMaxLines\<close> lines of its source, or
  after one pass over the mounted file systems.\<close>

definition one_shot :: "string list \<Rightarrow> bool" where
  "one_shot argv =
     (argv = [''df'', ''-hPT''] \<or>
      (\<exists>src n. 1 \<le> n \<and> n \<le> hardMaxLines \<and> logArgs src n False = Inr argv))"

fun bounded_plan :: "plan \<Rightarrow> bool" where
  "bounded_plan (Refuse _) = True"
| "bounded_plan (Command argv n deadline) =
     (0 < n \<and> n \<le> 5000 \<or> (\<exists>t. deadline = Some t \<and> 1 \<le> t \<and> t \<le> hardMaxFollowSeconds)
      \<or> one_shot argv)"
| "bounded_plan (Sample delay t) = (1 \<le> delay \<and> delay \<le> 10 \<and> t = maxLiveStreamSeconds)"

lemma not_permitted_plans [simp]:
  "Command argv n t \<noteq> not_permitted f" "Sample d s \<noteq> not_permitted f"
  "not_permitted f \<noteq> Command argv n t" "not_permitted f \<noteq> Sample d s"
  by (simp_all add: not_permitted_def)

lemma bounded_not_permitted [simp]: "bounded_plan (not_permitted f)"
  by (simp add: not_permitted_def)

section \<open>The contract of a gated verb\<close>

text \<open>What every job promises to the session: without its opt-in it refuses with 403, with it
  it does not refuse for that reason, it only plans permitted command lines, and under an
  allow-list whose limits are in range it only plans bounded streams.\<close>

locale gated_verb =
  fixes enabled :: "ControlConfig \<Rightarrow> bool"
    and job :: job
  assumes refused: "\<not> enabled c \<Longrightarrow> job arch c f = not_permitted f"
    and served: "enabled c \<Longrightarrow> job arch c f \<noteq> not_permitted f"
    and argv_permitted: "job arch c f = Command argv n t \<Longrightarrow> permitted c argv"
    and stream_bounded: "limits_ok (Logs (Control c)) \<Longrightarrow> bounded_plan (job arch c f)"
begin

lemma refused_iff: "job arch c f = not_permitted f \<longleftrightarrow> \<not> enabled c"
  using refused served by blast

lemma runs_only_enabled:
  "job arch c f = Command argv n t \<or> job arch c f = Sample d s \<Longrightarrow> enabled c"
  using refused [of c arch f] by (metis not_permitted_plans)

end

interpretation logs_verb: gated_verb logsEnabled logsJob
proof
  fix c arch f argv n t
  show "\<not> logsEnabled c \<Longrightarrow> logsJob arch c f = not_permitted f"
    by (simp add: logsJob_def)
  show "logsEnabled c \<Longrightarrow> logsJob arch c f \<noteq> not_permitted f"
    by (auto simp: logsJob_def not_permitted_def Let_def log_error_text_def
        split: option.splits sum.splits log_error.splits)
  show "logsJob arch c f = Command argv n t \<Longrightarrow> permitted c argv"
    by (auto simp: logsJob_def Let_def not_permitted_def
        split: option.splits sum.splits if_splits intro: permitted.logs)
  assume lim: "limits_ok (Logs (Control c))"
  then have "1 \<le> clampInt v 1 (MaxLines (Logs (Control c)))
    \<and> clampInt v 1 (MaxLines (Logs (Control c))) \<le> hardMaxLines" for v
    by (auto simp: clampInt_def limits_ok_def)
  with lim show "bounded_plan (logsJob arch c f)"
    by (auto simp: logsJob_def Let_def limits_ok_def one_shot_def
        split: option.splits sum.splits)
qed

lemma nat_clamp_bounds: "nat (clampInt v 1 100 + 1) \<le> 5000 \<and> 0 \<le> clampInt v 1 100"
  by (auto simp: clampInt_def)

interpretation top_verb: gated_verb topEnabled procTopJob
  by unfold_locales (auto simp: procTopJob_def Let_def nat_clamp_bounds
      split: if_splits intro: permitted.ps)

interpretation top_live_verb: gated_verb topEnabled procTopLiveJob
  using clampInt_bounds [of 1 10]
  by unfold_locales (auto simp: procTopLiveJob_def Let_def maxLiveStreamSeconds_def
      hardMaxFollowSeconds_def split: if_splits intro: permitted.top)

interpretation df_verb: gated_verb dfEnabled diskDfJob
  by unfold_locales (auto simp: diskDfJob_def one_shot_def split: if_splits intro: permitted.df)

interpretation ports_verb: gated_verb portsEnabled netListenJob
  by unfold_locales (auto simp: netListenJob_def split: if_splits intro: permitted.ss)

interpretation cron_verb: gated_verb cronEnabled cronListJob
  by unfold_locales (auto simp: cronListJob_def split: if_splits intro: permitted.cron)

interpretation svc_status_verb: gated_verb svcEnabled svcStatusJob
  by unfold_locales (auto simp: svcStatusJob_def split: if_splits intro: permitted.units)

interpretation svc_list_verb: gated_verb svcEnabled svcListJob
  by unfold_locales (auto simp: svcListJob_def split: if_splits intro: permitted.units)

interpretation pkg_verb: gated_verb pkgEnabled pkgListJob
  by unfold_locales (auto simp: pkgListJob_def split: if_splits intro: permitted.pkg)

interpretation docker_verb: gated_verb dockerEnabled dockerPsJob
  by unfold_locales (auto simp: dockerPsJob_def simp del: append.simps split: if_splits intro: permitted.docker)

interpretation metrics_verb: gated_verb metricsEnabled metricsLiveJob
  using clampInt_bounds [of 1 10]
  by unfold_locales (auto simp: metricsLiveJob_def Let_def split: if_splits)

section \<open>Properties\<close>

text \<open>The jobs that exist, for case analysis on the dispatch table.\<close>

lemma verb_job_cases:
  "verb_job v = Some job \<Longrightarrow>
     (v, job) \<in> {(''logs.tail'', logsJob), (''proc.top'', procTopJob),
       (''proc.top.live'', procTopLiveJob), (''disk.df'', diskDfJob),
       (''net.listen'', netListenJob), (''cron.list'', cronListJob),
       (''svc.status'', svcStatusJob), (''svc.list'', svcListJob), (''pkg.list'', pkgListJob),
       (''docker.ps'', dockerPsJob), (''metrics.live'', metricsLiveJob)}"
  by (simp add: verb_job_def split: if_splits)

text \<open>Each job of the table is a gated verb, for some gate.\<close>

lemma verb_job_gated: "verb_job v = Some job \<Longrightarrow> \<exists>enabled. gated_verb enabled job"
  by (drule verb_job_cases)
    (auto intro: logs_verb.gated_verb_axioms top_verb.gated_verb_axioms
      top_live_verb.gated_verb_axioms df_verb.gated_verb_axioms ports_verb.gated_verb_axioms
      cron_verb.gated_verb_axioms svc_status_verb.gated_verb_axioms
      svc_list_verb.gated_verb_axioms pkg_verb.gated_verb_axioms docker_verb.gated_verb_axioms
      metrics_verb.gated_verb_axioms)

lemma verb_job_permitted:
  "verb_job v = Some job \<Longrightarrow> job arch c f = Command argv n t \<Longrightarrow> permitted c argv"
  using verb_job_gated [of v job] gated_verb.argv_permitted by metis

lemma verb_job_bounded:
  "verb_job v = Some job \<Longrightarrow> limits_ok (Logs (Control c)) \<Longrightarrow> bounded_plan (job arch c f)"
  using verb_job_gated [of v job] gated_verb.stream_bounded by metis

lemma verb_job_disabled:
  assumes "verb_job v = Some job" and off: "\<not> ctl_Enabled (Control c)"
  shows "job arch c f = not_permitted f"
  using verb_job_cases [OF assms(1)] off
  by (auto simp: gate_simps logsJob_def procTopJob_def procTopLiveJob_def diskDfJob_def
      netListenJob_def cronListJob_def svcStatusJob_def svcListJob_def pkgListJob_def
      dockerPsJob_def metricsLiveJob_def)

lemma permitted_enabled: "permitted c argv \<Longrightarrow> ctl_Enabled (Control c)"
  by (induction rule: permitted.induct) (auto simp: gate_simps)

lemma set_if_Nil: "v \<in> set (if b then xs else []) \<longleftrightarrow> b \<and> v \<in> set xs"
  by simp

lemma in_verbs_iff:
  "v \<in> set (verbs c) \<longleftrightarrow>
     logsEnabled c \<and> v = ''logs.tail'' \<or>
     topEnabled c \<and> (v = ''proc.top'' \<or> v = ''proc.top.live'') \<or>
     dfEnabled c \<and> v = ''disk.df'' \<or> portsEnabled c \<and> v = ''net.listen'' \<or>
     cronEnabled c \<and> v = ''cron.list'' \<or>
     svcEnabled c \<and> (v = ''svc.status'' \<or> v = ''svc.list'') \<or>
     pkgEnabled c \<and> v = ''pkg.list'' \<or> dockerEnabled c \<and> v = ''docker.ps'' \<or>
     metricsEnabled c \<and> v = ''metrics.live''"
  by (simp only: verbs_def set_append Un_iff set_if_Nil list.set insert_iff empty_iff
      simp_thms disj_assoc)

lemma verbs_served:
  "v \<in> set (verbs c) \<longleftrightarrow> (\<exists>job. verb_job v = Some job \<and> job arch c f \<noteq> not_permitted f)"
proof (cases "verb_job v")
  case None
  then show ?thesis by (simp add: verb_job_def in_verbs_iff split: if_splits)
next
  case (Some job)
  note refused = logs_verb.refused_iff top_verb.refused_iff top_live_verb.refused_iff
    df_verb.refused_iff ports_verb.refused_iff cron_verb.refused_iff svc_status_verb.refused_iff
    svc_list_verb.refused_iff pkg_verb.refused_iff docker_verb.refused_iff
    metrics_verb.refused_iff
  from verb_job_cases [OF Some] show ?thesis
    unfolding insert_iff empty_iff prod.inject
    using Some by (elim disjE conjE FalseE) (simp_all add: in_verbs_iff refused)
qed

text \<open>C10: what the hello frame advertises is exactly what the agent serves: a verb is advertised if and
  only if it is in the dispatch table and its job does not answer \<open>not_permitted\<close>, whatever the request,
  and a log source if and only if \<open>logs.tail\<close> knows it as a target.\<close>

theorem advertised_iff_served:
  "(v \<in> set (cap_Verbs (h_Capabilities (helloFrame arch c agentVersion))) \<longleftrightarrow>
      (\<exists>job. verb_job v = Some job \<and> job arch c f \<noteq> not_permitted f)) \<and>
   ((\<exists>l. cap_Logs (h_Capabilities (helloFrame arch c agentVersion)) = Some l \<and> f_Target f \<in> set (lcap_Sources l)) \<longleftrightarrow>
      logsJob arch c f \<notin> {not_permitted f, Refuse (ErrFrame (f_ReqID f) ''unknown_target'' 404)})"
proof (intro conjI)
  show "v \<in> set (cap_Verbs (h_Capabilities (helloFrame arch c agentVersion))) \<longleftrightarrow>
      (\<exists>job. verb_job v = Some job \<and> job arch c f \<noteq> not_permitted f)"
    using verbs_served by (simp add: helloFrame_def)
  have "f_Target f \<in> set (sourceNames c) \<longleftrightarrow> source c (f_Target f) \<noteq> None"
    by (simp add: sourceNames_def source_def map_of_eq_None_iff)
  then show "(\<exists>l. cap_Logs (h_Capabilities (helloFrame arch c agentVersion)) = Some l \<and>
        f_Target f \<in> set (lcap_Sources l)) \<longleftrightarrow>
      logsJob arch c f \<notin> {not_permitted f, Refuse (ErrFrame (f_ReqID f) ''unknown_target'' 404)}"
    by (auto simp: helloFrame_def logsJob_def not_permitted_def Let_def split: option.split sum.split)
qed

text \<open>C9: under an allow-list read by \<open>loadControlConfig\<close>, whatever the file holds, no verb
  opens an unbounded stream: each plan is a refusal, or a command capped at no more than 5000
  lines, or one with a deadline of at most an hour, or one that ends by itself after at most
  5000 lines (or one pass over the file systems), or the ten-minute sampling loop.\<close>

theorem plans_bounded:
  "case verb_job v of
     None \<Rightarrow> True
   | Some job \<Rightarrow> bounded_plan (job arch (loadControlConfig env fs yaml svc_yaml) f)"
proof (cases "verb_job v")
  case (Some job)
  then show ?thesis
    using load_cases [of env fs yaml svc_yaml] verb_job_bounded [OF Some]
      verb_job_disabled [OF Some, of zero_config arch f]
    by auto
qed simp

text \<open>C11: the channel fails closed: when the allow-list cannot be read or parsed, no verb is
  advertised, every verb of the table answers 403 and no command line is permitted.\<close>

theorem load_fail_closed:
  assumes "\<And>data. fs_file fs (if env envControlConfigPath = [] then defaultControlConfigPath
      else env envControlConfigPath) = Inr data \<Longrightarrow> yaml data = None"
  shows "verbs (loadControlConfig env fs yaml svc_yaml) = [] \<and>
    (\<forall>argv. \<not> permitted (loadControlConfig env fs yaml svc_yaml) argv) \<and>
    (verb_job v = Some job \<longrightarrow>
      job arch (loadControlConfig env fs yaml svc_yaml) f =
        Refuse (ErrFrame (f_ReqID f) ''not_permitted'' 403))"
proof -
  have "loadControlConfig env fs yaml svc_yaml = zero_config"
    using assms by (auto simp: loadControlConfig_def Let_def split: sum.split)
  then show ?thesis
    using verb_job_disabled [of v job zero_config arch f] permitted_enabled [of zero_config]
    by (auto simp: verbs_disabled not_permitted_def)
qed

theorem load_fail_closed_witness:
  "verbs (loadControlConfig (\<lambda>_. []) (demo_fs []) (\<lambda>_. None) (\<lambda>_. None)) = []"
  using load_fail_closed [of "demo_fs []" "\<lambda>_. []" "\<lambda>_. None" "\<lambda>_. None" "''disk.df''" diskDfJob]
  by blast

end
