(* ===== verification/Control_Redact.thy ===== *)
theory Control_Redact
  imports Control_Wire
begin

text \<open>
  The masking of secrets in log lines (\<open>secretLine\<close> and \<open>redact\<close> of control/control.go). The
  regular expression is deterministic: no keyword is a prefix of another, and no character can
  be taken by two neighbouring items of the separator and the value, so its leftmost-first match
  at a position is the match the functions below compute. Strings are their UTF-8 bytes.
\<close>

section \<open>Character classes\<close>

text \<open>\<open>\s\<close>, the quotes, the separators and \<open>[^\s"',]\<close>.\<close>

definition re_space :: "char \<Rightarrow> bool" where
  "re_space c = (c \<in> {CHR 0x09, CHR 0x0A, CHR 0x0C, CHR 0x0D, CHR '' ''})"

definition re_quote :: "char \<Rightarrow> bool" where
  "re_quote c = (c \<in> {CHR 0x22, CHR 0x27})"

definition re_colon :: "char \<Rightarrow> bool" where
  "re_colon c = (c \<in> {CHR '':'', CHR ''=''})"

definition re_value :: "char \<Rightarrow> bool" where
  "re_value c = (\<not> re_space c \<and> \<not> re_quote c \<and> c \<noteq> CHR '','')"

lemmas re_class_defs = re_space_def re_quote_def re_colon_def re_value_def

section \<open>The expression\<close>

text \<open>A letter under \<open>(?i)\<close>: either case, and for s and k also the long s (U+017F) and the
  Kelvin sign (U+212A), which fold to them.\<close>

definition eat_letter :: "char \<Rightarrow> string \<Rightarrow> string option" where
  "eat_letter x s =
     (case s of
        [] \<Rightarrow> None
      | c # cs \<Rightarrow>
          if c = x \<or> c = ascii_upper x then Some cs
          else if x = CHR ''s'' \<and> has_prefix s [CHR 0xC5, CHR 0xBF] then Some (drop 2 s)
          else if x = CHR ''k'' \<and> has_prefix s [CHR 0xE2, CHR 0x84, CHR 0xAA] then Some (drop 3 s)
          else None)"

fun eat_word :: "string \<Rightarrow> string \<Rightarrow> string option" where
  "eat_word [] s = Some s"
| "eat_word (x # xs) s = (case eat_letter x s of None \<Rightarrow> None | Some r \<Rightarrow> eat_word xs r)"

text \<open>The first group, with \<open>api[_-]?key\<close> spelled out.\<close>

definition secret_words :: "string list" where
  "secret_words =
     [''password'', ''passwd'', ''pwd'', ''secret'', ''token'', ''api_key'', ''api-key'',
      ''apikey'', ''authorization'', ''bearer'']"

fun eat_first :: "string list \<Rightarrow> string \<Rightarrow> string option" where
  "eat_first [] s = None"
| "eat_first (w # ws) s = (case eat_word w s of None \<Rightarrow> eat_first ws s | Some r \<Rightarrow> Some r)"

definition eat_keyword :: "string \<Rightarrow> string option" where
  "eat_keyword s = eat_first secret_words s"

text \<open>The second group.\<close>

definition opt_quote :: "string \<Rightarrow> string" where
  "opt_quote s = (case s of [] \<Rightarrow> [] | c # cs \<Rightarrow> if re_quote c then cs else s)"

definition eat_separator :: "string \<Rightarrow> string option" where
  "eat_separator s =
     (case dropWhile re_space (opt_quote s) of
        [] \<Rightarrow> None
      | c # cs \<Rightarrow>
          if re_colon c then Some (opt_quote (dropWhile re_space cs)) else None)"

text \<open>The match at the head of \<open>s\<close>: what precedes the value, the value, what follows it.\<close>

definition match_secret :: "string \<Rightarrow> (string \<times> string \<times> string) option" where
  "match_secret s =
     (case eat_keyword s of
        None \<Rightarrow> None
      | Some r \<Rightarrow>
          (case eat_separator r of
             None \<Rightarrow> None
           | Some u \<Rightarrow>
               (let v = takeWhile re_value u in
                if v = [] then None
                else Some (take (length s - length u) s, v, dropWhile re_value u))))"

section \<open>What each part consumes\<close>

text \<open>Characters that no keyword contains.\<close>

definition outside_word :: "char \<Rightarrow> bool" where
  "outside_word c = (re_space c \<or> re_quote c \<or> re_colon c \<or> c = CHR ''*'')"

lemma eat_letter_consumes:
  assumes "eat_letter x s = Some t" and "\<not> outside_word x" and "\<not> outside_word (ascii_upper x)"
  shows "\<exists>q. s = q @ t \<and> q \<noteq> [] \<and> (\<forall>c\<in>set q. \<not> outside_word c)"
proof -
  obtain c cs where s: "s = c # cs" using assms(1) by (cases s) (auto simp: eat_letter_def)
  consider "c = x \<or> c = ascii_upper x" "t = cs"
    | r where "s = [CHR 0xC5, CHR 0xBF] @ r" "t = r"
    | r where "s = [CHR 0xE2, CHR 0x84, CHR 0xAA] @ r" "t = r"
    using assms(1) s
    by (auto simp: eat_letter_def has_prefix_iff prefix_def split: if_splits)
  then show ?thesis
  proof cases
    case 1
    then show ?thesis using assms s by (intro exI [of _ "[c]"]) auto
  next
    case (2 r)
    then show ?thesis
      by (intro exI [of _ "[CHR 0xC5, CHR 0xBF]"]) (auto simp: outside_word_def re_class_defs)
  next
    case (3 r)
    then show ?thesis
      by (intro exI [of _ "[CHR 0xE2, CHR 0x84, CHR 0xAA]"])
        (auto simp: outside_word_def re_class_defs)
  qed
qed

definition word_ok :: "string \<Rightarrow> bool" where
  "word_ok w = (\<forall>x\<in>set w. \<not> outside_word x \<and> \<not> outside_word (ascii_upper x))"

lemma secret_words_check: "\<forall>w\<in>set secret_words. word_ok w \<and> w \<noteq> []"
  by code_simp

lemma secret_words_ok: "w \<in> set secret_words \<Longrightarrow> word_ok w \<and> w \<noteq> []"
  using secret_words_check by blast

lemma eat_word_consumes:
  "eat_word w s = Some t \<Longrightarrow> word_ok w \<Longrightarrow>
     \<exists>q. s = q @ t \<and> (w \<noteq> [] \<longrightarrow> q \<noteq> []) \<and> (\<forall>c\<in>set q. \<not> outside_word c)"
proof (induction w arbitrary: s)
  case (Cons x xs)
  then obtain r where r: "eat_letter x s = Some r" "eat_word xs r = Some t"
    by (auto split: option.splits)
  from Cons.prems have ok: "word_ok xs" "\<not> outside_word x" "\<not> outside_word (ascii_upper x)"
    by (auto simp: word_ok_def)
  obtain q where q: "s = q @ r" "q \<noteq> []" "\<forall>c\<in>set q. \<not> outside_word c"
    using eat_letter_consumes [OF r(1) ok(2,3)] by blast
  obtain p where p: "r = p @ t" "\<forall>c\<in>set p. \<not> outside_word c"
    using Cons.IH [OF r(2) ok(1)] by blast
  show ?case using p q by (intro exI [of _ "q @ p"]) auto
qed simp

lemma eat_first_SomeE:
  assumes "eat_first ws s = Some t"
  obtains w where "w \<in> set ws" "eat_word w s = Some t"
  using assms by (induction ws) (auto split: option.splits)

lemma eat_keyword_consumes:
  assumes "eat_keyword s = Some t"
  shows "\<exists>q. s = q @ t \<and> q \<noteq> [] \<and> (\<forall>c\<in>set q. \<not> outside_word c)"
proof -
  obtain w where w: "w \<in> set secret_words" "eat_word w s = Some t"
    using assms unfolding eat_keyword_def by (rule eat_first_SomeE)
  show ?thesis
    using eat_word_consumes [OF w(2)] secret_words_ok [OF w(1)] by blast
qed

lemma class_disjoint:
  "re_space c \<Longrightarrow> \<not> re_quote c" "re_space c \<Longrightarrow> \<not> re_colon c" "re_colon c \<Longrightarrow> \<not> re_quote c"
  "re_value c \<Longrightarrow> \<not> re_space c" "re_value c \<Longrightarrow> \<not> re_quote c"
  by (auto simp: re_class_defs)

definition quoteish :: "string \<Rightarrow> bool" where
  "quoteish q = (q = [] \<or> (\<exists>c. re_quote c \<and> q = [c]))"

lemma opt_quote_split: "\<exists>q. quoteish q \<and> s = q @ opt_quote s"
  by (cases s) (auto simp: opt_quote_def quoteish_def)

lemma opt_quote_append: "quoteish q \<Longrightarrow> t \<noteq> [] \<Longrightarrow> \<not> re_quote (hd t) \<Longrightarrow> opt_quote (q @ t) = t"
  by (cases t) (auto simp: opt_quote_def quoteish_def)

definition sep_form :: "string \<Rightarrow> bool" where
  "sep_form p = (\<exists>q1 s1 c s2 q2. p = q1 @ s1 @ c # s2 @ q2 \<and> quoteish q1 \<and> quoteish q2 \<and>
     list_all re_space s1 \<and> list_all re_space s2 \<and> re_colon c)"

lemma sep_formI:
  "quoteish q1 \<Longrightarrow> quoteish q2 \<Longrightarrow> list_all re_space s1 \<Longrightarrow> list_all re_space s2 \<Longrightarrow> re_colon c \<Longrightarrow>
     sep_form (q1 @ s1 @ c # s2 @ q2)"
  unfolding sep_form_def by blast

lemma eat_separator_form:
  assumes "eat_separator r = Some u"
  shows "\<exists>p. r = p @ u \<and> sep_form p"
proof -
  obtain q1 where q1: "quoteish q1" "r = q1 @ opt_quote r"
    using opt_quote_split [of r] by blast
  obtain c cs where c: "dropWhile re_space (opt_quote r) = c # cs" "re_colon c"
      "u = opt_quote (dropWhile re_space cs)"
    using assms by (auto simp: eat_separator_def split: list.splits if_splits)
  obtain q2 where q2: "quoteish q2" "dropWhile re_space cs = q2 @ u"
    using opt_quote_split [of "dropWhile re_space cs"] c(3) by auto
  let ?s1 = "takeWhile re_space (opt_quote r)" and ?s2 = "takeWhile re_space cs"
  have "r = q1 @ ?s1 @ c # ?s2 @ q2 @ u"
    using q1(2) c(1) q2(2) by (metis takeWhile_dropWhile_id)
  moreover have "list_all re_space ?s1" "list_all re_space ?s2"
    by (auto simp: list_all_iff dest: set_takeWhileD)
  ultimately show ?thesis
    using sep_formI [OF q1(1) q2(1) _ _ c(2), of ?s1 ?s2]
    by (intro exI [of _ "q1 @ ?s1 @ c # ?s2 @ q2"]) simp
qed

lemma dropWhile_space_append:
  "list_all re_space s \<Longrightarrow> t \<noteq> [] \<Longrightarrow> \<not> re_space (hd t) \<Longrightarrow> dropWhile re_space (s @ t) = t"
  by (induction s) (cases t, auto)

lemma sep_form_eats:
  assumes "sep_form p" and u: "u \<noteq> []" "re_value (hd u)"
  shows "eat_separator (p @ u) = Some u"
proof -
  obtain q1 s1 c s2 q2 where p: "p = q1 @ s1 @ c # s2 @ q2" "quoteish q1" "quoteish q2"
      "list_all re_space s1" "list_all re_space s2" "re_colon c"
    using assms(1) by (auto simp: sep_form_def)
  have c: "\<not> re_space c" "\<not> re_quote c" using p(6) class_disjoint by blast+
  have "\<not> re_quote (hd (s1 @ c # s2 @ q2 @ u))"
    using p(4) c class_disjoint by (cases s1) auto
  then have "opt_quote (p @ u) = s1 @ c # s2 @ q2 @ u"
    using opt_quote_append [OF p(2), of "s1 @ c # s2 @ q2 @ u"] p(1) by simp
  moreover have "dropWhile re_space (s1 @ c # s2 @ q2 @ u) = c # s2 @ q2 @ u"
    using p(4) c(1) by (intro dropWhile_space_append) auto
  moreover have "\<not> re_space (hd (q2 @ u))"
    using p(3) u class_disjoint by (auto simp: quoteish_def)
  then have "dropWhile re_space (s2 @ q2 @ u) = q2 @ u"
    using p(5) u(1) by (intro dropWhile_space_append) auto
  moreover have "opt_quote (q2 @ u) = u"
    using p(3) u class_disjoint by (intro opt_quote_append) auto
  ultimately show ?thesis using p(6) by (simp add: eat_separator_def)
qed

lemma sep_form_chars: "sep_form p \<Longrightarrow> p \<noteq> [] \<and> (\<forall>c\<in>set p. outside_word c)"
  by (auto simp: sep_form_def quoteish_def outside_word_def list_all_iff)

lemma takeWhile_head: "takeWhile P u \<noteq> [] \<longleftrightarrow> u \<noteq> [] \<and> P (hd u)"
  by (cases u) auto

text \<open>The shape of a match: a keyword, a separator, a value as long as possible.\<close>

lemma match_secret_shape:
  assumes "match_secret s = Some (p, v, rest)"
  shows "\<exists>q sep. p = q @ sep \<and> s = p @ v @ rest \<and> eat_keyword s = Some (sep @ v @ rest) \<and>
    q \<noteq> [] \<and> (\<forall>c\<in>set q. \<not> outside_word c) \<and> sep_form sep \<and> v \<noteq> [] \<and>
    v = takeWhile re_value (v @ rest) \<and> rest = dropWhile re_value (v @ rest)"
proof -
  obtain r u where r: "eat_keyword s = Some r" "eat_separator r = Some u"
      "p = take (length s - length u) s" "v = takeWhile re_value u" "rest = dropWhile re_value u"
      "v \<noteq> []"
    using assms by (auto simp: match_secret_def Let_def split: option.splits if_splits)
  obtain q where q: "s = q @ r" "q \<noteq> []" "\<forall>c\<in>set q. \<not> outside_word c"
    using eat_keyword_consumes [OF r(1)] by blast
  obtain sep where sep: "r = sep @ u" "sep_form sep"
    using eat_separator_form [OF r(2)] by blast
  have u: "u = v @ rest" using r(4,5) by simp
  have p: "p = q @ sep" using r(3) q(1) sep(1) by simp
  have s: "s = p @ v @ rest" using q(1) sep(1) u p by simp
  have k: "eat_keyword s = Some (sep @ v @ rest)" using r(1) sep(1) u by simp
  have "v = takeWhile re_value (v @ rest)" "rest = dropWhile re_value (v @ rest)"
    by (simp_all only: u [symmetric] r(4,5) [symmetric])
  with p s k q(2,3) sep(2) r(6) show ?thesis
    by blast
qed

lemma match_secret_NoneI: "s = [] \<or> outside_word (hd s) \<Longrightarrow> match_secret s = None"
  using match_secret_shape [of s]
  by (cases "match_secret s") (fastforce simp: hd_append)+

section \<open>Replacement\<close>

lemma match_secret_length:
  "match_secret s = Some (p, v, rest) \<Longrightarrow> length rest < length s"
  by (drule match_secret_shape) auto

text \<open>\<open>secretLine.ReplaceAllString(line, "${1}${2}***")\<close>: scan to the next match, replace its
  value, go on after it.\<close>

function redact :: "string \<Rightarrow> string" where
  "redact [] = []"
| "redact (c # cs) =
     (case match_secret (c # cs) of
        None \<Rightarrow> c # redact cs
      | Some (p, v, rest) \<Rightarrow> p @ ''***'' @ redact rest)"
  by pat_completeness auto
termination
  by (relation "measure length") (auto dest: match_secret_length)

lemma match_secret_decompose: "match_secret s = Some (p, v, rest) \<Longrightarrow> s = p @ v @ rest"
  by (drule match_secret_shape) blast

section \<open>No keyword is a prefix of another\<close>

definition word_chars :: string where
  "word_chars = remdups (concat secret_words)"

lemma word_uppers: "map ascii_upper word_chars = ''WDSC_-PKYUHZTIONBAER''"
  by code_simp

lemma word_chars_eq: "word_chars = ''wdsc_-pkyuhztionbaer''"
  by code_simp

definition word_folds :: "(char \<times> char) list" where
  "word_folds = zip ''wdsc_-pkyuhztionbaer'' ''WDSC_-PKYUHZTIONBAER''"

lemma word_folds: "x \<in> set word_chars \<Longrightarrow> (x, ascii_upper x) \<in> set word_folds"
  proof -
  assume "x \<in> set word_chars"
  then have "(x, ascii_upper x) \<in> set (zip word_chars (map ascii_upper word_chars))"
    by (simp add: zip_map2 zip_same_conv_map image_iff)
  then show ?thesis by (simp only: word_uppers) (simp only: word_chars_eq word_folds_def)
qed

lemma word_folds_check:
  "\<forall>p\<in>set word_folds. \<forall>q\<in>set word_folds.
     (fst p = snd q \<or> snd p = snd q \<longrightarrow> fst p = fst q) \<and> fst p \<noteq> CHR 0xC5 \<and> fst p \<noteq> CHR 0xE2 \<and>
     snd p \<noteq> CHR 0xC5 \<and> snd p \<noteq> CHR 0xE2"
  by code_simp

lemma word_chars_fold:
  assumes "x \<in> set word_chars" "y \<in> set word_chars"
  shows "x = ascii_upper y \<longrightarrow> x = y" "ascii_upper x = ascii_upper y \<longrightarrow> x = y"
    "x \<noteq> CHR 0xC5" "x \<noteq> CHR 0xE2" "ascii_upper x \<noteq> CHR 0xC5" "ascii_upper x \<noteq> CHR 0xE2"
  using bspec [OF bspec [OF word_folds_check word_folds [OF assms(1)]] word_folds [OF assms(2)]]
  by simp_all

lemma secret_words_prefix_free:
  "\<forall>w\<in>set secret_words. \<forall>w'\<in>set secret_words. prefix w w' \<longrightarrow> w = w'"
  by code_simp

lemma eat_letter_cases:
  "eat_letter x s = Some r \<Longrightarrow> \<exists>c cs. s = c # cs \<and>
     (c = x \<or> c = ascii_upper x \<or> x = CHR ''s'' \<and> c = CHR 0xC5 \<or> x = CHR ''k'' \<and> c = CHR 0xE2)"
  by (auto simp: eat_letter_def has_prefix_iff split: list.splits if_splits)

lemma eat_letter_unique:
  assumes "x \<in> set word_chars" "y \<in> set word_chars"
    and "eat_letter x s = Some r" "eat_letter y s = Some r'"
  shows "x = y \<and> r = r'"
proof -
  obtain c cs where c: "s = c # cs"
      "c = x \<or> c = ascii_upper x \<or> x = CHR ''s'' \<and> c = CHR 0xC5 \<or> x = CHR ''k'' \<and> c = CHR 0xE2"
    using eat_letter_cases [OF assms(3)] by blast
  have d: "c = y \<or> c = ascii_upper y \<or> y = CHR ''s'' \<and> c = CHR 0xC5 \<or> y = CHR ''k'' \<and> c = CHR 0xE2"
    using eat_letter_cases [OF assms(4)] c(1) by blast
  note f = word_chars_fold [OF assms(1,2)] word_chars_fold [OF assms(2,1)]
  have "x = y"
  proof (rule ccontr)
    assume "x \<noteq> y"
    with f have "x \<noteq> ascii_upper y" "y \<noteq> ascii_upper x" "ascii_upper x \<noteq> ascii_upper y"
        "x \<noteq> CHR 0xC5" "x \<noteq> CHR 0xE2" "ascii_upper x \<noteq> CHR 0xC5" "ascii_upper x \<noteq> CHR 0xE2"
        "y \<noteq> CHR 0xC5" "y \<noteq> CHR 0xE2" "ascii_upper y \<noteq> CHR 0xC5" "ascii_upper y \<noteq> CHR 0xE2"
      by metis+
    with c(2) d \<open>x \<noteq> y\<close> show False by (elim disjE conjE) simp_all
  qed
  then show ?thesis using assms(3,4) by simp
qed

lemma eat_word_comparable:
  "set w \<subseteq> set word_chars \<Longrightarrow> set w' \<subseteq> set word_chars \<Longrightarrow>
     eat_word w s = Some r \<Longrightarrow> eat_word w' s = Some r' \<Longrightarrow> prefix w w' \<or> prefix w' w"
proof (induction w arbitrary: w' s)
  case (Cons x xs)
  show ?case
  proof (cases w')
    case (Cons y ys)
    obtain t t' where t: "eat_letter x s = Some t" "eat_word xs t = Some r"
        "eat_letter y s = Some t'" "eat_word ys t' = Some r'"
      using Cons.prems(3,4) Cons by (auto split: option.splits)
    have "x \<in> set word_chars" "y \<in> set word_chars" using Cons.prems(1,2) Cons by auto
    then have "x = y \<and> t = t'" by (rule eat_letter_unique [OF _ _ t(1,3)])
    moreover have "set xs \<subseteq> set word_chars" "set ys \<subseteq> set word_chars"
      using Cons.prems(1,2) Cons by auto
    ultimately show ?thesis using Cons.IH t(2,4) Cons by auto
  qed simp
qed simp

lemma eat_word_unique:
  assumes "w \<in> set secret_words" "w' \<in> set secret_words"
    and "eat_word w s = Some r" "eat_word w' s = Some r'"
  shows "w = w'"
proof -
  have "set w \<subseteq> set word_chars" "set w' \<subseteq> set word_chars"
    using assms(1,2) by (auto simp: word_chars_def)
  then show ?thesis
    using eat_word_comparable [OF _ _ assms(3,4)] secret_words_prefix_free assms(1,2) by blast
qed

lemma eat_first_complete:
  "w \<in> set ws \<Longrightarrow> eat_word w s = Some r \<Longrightarrow> eat_first ws s \<noteq> None"
  by (induction ws) (auto split: option.splits)

lemma eat_keyword_iff:
  "eat_keyword s = Some r \<longleftrightarrow> (\<exists>w\<in>set secret_words. eat_word w s = Some r)"
proof
  show "eat_keyword s = Some r \<Longrightarrow> \<exists>w\<in>set secret_words. eat_word w s = Some r"
    unfolding eat_keyword_def by (erule eat_first_SomeE) blast
next
  assume "\<exists>w\<in>set secret_words. eat_word w s = Some r"
  then obtain w where w: "w \<in> set secret_words" "eat_word w s = Some r" by blast
  then obtain r' where r': "eat_first secret_words s = Some r'"
    using eat_first_complete by blast
  then obtain w' where "w' \<in> set secret_words" "eat_word w' s = Some r'"
    by (rule eat_first_SomeE)
  with w r' show "eat_keyword s = Some r"
    using eat_word_unique unfolding eat_keyword_def by fastforce
qed

section \<open>Masking creates no match\<close>

text \<open>\<open>masked s t\<close>: \<open>t\<close> is \<open>s\<close> with some runs of value characters replaced.\<close>

inductive masked :: "string \<Rightarrow> string \<Rightarrow> bool" where
  masked_nil: "masked [] []"
| masked_keep: "masked s t \<Longrightarrow> masked (c # s) (c # t)"
| masked_mask: "v \<noteq> [] \<Longrightarrow> list_all re_value v \<Longrightarrow> masked s t \<Longrightarrow> masked (v @ s) (''***'' @ t)"

inductive_cases masked_ConsE: "masked s (c # t)"

lemma masked_append: "masked s t \<Longrightarrow> masked (p @ s) (p @ t)"
  by (induction p) (auto intro: masked.intros)

lemma masked_keep_iff: "masked s (c # t) \<Longrightarrow> c \<noteq> CHR ''*'' \<Longrightarrow> \<exists>s'. s = c # s' \<and> masked s' t"
  by (erule masked_ConsE) auto

lemma star_class: "\<not> re_space CHR ''*''" "\<not> re_quote CHR ''*''" "\<not> re_colon CHR ''*''"
    "re_value CHR ''*''" "outside_word CHR ''*''"
  by (auto simp: re_class_defs outside_word_def)

lemma masked_eat_letter:
  assumes m: "masked s t" and e: "eat_letter x t = Some t'"
    and x: "x \<noteq> CHR ''*''" "ascii_upper x \<noteq> CHR ''*''"
  shows "\<exists>s'. eat_letter x s = Some s' \<and> masked s' t'"
proof -
  consider c where "t = c # t'" "c = x \<or> c = ascii_upper x"
    | "t = CHR 0xC5 # CHR 0xBF # t'" "x = CHR ''s''"
    | "t = CHR 0xE2 # CHR 0x84 # CHR 0xAA # t'" "x = CHR ''k''"
    using e by (auto simp: eat_letter_def has_prefix_iff prefix_def split: list.splits if_splits)
  then show ?thesis
  proof cases
    case (1 c)
    then obtain s' where "s = c # s'" "masked s' t'"
      using masked_keep_iff [of s c t'] m x by auto
    with 1 show ?thesis by (auto simp: eat_letter_def)
  next
    case 2
    then obtain s' where "s = CHR 0xC5 # CHR 0xBF # s'" "masked s' t'"
      using m by (fastforce dest!: masked_keep_iff)
    with 2 e show ?thesis by (auto simp: eat_letter_def has_prefix_iff split: if_splits)
  next
    case 3
    then obtain s' where "s = CHR 0xE2 # CHR 0x84 # CHR 0xAA # s'" "masked s' t'"
      using m by (fastforce dest!: masked_keep_iff)
    with 3 e show ?thesis by (auto simp: eat_letter_def has_prefix_iff split: if_splits)
  qed
qed

lemma masked_eat_word:
  "masked s t \<Longrightarrow> eat_word w t = Some t' \<Longrightarrow> word_ok w \<Longrightarrow>
     \<exists>s'. eat_word w s = Some s' \<and> masked s' t'"
proof (induction w arbitrary: s t)
  case (Cons x xs)
  obtain r where r: "eat_letter x t = Some r" "eat_word xs r = Some t'"
    using Cons.prems(2) by (auto split: option.splits)
  have x: "x \<noteq> CHR ''*''" "ascii_upper x \<noteq> CHR ''*''" "word_ok xs"
    using Cons.prems(3) star_class(5) by (auto simp: word_ok_def)
  obtain s1 where "eat_letter x s = Some s1" "masked s1 r"
    using masked_eat_letter [OF Cons.prems(1) r(1) x(1,2)] by blast
  with Cons.IH [OF _ r(2) x(3)] show ?case by fastforce
qed simp

lemma masked_eat_keyword:
  assumes "masked s t" "eat_keyword t = Some t'"
  shows "\<exists>s'. eat_keyword s = Some s' \<and> masked s' t'"
proof -
  obtain w where w: "w \<in> set secret_words" "eat_word w t = Some t'"
    using assms(2) by (auto simp: eat_keyword_iff)
  then show ?thesis
    using masked_eat_word [OF assms(1) w(2)] secret_words_ok [OF w(1)] eat_keyword_iff by blast
qed

lemma masked_dropWhile:
  "masked s t \<Longrightarrow> masked (dropWhile re_space s) (dropWhile re_space t)"
proof (induction rule: masked.induct)
  case (masked_mask v s t)
  then have "\<not> re_space (hd v)" using class_disjoint by (cases v) auto
  with masked_mask show ?case
    using star_class masked.masked_mask [of v s t] by (cases v) auto
qed (auto intro: masked.intros)

lemma masked_opt_quote: "masked s t \<Longrightarrow> masked (opt_quote s) (opt_quote t)"
proof (induction rule: masked.induct)
  case (masked_mask v s t)
  then have "\<not> re_quote (hd v)" using class_disjoint by (cases v) auto
  with masked_mask show ?case
    using star_class masked.masked_mask [of v s t] by (cases v) (auto simp: opt_quote_def)
qed (auto intro: masked.intros simp: opt_quote_def)

lemma masked_eat_separator:
  assumes "masked r t" "eat_separator t = Some u'"
  shows "\<exists>u. eat_separator r = Some u \<and> masked u u'"
proof -
  obtain c cs where c: "dropWhile re_space (opt_quote t) = c # cs" "re_colon c"
      "u' = opt_quote (dropWhile re_space cs)"
    using assms(2) by (auto simp: eat_separator_def split: list.splits if_splits)
  have "masked (dropWhile re_space (opt_quote r)) (c # cs)"
    using masked_dropWhile [OF masked_opt_quote [OF assms(1)]] c(1) by simp
  moreover have "c \<noteq> CHR ''*''" using c(2) star_class by auto
  ultimately obtain cs' where "dropWhile re_space (opt_quote r) = c # cs'" "masked cs' cs"
    using masked_keep_iff by blast
  with c show ?thesis
    using masked_opt_quote masked_dropWhile by (auto simp: eat_separator_def)
qed

lemma masked_value: "masked u u' \<Longrightarrow> takeWhile re_value u' \<noteq> [] \<Longrightarrow> takeWhile re_value u \<noteq> []"
  unfolding takeWhile_head
proof (induction rule: masked.induct)
  case (masked_mask v s t)
  then show ?case by (cases v) auto
qed auto

lemma masked_match:
  assumes m: "masked s t" and "match_secret t \<noteq> None"
  shows "match_secret s \<noteq> None"
proof -
  obtain t1 t2 where t: "eat_keyword t = Some t1" "eat_separator t1 = Some t2"
      "takeWhile re_value t2 \<noteq> []"
    using assms(2) by (auto simp: match_secret_def Let_def split: option.splits if_splits)
  obtain s1 where s1: "eat_keyword s = Some s1" "masked s1 t1"
    using masked_eat_keyword [OF m t(1)] by blast
  obtain s2 where s2: "eat_separator s1 = Some s2" "masked s2 t2"
    using masked_eat_separator [OF s1(2) t(2)] by blast
  show ?thesis
    using s1(1) s2(1) masked_value [OF s2(2) t(3)] by (simp add: match_secret_def Let_def)
qed

lemma redact_masked: "masked s (redact s)"
proof (induction s rule: redact.induct)
  case (2 c cs)
  show ?case
  proof (cases "match_secret (c # cs)")
    case None
    with 2 show ?thesis by (auto intro: masked.intros)
  next
    case (Some m)
    obtain p v rest where m: "m = (p, v, rest)" by (cases m)
    have v: "v = takeWhile re_value (v @ rest)" "v \<noteq> []" "c # cs = p @ v @ rest"
      using match_secret_shape [of "c # cs" p v rest] Some m by blast+
    have "list_all re_value v"
      by (subst v(1)) (auto simp: list_all_iff dest: set_takeWhileD)
    then have "masked (p @ v @ rest) (p @ ''***'' @ redact rest)"
      using 2(2) [OF Some, of p "(v, rest)" v rest] m v(2) by (intro masked_append masked_mask) auto
    moreover have "redact (c # cs) = p @ ''***'' @ redact rest" using Some m by simp
    ultimately show ?thesis using v(3) by (simp only:)
  qed
qed (simp add: masked_nil)

section \<open>Every remaining match is masked\<close>

lemma split_unique:
  assumes "q @ b = q' @ b'" and "\<forall>c\<in>set q. \<not> P c" "\<forall>c\<in>set q'. \<not> P c"
    and "b \<noteq> [] \<and> P (hd b)" "b' \<noteq> [] \<and> P (hd b')"
  shows "b = b'"
proof -
  have "dropWhile (\<lambda>c. \<not> P c) (q @ b) = b" "dropWhile (\<lambda>c. \<not> P c) (q' @ b') = b'"
    using assms(2-5) by (cases b; cases b'; simp add: dropWhile_append2)+
  with assms(1) show ?thesis by simp
qed

lemma sep_head: "sep_form sep \<Longrightarrow> sep @ t \<noteq> [] \<and> outside_word (hd (sep @ t))"
  using sep_form_chars [of sep] by (cases sep) auto

lemma drop_middle:
  "length q \<le> i \<Longrightarrow> i - length q \<le> length w \<Longrightarrow> drop i (q @ w @ r) = drop (i - length q) w @ r"
  by simp

lemma takeWhile_dropWhile_Nil: "takeWhile P (dropWhile P xs) = []"
  by (induction xs) auto

lemma match_secret_in_head:
  assumes "match_secret (q @ sep @ ''***'' @ r) = Some (p', v', rest')"
    and q: "\<forall>c\<in>set q. \<not> outside_word c" and sep: "sep_form sep"
    and r: "takeWhile re_value r = []"
  shows "v' = ''***''"
proof -
  obtain q2 sep2 where m: "q @ sep @ ''***'' @ r = (q2 @ sep2) @ v' @ rest'"
      "\<forall>c\<in>set q2. \<not> outside_word c" "sep_form sep2" "v' \<noteq> []" "v' = takeWhile re_value (v' @ rest')"
    using match_secret_shape [OF assms(1)] by blast
  have "q @ (sep @ ''***'' @ r) = q2 @ (sep2 @ v' @ rest')" using m(1) by (simp only: append_assoc)
  then have "sep @ ''***'' @ r = sep2 @ v' @ rest'"
    by (rule split_unique [where P = outside_word, OF _ q m(2) sep_head [OF sep] sep_head [OF m(3)]])
  moreover have "eat_separator (sep @ ''***'' @ r) = Some (''***'' @ r)"
    using star_class by (intro sep_form_eats [OF sep]) auto
  moreover have "re_value (hd (v' @ rest'))"
    using m(4,5) takeWhile_head [of re_value "v' @ rest'"] by auto
  then have "eat_separator (sep2 @ v' @ rest') = Some (v' @ rest')"
    using m(4) by (intro sep_form_eats [OF m(3)]) auto
  ultimately have "''***'' @ r = v' @ rest'" by simp
  then have "v' = takeWhile re_value (''***'' @ r)" using m(5) by metis
  then show ?thesis using r star_class by simp
qed

lemma match_secret_in_value:
  assumes "sep_form sep" "length q \<le> i" "i < length (q @ sep) + 3"
  shows "match_secret (drop i (q @ sep @ ''***'' @ r)) = None"
proof -
  let ?w = "sep @ ''***''" and ?j = "i - length q"
  have j: "?j < length ?w" using assms(2,3) by auto
  have d: "drop i (q @ sep @ ''***'' @ r) = drop ?j ?w @ r"
    using drop_middle [OF assms(2), of ?w r] j by (simp only: append_assoc less_imp_le)
  have "?w ! ?j \<in> set ?w" using j by (rule nth_mem)
  then have "outside_word (?w ! ?j)"
    using sep_form_chars [OF assms(1)] star_class by auto
  moreover have "drop ?j ?w = ?w ! ?j # drop (Suc ?j) ?w"
    using j by (simp only: Cons_nth_drop_Suc)
  ultimately have "outside_word (hd (drop ?j ?w @ r))" by (simp only: append_Cons list.sel)
  then show ?thesis unfolding d by (intro match_secret_NoneI disjI2)
qed

lemma redact_value_head:
  "takeWhile re_value s = [] \<Longrightarrow> takeWhile re_value (redact s) = []"
  using masked_value [OF redact_masked [of s]] by blast

lemma redact_matches:
  "match_secret (drop i (redact s)) = Some (p, v, rest) \<Longrightarrow> v = ''***''"
proof (induction s arbitrary: i rule: redact.induct)
  case 1
  then show ?case by (simp add: match_secret_NoneI)
next
  case (2 c cs)
  show ?case
  proof (cases "match_secret (c # cs)")
    case None
    then have "match_secret (c # redact cs) = None"
      using masked_match [OF masked_keep [OF redact_masked [of cs], of c]] by blast
    then show ?thesis
      using 2(1) [OF None] 2(3) None by (cases i) auto
  next
    case (Some m)
    obtain p1 v1 r1 where m: "m = (p1, v1, r1)" by (cases m)
    obtain q sep where s: "p1 = q @ sep" "\<forall>c\<in>set q. \<not> outside_word c" "sep_form sep"
        "r1 = dropWhile re_value (v1 @ r1)"
      using match_secret_shape [OF Some [unfolded m]] by blast
    have r1: "takeWhile re_value (redact r1) = []"
      by (rule redact_value_head, subst s(4)) (rule takeWhile_dropWhile_Nil)
    have out: "redact (c # cs) = q @ sep @ ''***'' @ redact r1" using Some m s(1) by simp
    consider (word) "i < length q" | (mask) "length q \<le> i" "i < length (q @ sep) + 3"
      | (after) "length (q @ sep) + 3 \<le> i" by linarith
    then show ?thesis
    proof cases
      case word
      then have "drop i (redact (c # cs)) = drop i q @ sep @ ''***'' @ redact r1"
        unfolding out by simp
      with 2(3) show ?thesis
        using s(2,3) r1 match_secret_in_head [of "drop i q"] by (metis in_set_dropD)
    next
      case mask
      with match_secret_in_value [OF s(3) mask, of "redact r1"] 2(3) out show ?thesis by simp
    next
      case after
      then have "drop i ((q @ sep @ ''***'') @ redact r1) =
          drop (i - (length (q @ sep) + 3)) (redact r1)"
        by (subst drop_append) (simp add: numeral_3_eq_3)
      then have "drop i (redact (c # cs)) = drop (i - (length (q @ sep) + 3)) (redact r1)"
        by (simp only: out append_assoc)
      then show ?thesis using 2(2) [OF Some, of p1 "(v1, r1)" v1 r1] m 2(3) by simp
    qed
  qed
qed

lemma redact_fixed:
  "(\<And>i p v rest. match_secret (drop i s) = Some (p, v, rest) \<Longrightarrow> v = ''***'') \<Longrightarrow> redact s = s"
proof (induction s rule: redact.induct)
  case (2 c cs)
  show ?case
  proof (cases "match_secret (c # cs)")
    case None
    with 2(1) 2(3) [of "Suc _"] show ?thesis by simp
  next
    case (Some m)
    obtain p v r where m: "m = (p, v, r)" by (cases m)
    have s: "c # cs = p @ v @ r" using match_secret_decompose Some m by blast
    have v: "v = ''***''" using 2(3) [of 0] Some m by auto
    have "redact r = r"
    proof (rule 2(2) [OF Some, of p "(v, r)" v r])
      fix i p' v' rest assume "match_secret (drop i r) = Some (p', v', rest)"
      then show "v' = ''***''" using 2(3) [of "length (p @ v) + i"] s by simp
    qed (simp_all add: m)
    moreover have "redact (c # cs) = p @ ''***'' @ redact r" using Some m by simp
    ultimately show ?thesis using s v by (simp only:)
  qed
qed simp

section \<open>Properties\<close>

text \<open>C12: in a line that \<open>redact\<close> has processed, every place where the secret expression matches
  has the value \<open>***\<close>: no masked line holds a value that the expression would mask.\<close>

theorem redact_values_masked:
  "match_secret (drop i (redact line)) = Some (p, v, rest) \<Longrightarrow> v = ''***''"
  by (rule redact_matches)

theorem redact_values_masked_witness:
  "redact ''user=x Token: abc'' = ''user=x Token: ***'' \<and>
   (case match_secret (drop 7 (redact ''user=x Token: abc'')) of
      Some (_, v, _) \<Rightarrow> v = ''***'' | None \<Rightarrow> False)"
proof
  show "redact ''user=x Token: abc'' = ''user=x Token: ***''" by code_simp
  have "match_secret (drop 7 (redact ''user=x Token: abc'')) = Some (''Token: '', ''***'', [])"
    by code_simp
  with redact_values_masked [OF this]
  show "case match_secret (drop 7 (redact ''user=x Token: abc'')) of
      Some (_, v, _) \<Rightarrow> v = ''***'' | None \<Rightarrow> False" by simp
qed

text \<open>Masking is idempotent, as the relay that masks a second time relies on.\<close>

lemma redact_idempotent: "redact (redact line) = redact line"
  by (rule redact_fixed, rule redact_matches)

lemma eat_letter_append: "eat_letter x s = Some r \<Longrightarrow> eat_letter x (s @ t) = Some (r @ t)"
  by (auto simp: eat_letter_def has_prefix_iff prefix_def split: list.splits if_splits)

lemma eat_word_append: "eat_word w s = Some r \<Longrightarrow> eat_word w (s @ t) = Some (r @ t)"
  by (induction w arbitrary: s) (auto simp: eat_letter_append split: option.splits)

lemma eat_authorization: "eat_keyword (''Authorization'' @ t) = Some t"
proof -
  have "eat_word ''authorization'' ''Authorization'' = Some []" by code_simp
  then have "eat_word ''authorization'' (''Authorization'' @ t) = Some t"
    using eat_word_append by fastforce
  then show ?thesis unfolding eat_keyword_iff secret_words_def by (intro bexI) auto
qed

lemma match_secret_colon:
  assumes "match_secret s \<noteq> None"
  shows "\<exists>c\<in>set s. re_colon c"
proof -
  obtain p v rest where m: "match_secret s = Some (p, v, rest)" using assms by auto
  obtain q sep where "s = (q @ sep) @ v @ rest" "sep_form sep"
    using match_secret_shape [OF m] by blast
  then show ?thesis by (auto simp: sep_form_def)
qed

lemma redact_no_colon: "\<forall>c\<in>set s. \<not> re_colon c \<Longrightarrow> redact s = s"
proof (induction s rule: redact.induct)
  case (2 c cs)
  then have "match_secret (c # cs) = None" using match_secret_colon [of "c # cs"] by blast
  with 2 show ?case by simp
qed simp

text \<open>The credential of an \<open>Authorization: Bearer\<close> header is not masked: the value that is
  replaced is the scheme, and the token that follows it is sent as it is.\<close>

lemma redact_leaks_bearer:
  assumes "\<forall>c\<in>set tok. \<not> re_colon c"
  shows "redact (''Authorization: Bearer '' @ tok) = ''Authorization: *** '' @ tok"
proof -
  have k: "eat_keyword (''Authorization: Bearer '' @ tok) = Some ('': Bearer '' @ tok)"
    using eat_authorization [of "'': Bearer '' @ tok"] by simp
  have "match_secret (''Authorization: Bearer '' @ tok) =
      Some (''Authorization: '', ''Bearer'', '' '' @ tok)"
    unfolding match_secret_def k
    by (simp add: eat_separator_def opt_quote_def re_class_defs)
  moreover have "redact ('' '' @ tok) = '' '' @ tok"
    using assms by (intro redact_no_colon) (auto simp: re_class_defs)
  ultimately show ?thesis by simp
qed

lemma redact_leaks_bearer_witness:
  "redact ''Authorization: Bearer abc.123'' = ''Authorization: *** abc.123''"
  using redact_leaks_bearer [of "''abc.123''"] by (simp add: re_class_defs)

end
