(* ===== verification/Control_Session.thy ===== *)
theory Control_Session
  imports Control_Jobs Control_Redact
begin

text \<open>
  A live control session (control/control.go) as a step relation: the read loop with its
  dispatch, the registry of in-flight streams, one goroutine per job with the life cycle of
  \<open>spawn\<close>, \<open>streamCommand\<close> and \<open>metricsLiveJob\<close>, and the frames in the order in which the write
  mutex lets them out. The environment (the server, the processes, the clock, the socket)
  chooses the next event.
\<close>

section \<open>State\<close>

text \<open>Where a job is: not yet running; in the scanning loop of a command (cap, deadline, next
  sequence number); in the sampling loop; about to write its last frame; returned, with its
  deferred calls to come; gone.\<close>

datatype phase =
    Starting
  | Streaming nat "int option" nat
  | Sampling nat
  | Ending out_frame
  | Returned
  | Gone

text \<open>\<open>j_done\<close>: the context of the job is done (cancel frame, deadline, shutdown, or the deferred
  \<open>cancel()\<close>).\<close>

record job_state =
  j_req :: reqFrame
  j_job :: job
  j_phase :: phase
  j_done :: bool

text \<open>\<open>streams\<close> maps a request id to the job whose cancel function is registered, \<open>pending\<close> are
  the frames that the read loop still has to write before it reads again, \<open>sent\<close> the frames
  written, with the job that wrote them (\<open>None\<close> for the read loop), and \<open>ran\<close> the processes
  started.\<close>

record session =
  cfg :: ControlConfig
  streams :: "(string, nat) gomap"
  jobs :: "job_state list"
  pending :: "out_frame list"
  sent :: "(nat option \<times> out_frame) list"
  ran :: "(nat \<times> string list) list"
  sock_closed :: bool

section \<open>Operations\<close>

definition addStream :: "string \<Rightarrow> nat \<Rightarrow> session \<Rightarrow> session" where
  "addStream rid k s = s\<lparr>streams := AList.update rid k (streams s)\<rparr>"

definition removeStream :: "string \<Rightarrow> session \<Rightarrow> session" where
  "removeStream rid s = s\<lparr>streams := AList.delete rid (streams s)\<rparr>"

definition upd_job :: "nat \<Rightarrow> (job_state \<Rightarrow> job_state) \<Rightarrow> session \<Rightarrow> session" where
  "upd_job k f s = s\<lparr>jobs := (jobs s)[k := f (jobs s ! k)]\<rparr>"

definition set_phase :: "nat \<Rightarrow> phase \<Rightarrow> session \<Rightarrow> session" where
  "set_phase k p s = upd_job k (\<lambda>j. j\<lparr>j_phase := p\<rparr>) s"

definition cancel_job :: "nat \<Rightarrow> session \<Rightarrow> session" where
  "cancel_job k s = upd_job k (\<lambda>j. j\<lparr>j_done := True\<rparr>) s"

definition cancelStream :: "string \<Rightarrow> session \<Rightarrow> session" where
  "cancelStream rid s =
     (case map_of (streams s) rid of None \<Rightarrow> s | Some k \<Rightarrow> cancel_job k s)"

text \<open>\<open>spawn\<close>: the new job gets the next number; it runs later.\<close>

definition spawn :: "reqFrame \<Rightarrow> job \<Rightarrow> session \<Rightarrow> session" where
  "spawn f job s =
     (let k = length (jobs s);
          s1 = addStream (f_ReqID f) k s
      in s1\<lparr>jobs := jobs s1 @ [\<lparr>j_req = f, j_job = job, j_phase = Starting, j_done = False\<rparr>]\<rparr>)"

definition handleReq :: "reqFrame \<Rightarrow> session \<Rightarrow> session" where
  "handleReq f s =
     (if f_Verb f = ''ping'' then
        s\<lparr>pending := [ResFrame (f_ReqID f) 0 ''pong'', EofFrame (f_ReqID f)]\<rparr>
      else (case verb_job (f_Verb f) of
              Some job \<Rightarrow> spawn f job s
            | None \<Rightarrow> s\<lparr>pending := [ErrFrame (f_ReqID f) ''unknown_verb'' 400]\<rparr>))"

definition dispatch :: "(string \<Rightarrow> json option) \<Rightarrow> string \<Rightarrow> session \<Rightarrow> session" where
  "dispatch parse data s =
     (case unmarshal_req parse data of
        None \<Rightarrow> s
      | Some f \<Rightarrow>
          if f_Type f = ''req'' then handleReq f s
          else if f_Type f = ''cancel'' then cancelStream (f_ReqID f) s
          else s)"

text \<open>One frame through the write mutex; \<open>ok\<close> is whether the socket took it.\<close>

definition write_frame :: "nat option \<Rightarrow> out_frame \<Rightarrow> bool \<Rightarrow> session \<Rightarrow> session" where
  "write_frame who f ok s = (if ok then s\<lparr>sent := sent s @ [(who, f)]\<rparr> else s)"

definition new_session :: "ControlConfig \<Rightarrow> session" where
  "new_session c = \<lparr>cfg = c, streams = [], jobs = [], pending = [], sent = [], ran = [],
     sock_closed = False\<rparr>"

text \<open>\<open>lineBufferBytes\<close>: the scanner gives up on a longer line. \<open>readLimitBytes\<close>: the read of a
  longer message fails and the socket is closed.\<close>

definition lineBufferBytes :: nat where "lineBufferBytes = 1024 * 1024"

definition readLimitBytes :: nat where "readLimitBytes = 256 * 1024"

section \<open>Steps\<close>

datatype event =
    Recv string
  | ReaderWrite bool
  | Hangup
  | Shutdown
  | Expire nat
  | Start nat bool
  | Line nat string bool
  | StreamEnd nat
  | Sample_tick nat string bool
  | SampleStop nat
  | Final nat bool
  | Leave nat

abbreviation req_id :: "session \<Rightarrow> nat \<Rightarrow> string" where
  "req_id s k \<equiv> f_ReqID (j_req (jobs s ! k))"

abbreviation at_phase :: "session \<Rightarrow> nat \<Rightarrow> phase \<Rightarrow> bool" where
  "at_phase s k p \<equiv> k < length (jobs s) \<and> j_phase (jobs s ! k) = p"

definition plan_of :: "goarch \<Rightarrow> session \<Rightarrow> nat \<Rightarrow> plan" where
  "plan_of arch s k = j_job (jobs s ! k) arch (cfg s) (j_req (jobs s ! k))"

inductive session_step ::
  "goarch \<Rightarrow> (string \<Rightarrow> json option) \<Rightarrow> session \<Rightarrow> event \<Rightarrow> session \<Rightarrow> bool"
  for arch parse where
  recv: "\<not> sock_closed s \<Longrightarrow> pending s = [] \<Longrightarrow> length data \<le> readLimitBytes \<Longrightarrow>
    session_step arch parse s (Recv data) (dispatch parse data s)"
| reader_write: "pending s = fr # frs \<Longrightarrow> ok \<longrightarrow> \<not> sock_closed s \<Longrightarrow>
    session_step arch parse s (ReaderWrite ok) (write_frame None fr ok (s\<lparr>pending := frs\<rparr>))"
| hangup: "session_step arch parse s Hangup (s\<lparr>sock_closed := True\<rparr>)"
| shutdown: "session_step arch parse s Shutdown
    (s\<lparr>sock_closed := True, jobs := map (\<lambda>j. j\<lparr>j_done := True\<rparr>) (jobs s)\<rparr>)"
| expire: "at_phase s k (Streaming n (Some t) seq) \<or> at_phase s k (Sampling seq) \<Longrightarrow>
    session_step arch parse s (Expire k) (cancel_job k s)"
| start_refused: "at_phase s k Starting \<Longrightarrow> plan_of arch s k = Refuse fr \<Longrightarrow>
    session_step arch parse s (Start k ok) (set_phase k (Ending fr) s)"
| start_command: "at_phase s k Starting \<Longrightarrow> plan_of arch s k = Command argv n t \<Longrightarrow>
    \<not> j_done (jobs s ! k) \<Longrightarrow>
    session_step arch parse s (Start k True)
      ((set_phase k (Streaming n t 0) s)\<lparr>ran := ran s @ [(k, argv)]\<rparr>)"
| spawn_failed: "at_phase s k Starting \<Longrightarrow> plan_of arch s k = Command argv n t \<Longrightarrow>
    session_step arch parse s (Start k False)
      (set_phase k (Ending (ErrFrame (req_id s k) ''spawn_failed'' 500)) s)"
| start_sampling: "at_phase s k Starting \<Longrightarrow> plan_of arch s k = Sample d t \<Longrightarrow>
    session_step arch parse s (Start k True) (set_phase k (Sampling 0) s)"
| no_metrics: "at_phase s k Starting \<Longrightarrow> plan_of arch s k = Sample d t \<Longrightarrow>
    session_step arch parse s (Start k False)
      (set_phase k (Ending (ErrFrame (req_id s k) ''metrics_unavailable'' 500)) s)"
| line_over: "at_phase s k (Streaming n t seq) \<Longrightarrow> 0 < n \<Longrightarrow> n \<le> seq \<Longrightarrow>
    session_step arch parse s (Line k raw ok) (set_phase k (Ending (EofFrame (req_id s k))) s)"
| line: "at_phase s k (Streaming n t seq) \<Longrightarrow> \<not> (0 < n \<and> n \<le> seq) \<Longrightarrow> ok \<longrightarrow> \<not> sock_closed s \<Longrightarrow>
    CHR 0x0A \<notin> set raw \<Longrightarrow> length raw < lineBufferBytes \<Longrightarrow>
    session_step arch parse s (Line k raw ok)
      (write_frame (Some k) (ResFrame (req_id s k) seq (redact raw)) ok
        (set_phase k (if ok then Streaming n t (seq + 1) else Ending (EofFrame (req_id s k))) s))"
| stream_end: "at_phase s k (Streaming n t seq) \<Longrightarrow>
    session_step arch parse s (StreamEnd k) (set_phase k (Ending (EofFrame (req_id s k))) s)"
| sample: "at_phase s k (Sampling seq) \<Longrightarrow> ok \<longrightarrow> \<not> sock_closed s \<Longrightarrow>
    session_step arch parse s (Sample_tick k payload ok)
      (write_frame (Some k) (ResFrame (req_id s k) seq payload) ok
        (set_phase k (if ok then Sampling (seq + 1) else Returned) s))"
| sample_stop: "at_phase s k (Sampling seq) \<Longrightarrow> j_done (jobs s ! k) \<Longrightarrow>
    session_step arch parse s (SampleStop k) (set_phase k (Ending (EofFrame (req_id s k))) s)"
| final: "at_phase s k (Ending fr) \<Longrightarrow> ok \<longrightarrow> \<not> sock_closed s \<Longrightarrow>
    session_step arch parse s (Final k ok)
      (write_frame (Some k) fr ok (set_phase k Returned s))"
| leave: "at_phase s k Returned \<Longrightarrow>
    session_step arch parse s (Leave k)
      (removeStream (req_id s k) (set_phase k Gone (cancel_job k s)))"

inductive_cases session_stepE: "session_step arch parse s ev s'"

text \<open>The states of a session opened under the allow-list \<open>c\<close>, over runs in which each event
  satisfies \<open>ok\<close>.\<close>

inductive reach ::
  "goarch \<Rightarrow> (string \<Rightarrow> json option) \<Rightarrow> (session \<Rightarrow> event \<Rightarrow> bool) \<Rightarrow> ControlConfig \<Rightarrow> session \<Rightarrow> bool"
  for arch parse ok c where
  init: "reach arch parse ok c (new_session c)"
| step: "reach arch parse ok c s \<Longrightarrow> ok s ev \<Longrightarrow> session_step arch parse s ev s' \<Longrightarrow>
    reach arch parse ok c s'"

section \<open>What each operation touches\<close>

lemma upd_job_frame [frame_simps]:
  "cfg (upd_job k f s) = cfg s" "streams (upd_job k f s) = streams s"
  "pending (upd_job k f s) = pending s" "sent (upd_job k f s) = sent s"
  "ran (upd_job k f s) = ran s" "sock_closed (upd_job k f s) = sock_closed s"
  "jobs (upd_job k f s) = (jobs s)[k := f (jobs s ! k)]"
  by (simp_all add: upd_job_def)

lemma registry_frame [frame_simps]:
  "cfg (addStream rid k s) = cfg s" "cfg (removeStream rid s) = cfg s"
  "jobs (addStream rid k s) = jobs s" "jobs (removeStream rid s) = jobs s"
  "sent (addStream rid k s) = sent s" "sent (removeStream rid s) = sent s"
  "ran (addStream rid k s) = ran s" "ran (removeStream rid s) = ran s"
  "streams (addStream rid k s) = AList.update rid k (streams s)"
  "streams (removeStream rid s) = AList.delete rid (streams s)"
  by (simp_all add: addStream_def removeStream_def)

lemma spawn_frame [frame_simps]:
  "cfg (spawn f job s) = cfg s" "sent (spawn f job s) = sent s" "ran (spawn f job s) = ran s"
  "streams (spawn f job s) = AList.update (f_ReqID f) (length (jobs s)) (streams s)"
  "jobs (spawn f job s) =
     jobs s @ [\<lparr>j_req = f, j_job = job, j_phase = Starting, j_done = False\<rparr>]"
  by (simp_all add: spawn_def Let_def addStream_def)

lemma write_frame_frame [frame_simps]:
  "cfg (write_frame w f ok s) = cfg s" "streams (write_frame w f ok s) = streams s"
  "jobs (write_frame w f ok s) = jobs s" "ran (write_frame w f ok s) = ran s"
  "pending (write_frame w f ok s) = pending s"
  "sent (write_frame w f ok s) = sent s @ (if ok then [(w, f)] else [])"
  by (simp_all add: write_frame_def)

lemmas job_op_defs = set_phase_def cancel_job_def

lemma dispatch_cases:
  obtains (same) "dispatch parse data s = s"
  | (answer) frs where "dispatch parse data s = s\<lparr>pending := frs\<rparr>"
  | (spawned) f job where "unmarshal_req parse data = Some f" "f_Type f = ''req''"
      "verb_job (f_Verb f) = Some job" "dispatch parse data s = spawn f job s"
  | (cancelled) f k where "unmarshal_req parse data = Some f" "f_Type f = ''cancel''"
      "map_of (streams s) (f_ReqID f) = Some k" "dispatch parse data s = cancel_job k s"
proof -
  consider "unmarshal_req parse data = None"
    | f where "unmarshal_req parse data = Some f" "f_Type f = ''req''"
    | f where "unmarshal_req parse data = Some f" "f_Type f = ''cancel''"
    | f where "unmarshal_req parse data = Some f" "f_Type f \<noteq> ''req''" "f_Type f \<noteq> ''cancel''"
    by (cases "unmarshal_req parse data") blast+
  then show thesis
  proof cases
    case 1
    then show thesis using same by (simp add: dispatch_def)
  next
    case (2 f)
    then have d: "dispatch parse data s = handleReq f s" by (simp add: dispatch_def)
    show thesis
    proof (cases "f_Verb f = ''ping''")
      case True
      with d show thesis using answer by (simp add: handleReq_def)
    next
      case False
      with d 2 show thesis
        using answer spawned [OF 2] by (cases "verb_job (f_Verb f)") (simp_all add: handleReq_def)
    qed
  next
    case (3 f)
    then have "dispatch parse data s = cancelStream (f_ReqID f) s" by (simp add: dispatch_def)
    then show thesis
      using same cancelled [OF 3]
      by (cases "map_of (streams s) (f_ReqID f)") (simp_all add: cancelStream_def)
  next
    case (4 f)
    then show thesis using same by (simp add: dispatch_def)
  qed
qed

lemma dispatch_cfg [frame_simps]: "cfg (dispatch parse data s) = cfg s"
  by (cases rule: dispatch_cases [of parse data s]) (simp_all add: frame_simps job_op_defs)

section \<open>The frames of one job\<close>

definition frames_of :: "nat \<Rightarrow> session \<Rightarrow> out_frame list" where
  "frames_of k s = map snd (filter (\<lambda>x. fst x = Some k) (sent s))"

lemma frames_of_cong: "sent s = sent s' \<Longrightarrow> frames_of k s = frames_of k s'"
  by (simp add: frames_of_def)

lemma frames_of_write:
  "frames_of k (write_frame w f ok s) = frames_of k s @ (if ok \<and> w = Some k then [f] else [])"
  by (simp add: frames_of_def frame_simps)

definition data_frames :: "string \<Rightarrow> string list \<Rightarrow> out_frame list" where
  "data_frames rid ds = map (\<lambda>i. ResFrame rid i (ds ! i)) [0..<length ds]"

lemma data_frames_Nil [simp]: "data_frames rid [] = []"
  by (simp add: data_frames_def)

lemma data_frames_snoc:
  "data_frames rid (ds @ [d]) = data_frames rid ds @ [ResFrame rid (length ds) d]"
  by (simp add: data_frames_def nth_append)

lemma in_data_frames: "ResFrame r i d \<in> set (data_frames rid ds) \<Longrightarrow> d \<in> set ds"
  by (auto simp: data_frames_def)

lemma data_frames_empty [simp]: "data_frames rid ds = [] \<longleftrightarrow> ds = []"
  by (simp add: data_frames_def)

lemma length_data_frames [simp]: "length (data_frames rid ds) = length ds"
  by (simp add: data_frames_def)

definition terminal :: "string \<Rightarrow> out_frame \<Rightarrow> bool" where
  "terminal rid fr = (fr = EofFrame rid \<or> (\<exists>msg code. fr = ErrFrame rid msg code))"

definition phase_good :: "plan \<Rightarrow> string \<Rightarrow> phase \<Rightarrow> string list \<Rightarrow> out_frame list \<Rightarrow> bool" where
  "phase_good pl rid ph ds ts =
     (case ph of
        Starting \<Rightarrow> ds = [] \<and> ts = []
      | Streaming n t seq \<Rightarrow> ts = [] \<and> seq = length ds \<and> (\<exists>argv. pl = Command argv n t)
      | Sampling seq \<Rightarrow> ts = [] \<and> seq = length ds \<and> (\<exists>d t. pl = Sample d t)
      | Ending fr \<Rightarrow> ts = [] \<and> terminal rid fr
      | _ \<Rightarrow> ts = [] \<or> (\<exists>fr. ts = [fr] \<and> terminal rid fr))"

definition plan_good :: "plan \<Rightarrow> string list \<Rightarrow> bool" where
  "plan_good pl ds =
     (\<forall>argv n t. pl = Command argv n t \<longrightarrow>
        (\<forall>d\<in>set ds. redact d = d) \<and> (0 < n \<longrightarrow> length ds \<le> n))"

text \<open>A job whose frames are data frames numbered from 0, masked and within the cap when they
  come from a command, followed by at most one terminal frame once the job has returned.\<close>

definition job_good :: "goarch \<Rightarrow> ControlConfig \<Rightarrow> job_state \<Rightarrow> out_frame list \<Rightarrow> bool" where
  "job_good arch c j fs =
     (\<exists>ds ts. fs = data_frames (f_ReqID (j_req j)) ds @ ts \<and>
        plan_good (j_job j arch c (j_req j)) ds \<and>
        phase_good (j_job j arch c (j_req j)) (f_ReqID (j_req j)) (j_phase j) ds ts)"

lemma job_good_done [simp]: "job_good arch c (j\<lparr>j_done := b\<rparr>) fs = job_good arch c j fs"
  by (simp add: job_good_def)

lemma redact_redact: "redact (redact d) = redact d"
  by (rule redact_fixed, rule redact_matches)

text \<open>The transitions of a job.\<close>

lemma job_good_new:
  "j_phase j = Starting \<Longrightarrow> job_good arch c j []"
  by (auto simp: job_good_def phase_good_def plan_good_def intro!: exI [of _ "[]"])

lemma job_good_begin:
  assumes "job_good arch c j fs" "j_phase j = Starting"
    and "\<exists>argv. j_job j arch c (j_req j) = Command argv n t"
  shows "job_good arch c (j\<lparr>j_phase := Streaming n t 0\<rparr>) fs"
  using assms by (auto simp: job_good_def phase_good_def plan_good_def)

lemma job_good_begin_sampling:
  assumes "job_good arch c j fs" "j_phase j = Starting"
    and "j_job j arch c (j_req j) = Sample d t"
  shows "job_good arch c (j\<lparr>j_phase := Sampling 0\<rparr>) fs"
  using assms by (auto simp: job_good_def phase_good_def plan_good_def)

lemma job_good_line:
  assumes "job_good arch c j fs" "j_phase j = Streaming n t seq" "\<not> (0 < n \<and> n \<le> seq)"
  shows "job_good arch c (j\<lparr>j_phase := Streaming n t (seq + 1)\<rparr>)
           (fs @ [ResFrame (f_ReqID (j_req j)) seq (redact raw)])"
proof -
  obtain ds where ds: "fs = data_frames (f_ReqID (j_req j)) ds" "seq = length ds"
      "plan_good (j_job j arch c (j_req j)) ds" "\<exists>argv. j_job j arch c (j_req j) = Command argv n t"
    using assms(1,2) by (auto simp: job_good_def phase_good_def)
  show ?thesis
    unfolding job_good_def
    using ds assms(3) redact_redact
    by (intro exI [of _ "ds @ [redact raw]"] exI [of _ "[]"])
      (auto simp: data_frames_snoc phase_good_def plan_good_def)
qed

lemma job_good_sample:
  assumes "job_good arch c j fs" "j_phase j = Sampling seq"
  shows "job_good arch c (j\<lparr>j_phase := Sampling (seq + 1)\<rparr>)
           (fs @ [ResFrame (f_ReqID (j_req j)) seq payload])"
proof -
  obtain ds where ds: "fs = data_frames (f_ReqID (j_req j)) ds" "seq = length ds"
      "\<exists>d t. j_job j arch c (j_req j) = Sample d t"
    using assms by (auto simp: job_good_def phase_good_def)
  show ?thesis
    unfolding job_good_def
    using ds by (intro exI [of _ "ds @ [payload]"] exI [of _ "[]"])
      (auto simp: data_frames_snoc phase_good_def plan_good_def)
qed

lemma job_good_ending:
  assumes "job_good arch c j fs" "j_phase j \<notin> {Returned, Gone}"
    and "terminal (f_ReqID (j_req j)) fr"
  shows "job_good arch c (j\<lparr>j_phase := Ending fr\<rparr>) fs"
  using assms by (cases "j_phase j") (auto simp: job_good_def phase_good_def)

lemma job_good_return:
  assumes "job_good arch c j fs" "j_phase j \<notin> {Returned, Gone}"
  shows "job_good arch c (j\<lparr>j_phase := Returned\<rparr>) fs"
  using assms by (cases "j_phase j") (auto simp: job_good_def phase_good_def)

lemma job_good_final:
  assumes "job_good arch c j fs" "j_phase j = Ending fr"
  shows "job_good arch c (j\<lparr>j_phase := Returned\<rparr>) (fs @ [fr])"
  using assms by (auto simp: job_good_def phase_good_def)

lemma job_good_gone:
  assumes "job_good arch c j fs" "j_phase j = Returned"
  shows "job_good arch c (j\<lparr>j_phase := Gone\<rparr>) fs"
  using assms by (auto simp: job_good_def phase_good_def)

section \<open>The invariant of a session\<close>

text \<open>A job runs under the verb of its request.\<close>

definition job_known :: "job_state \<Rightarrow> bool" where
  "job_known j = (verb_job (f_Verb (j_req j)) = Some (j_job j))"

lemma job_known_upd [simp]:
  "job_known (j\<lparr>j_phase := p\<rparr>) = job_known j" "job_known (j\<lparr>j_done := b\<rparr>) = job_known j"
  by (simp_all add: job_known_def)

lemma list_update_ball:
  "\<forall>x\<in>set xs. P x \<Longrightarrow> P y \<Longrightarrow> \<forall>x\<in>set (xs[k := y]). P x"
  by (auto dest!: set_update_subset_insert [THEN subsetD])

definition session_good :: "goarch \<Rightarrow> session \<Rightarrow> bool" where
  "session_good arch s =
     ((\<forall>j\<in>set (jobs s). job_known j) \<and>
      (\<forall>k < length (jobs s). job_good arch (cfg s) (jobs s ! k) (frames_of k s)) \<and>
      (\<forall>k \<ge> length (jobs s). frames_of k s = []) \<and>
      (\<forall>x\<in>set (ran s). permitted (cfg s) (snd x)))"

lemma session_good_new: "session_good arch (new_session c)"
  by (simp add: session_good_def new_session_def frames_of_def)

lemma session_good_frame:
  assumes "session_good arch s" "cfg s' = cfg s" "jobs s' = jobs s" "ran s' = ran s"
    and "\<And>k. frames_of k s' = frames_of k s"
  shows "session_good arch s'"
  using assms by (simp add: session_good_def)

text \<open>A job moves on, writing at most one frame.\<close>

lemma session_good_advance:
  assumes g: "session_good arch s" and k: "k < length (jobs s)"
    and j: "job_good arch (cfg s) ((jobs s ! k)\<lparr>j_phase := p\<rparr>)
              (frames_of k s @ (if ok then [fr] else []))"
  shows "session_good arch (write_frame (Some k) fr ok (set_phase k p s))"
proof -
  have f: "frames_of i (write_frame (Some k) fr ok (set_phase k p s)) =
      frames_of i s @ (if ok \<and> i = k then [fr] else [])" for i
    using frames_of_cong [of "set_phase k p s" s i]
    by (auto simp: frames_of_write frame_simps job_op_defs)
  have n: "\<forall>j\<in>set ((jobs s)[k := (jobs s ! k)\<lparr>j_phase := p\<rparr>]). job_known j"
    using g k by (intro list_update_ball) (simp_all add: session_good_def)
  show ?thesis
    unfolding session_good_def f
  proof (intro conjI allI impI)
    fix i assume "i < length (jobs (write_frame (Some k) fr ok (set_phase k p s)))"
    then show "job_good arch (cfg (write_frame (Some k) fr ok (set_phase k p s)))
        (jobs (write_frame (Some k) fr ok (set_phase k p s)) ! i)
        (frames_of i s @ (if ok \<and> i = k then [fr] else []))"
      using g j by (cases "i = k") (auto simp: session_good_def frame_simps job_op_defs)
  qed (use g k n in \<open>auto simp: session_good_def frame_simps job_op_defs\<close>)
qed

lemma session_good_phase:
  assumes "session_good arch s" "k < length (jobs s)"
    and "job_good arch (cfg s) ((jobs s ! k)\<lparr>j_phase := p\<rparr>) (frames_of k s)"
  shows "session_good arch (set_phase k p s)"
  using session_good_advance [OF assms(1,2), of p False undefined] assms(3)
  by (simp add: write_frame_def)

lemma session_good_cancel:
  assumes "session_good arch s"
  shows "session_good arch (cancel_job k s)"
proof (cases "k < length (jobs s)")
  case True
  have f: "frames_of i (cancel_job k s) = frames_of i s" for i
    by (rule frames_of_cong) (simp add: frame_simps job_op_defs)
  have n: "\<forall>j\<in>set ((jobs s)[k := (jobs s ! k)\<lparr>j_done := True\<rparr>]). job_known j"
    using assms True by (intro list_update_ball) (simp_all add: session_good_def)
  show ?thesis
    unfolding session_good_def f
  proof (intro conjI allI impI)
    fix i assume "i < length (jobs (cancel_job k s))"
    then show "job_good arch (cfg (cancel_job k s)) (jobs (cancel_job k s) ! i) (frames_of i s)"
      using assms by (cases "i = k") (auto simp: session_good_def frame_simps job_op_defs)
  qed (use assms n in \<open>auto simp: session_good_def frame_simps job_op_defs\<close>)
next
  case False
  then have "(jobs s)[k := x] = jobs s" for x by (intro list_update_beyond) simp
  with assms show ?thesis
    by (intro session_good_frame [OF assms]) (simp_all add: frame_simps job_op_defs frames_of_def)
qed

lemma session_good_spawn:
  assumes "session_good arch s" "verb_job (f_Verb f) = Some job"
  shows "session_good arch (spawn f job s)"
  using assms frames_of_cong [of "spawn f job s" s]
  by (auto simp: session_good_def frame_simps nth_append less_Suc_eq job_known_def intro!: job_good_new)

lemma session_good_dispatch:
  assumes "session_good arch s"
  shows "session_good arch (dispatch parse data s)"
proof (cases rule: dispatch_cases [of parse data s])
  case (answer frs)
  then show ?thesis
    by (intro session_good_frame [OF assms]) (simp_all add: frames_of_def)
qed (use assms in \<open>simp_all add: session_good_spawn session_good_cancel\<close>)

lemma job_good_at:
  "session_good arch s \<Longrightarrow> k < length (jobs s) \<Longrightarrow> job_good arch (cfg s) (jobs s ! k) (frames_of k s)"
  by (simp add: session_good_def)

lemma plan_permitted:
  "session_good arch s \<Longrightarrow> k < length (jobs s) \<Longrightarrow> plan_of arch s k = Command argv n t \<Longrightarrow>
     permitted (cfg s) argv"
  by (auto simp: session_good_def plan_of_def job_known_def intro: verb_job_permitted)

text \<open>A refusal answers the request it belongs to.\<close>

lemma refusal_terminal:
  assumes "verb_job v = Some job" "job arch c f = Refuse fr"
  shows "terminal (f_ReqID f) fr"
  using verb_job_cases [OF assms(1)] assms(2)
  unfolding insert_iff empty_iff prod.inject terminal_def
  by (elim disjE conjE FalseE)
    (auto simp: logsJob_def procTopJob_def procTopLiveJob_def diskDfJob_def netListenJob_def
      cronListJob_def svcStatusJob_def svcListJob_def pkgListJob_def dockerPsJob_def
      metricsLiveJob_def not_permitted_def Let_def split: if_splits option.splits sum.splits)

lemma terminal_simps [simp]: "terminal rid (EofFrame rid)" "terminal rid (ErrFrame rid m code)"
  by (simp_all add: terminal_def)

lemma session_good_step:
  assumes step: "session_step arch parse s ev s'" and g: "session_good arch s"
  shows "session_good arch s'"
  using step
proof cases
  case (recv data)
  with g show ?thesis by (simp add: session_good_dispatch)
next
  case (reader_write fr frs ok)
  with g show ?thesis
    by (intro session_good_frame [OF g]) (simp_all add: frame_simps frames_of_def)
next
  case hangup
  then show ?thesis by (intro session_good_frame [OF g]) (simp_all add: frames_of_def)
next
  case shutdown
  then show ?thesis using g by (auto simp: session_good_def frames_of_def)
next
  case (expire k n t seq)
  with g show ?thesis by (simp add: session_good_cancel)
next
  case (start_refused k fr ok)
  have "terminal (req_id s k) fr"
    using start_refused g nth_mem
    by (auto simp: session_good_def plan_of_def job_known_def intro!: refusal_terminal)
  with start_refused g show ?thesis
    by (auto intro!: session_good_phase job_good_ending job_good_at)
next
  case (start_command k argv n t)
  let ?s = "set_phase k (Streaming n t 0) s"
  have "session_good arch ?s"
    using start_command g
    by (auto simp: plan_of_def intro!: session_good_phase job_good_begin job_good_at)
  moreover have "frames_of i (?s\<lparr>ran := ran s @ [(k, argv)]\<rparr>) = frames_of i ?s" for i
    by (simp add: frames_of_def)
  moreover have "permitted (cfg s) argv" using start_command g plan_permitted by blast
  ultimately show ?thesis
    using start_command by (auto simp: session_good_def frame_simps job_op_defs)
next
  case (spawn_failed k argv n t)
  with g show ?thesis by (auto intro!: session_good_phase job_good_ending job_good_at)
next
  case (start_sampling k d t)
  with g show ?thesis
    by (auto simp: plan_of_def intro!: session_good_phase job_good_begin_sampling job_good_at)
next
  case (no_metrics k d t)
  with g show ?thesis by (auto intro!: session_good_phase job_good_ending job_good_at)
next
  case (line_over k n t seq raw ok)
  with g show ?thesis by (auto intro!: session_good_phase job_good_ending job_good_at)
next
  case (line k n t seq ok raw)
  have "job_good arch (cfg s) ((jobs s ! k)\<lparr>j_phase := Streaming n t (seq + 1)\<rparr>)
      (frames_of k s @ [ResFrame (req_id s k) seq (redact raw)])"
    using line g by (intro job_good_line job_good_at) auto
  then show ?thesis
    using line g by (auto intro!: session_good_advance job_good_ending job_good_at)
next
  case (stream_end k n t seq)
  with g show ?thesis by (auto intro!: session_good_phase job_good_ending job_good_at)
next
  case (sample k seq ok payload)
  have "job_good arch (cfg s) ((jobs s ! k)\<lparr>j_phase := Sampling (seq + 1)\<rparr>)
      (frames_of k s @ [ResFrame (req_id s k) seq payload])"
    using sample g by (intro job_good_sample job_good_at) auto
  then show ?thesis
    using sample g by (auto intro!: session_good_advance job_good_return job_good_at)
next
  case (sample_stop k seq)
  with g show ?thesis by (auto intro!: session_good_phase job_good_ending job_good_at)
next
  case (final k fr ok)
  have "job_good arch (cfg s) ((jobs s ! k)\<lparr>j_phase := Returned\<rparr>)
      (frames_of k s @ (if ok then [fr] else []))"
  proof (cases ok)
    case True
    then show ?thesis using final g by (auto intro!: job_good_final job_good_at)
  next
    case False
    then show ?thesis using final g by (auto intro!: job_good_return job_good_at)
  qed
  then show ?thesis using final g by (auto intro!: session_good_advance)
next
  case (leave k)
  have c: "session_good arch (cancel_job k s)" using g by (rule session_good_cancel)
  have "j_phase (jobs (cancel_job k s) ! k) = Returned" "k < length (jobs (cancel_job k s))"
    using leave by (simp_all add: frame_simps job_op_defs)
  then have "session_good arch (set_phase k Gone (cancel_job k s))"
    using c by (intro session_good_phase job_good_gone job_good_at)
  then show ?thesis
    using leave by (auto simp: frame_simps frames_of_def intro: session_good_frame)
qed

lemma session_step_cfg: "session_step arch parse s ev s' \<Longrightarrow> cfg s' = cfg s"
  by (induction rule: session_step.induct)
    (auto simp: frame_simps job_op_defs)

lemma reach_cfg: "reach arch parse ok c s \<Longrightarrow> cfg s = c"
  by (induction rule: reach.induct) (auto simp: new_session_def session_step_cfg)

lemma reach_good: "reach arch parse ok c s \<Longrightarrow> session_good arch s"
  by (induction rule: reach.induct) (auto simp: session_good_new intro: session_good_step)

section \<open>The stream registry\<close>

text \<open>\<open>tracks lookup r L\<close>: the registry holds exactly the entries of \<open>L\<close>.\<close>

definition tracks :: "('r \<Rightarrow> 'i \<Rightarrow> 'k option) \<Rightarrow> 'r \<Rightarrow> ('i \<times> 'k) set \<Rightarrow> bool" where
  "tracks lookup r L = (\<forall>i k. lookup r i = Some k \<longleftrightarrow> (i, k) \<in> L)"

text \<open>What the session asks of the map behind \<open>addStream\<close>, \<open>removeStream\<close> and
  \<open>cancelStream\<close>.\<close>

locale registry =
  fixes add :: "'i \<Rightarrow> 'k \<Rightarrow> 'r \<Rightarrow> 'r"
    and remove :: "'i \<Rightarrow> 'r \<Rightarrow> 'r"
    and lookup :: "'r \<Rightarrow> 'i \<Rightarrow> 'k option"
  assumes lookup_add: "lookup (add i k r) j = (if j = i then Some k else lookup r j)"
    and lookup_remove: "lookup (remove i r) j = (if j = i then None else lookup r j)"
begin

lemma tracks_add:
  "tracks lookup r L \<Longrightarrow> i \<notin> fst ` L \<Longrightarrow> tracks lookup (add i k r) (insert (i, k) L)"
  by (force simp: tracks_def lookup_add)

lemma tracks_functional: "tracks lookup r L \<Longrightarrow> (i, k) \<in> L \<Longrightarrow> (i, k') \<in> L \<Longrightarrow> k = k'"
  unfolding tracks_def by (metis option.inject)

lemma tracks_remove:
  "tracks lookup r L \<Longrightarrow> (i, k) \<in> L \<Longrightarrow> tracks lookup (remove i r) (L - {(i, k)})"
  unfolding tracks_def
proof (intro allI)
  fix j k'
  assume L: "\<forall>i k. lookup r i = Some k \<longleftrightarrow> (i, k) \<in> L" "(i, k) \<in> L"
  have "lookup r i = Some k" using L by blast
  moreover have "lookup r j = Some k' \<longleftrightarrow> (j, k') \<in> L" using L(1) by blast
  ultimately show "lookup (remove i r) j = Some k' \<longleftrightarrow> (j, k') \<in> L - {(i, k)}"
    by (cases "j = i") (auto simp: lookup_remove)
qed

lemma remove_drops: "lookup (remove i r) i = None"
  by (simp add: lookup_remove)

end

interpretation go_map: registry AList.update AList.delete map_of
  by unfold_locales (simp_all add: map_of_delete)

definition live_jobs :: "job_state list \<Rightarrow> (string \<times> nat) set" where
  "live_jobs js = {(f_ReqID (j_req (js ! k)), k) | k. k < length js \<and> j_phase (js ! k) \<noteq> Gone}"

lemma in_live_jobs:
  "x \<in> live_jobs js \<longleftrightarrow>
     snd x < length js \<and> fst x = f_ReqID (j_req (js ! snd x)) \<and> j_phase (js ! snd x) \<noteq> Gone"
  by (cases x) (auto simp: live_jobs_def)

lemma live_jobs_update:
  assumes "j_req j = j_req (js ! k)" "j_phase j = Gone \<longleftrightarrow> j_phase (js ! k) = Gone"
  shows "live_jobs (js[k := j]) = live_jobs js"
proof (rule set_eqI)
  fix x show "x \<in> live_jobs (js[k := j]) \<longleftrightarrow> x \<in> live_jobs js"
    using assms
    by (cases "snd x = k"; cases "k < length js") (simp_all add: in_live_jobs nth_list_update)
qed

lemma live_jobs_gone:
  assumes "k < length js" "j_req j = j_req (js ! k)" "j_phase j = Gone"
  shows "live_jobs (js[k := j]) = live_jobs js - {(f_ReqID (j_req (js ! k)), k)}"
proof (rule set_eqI)
  fix x
  show "x \<in> live_jobs (js[k := j]) \<longleftrightarrow>
      x \<in> live_jobs js - {(f_ReqID (j_req (js ! k)), k)}"
    using assms by (cases x; cases "snd x = k") (simp_all add: in_live_jobs nth_list_update)
qed

lemma live_jobs_snoc:
  "j_phase j \<noteq> Gone \<Longrightarrow> live_jobs (js @ [j]) = insert (f_ReqID (j_req j), length js) (live_jobs js)"
  by (rule set_eqI, rename_tac x, case_tac x) (auto simp: in_live_jobs nth_append less_Suc_eq)

lemma live_jobs_done: "live_jobs (map (\<lambda>j. j\<lparr>j_done := True\<rparr>) js) = live_jobs js"
  by (rule set_eqI) (auto simp: in_live_jobs)

text \<open>The server does not ask for anything under the id of a request that is in flight; it may cancel
  it.\<close>

definition fresh_ids :: "(string \<Rightarrow> json option) \<Rightarrow> session \<Rightarrow> event \<Rightarrow> bool" where
  "fresh_ids parse s ev =
     (case ev of
        Recv data \<Rightarrow>
          (case unmarshal_req parse data of
             None \<Rightarrow> True
           | Some f \<Rightarrow> f_Type f = ''req'' \<longrightarrow>
               list_all (\<lambda>j. j_phase j = Gone \<or> f_ReqID (j_req j) \<noteq> f_ReqID f) (jobs s))
      | _ \<Rightarrow> True)"

lemma fresh_ids_live:
  "fresh_ids parse s (Recv data) \<Longrightarrow> unmarshal_req parse data = Some f \<Longrightarrow> f_Type f = ''req'' \<Longrightarrow>
     f_ReqID f \<notin> fst ` live_jobs (jobs s)"
  by (auto simp: fresh_ids_def live_jobs_def list_all_length)

lemma session_step_registry:
  assumes "session_step arch parse s ev s'"
  shows "(\<exists>data f job. ev = Recv data \<and> unmarshal_req parse data = Some f \<and> f_Type f = ''req'' \<and>
            s' = spawn f job s) \<or>
         (\<exists>k. at_phase s k Returned \<and> streams s' = AList.delete (req_id s k) (streams s) \<and>
            live_jobs (jobs s') = live_jobs (jobs s) - {(req_id s k, k)}) \<or>
         streams s' = streams s \<and> live_jobs (jobs s') = live_jobs (jobs s)"
  using assms
proof cases
  case (recv data)
  then show ?thesis
    by (cases rule: dispatch_cases [of parse data s])
      (auto simp: frame_simps job_op_defs live_jobs_update)
next
  case (leave k)
  then have "live_jobs (jobs s') = live_jobs (jobs s) - {(req_id s k, k)}"
    using live_jobs_gone [of k "jobs (cancel_job k s)"
        "(jobs (cancel_job k s) ! k)\<lparr>j_phase := Gone\<rparr>"]
    by (simp add: frame_simps job_op_defs live_jobs_update)
  moreover have "streams s' = AList.delete (req_id s k) (streams s)"
    using leave by (simp add: frame_simps job_op_defs)
  ultimately show ?thesis using leave by blast
qed (auto simp: frame_simps job_op_defs live_jobs_update live_jobs_done)

lemma reach_tracks:
  "reach arch parse (fresh_ids parse) c s \<Longrightarrow> tracks map_of (streams s) (live_jobs (jobs s))"
proof (induction rule: reach.induct)
  case init
  then show ?case by (auto simp: tracks_def new_session_def live_jobs_def)
next
  case (step s ev s')
  from session_step_registry [OF step.hyps(3)] show ?case
  proof (elim disjE exE conjE)
    fix data f job
    assume e: "ev = Recv data" "unmarshal_req parse data = Some f" "f_Type f = ''req''" "s' = spawn f job s"
    have "f_ReqID f \<notin> fst ` live_jobs (jobs s)"
      using step.hyps(2) e fresh_ids_live by blast
    with step.IH show ?thesis
      by (simp add: e frame_simps live_jobs_snoc go_map.tracks_add)
  next
    fix k
    assume "k < length (jobs s)" "j_phase (jobs s ! k) = Returned"
      and s': "streams s' = AList.delete (req_id s k) (streams s)"
        "live_jobs (jobs s') = live_jobs (jobs s) - {(req_id s k, k)}"
    then have "(req_id s k, k) \<in> live_jobs (jobs s)" by (auto simp: live_jobs_def)
    with step.IH s' show ?thesis by (simp add: go_map.tracks_remove)
  qed (use step.IH in simp)
qed

text \<open>Whatever ids the server uses, an entry of the registry is a job that was registered under its own
  id, and a job that has lost its entry never gets one again.\<close>

lemma req_of_done [simp]: "j_req (js[i := (js ! i)\<lparr>j_done := b\<rparr>] ! k) = j_req (js ! k)"
  by (cases "i < length js"; cases "i = k") (simp_all add: not_less list_update_beyond)

lemma step_keeps_req:
  assumes "session_step arch parse s ev s'" "k < length (jobs s)"
  shows "k < length (jobs s') \<and> j_req (jobs s' ! k) = j_req (jobs s ! k)"
  using assms
proof cases
  case (recv data)
  then show ?thesis
    using assms(2) by (cases rule: dispatch_cases [of parse data s])
      (auto simp: frame_simps job_op_defs nth_append nth_list_update)
qed (auto simp: frame_simps job_op_defs nth_list_update)

lemma registered_own:
  "reach arch parse ok c s \<Longrightarrow>
     \<forall>rid k. map_of (streams s) rid = Some k \<longrightarrow> k < length (jobs s) \<and> req_id s k = rid"
proof (induction rule: reach.induct)
  case init
  then show ?case by (simp add: new_session_def)
next
  case (step s ev s')
  have old: "k < length (jobs s') \<and> req_id s' k = rid" if "map_of (streams s) rid = Some k" for rid k
    using step.IH that step_keeps_req [OF step.hyps(3)] by metis
  from session_step_registry [OF step.hyps(3)] show ?case
  proof (elim disjE exE conjE)
    fix data f job
    assume "s' = spawn f job s"
    then show ?thesis using old by (auto simp: frame_simps map_of_update nth_append)
  qed (use old in \<open>auto simp: map_of_delete split: if_splits\<close>)
qed

definition forgotten :: "nat \<Rightarrow> session \<Rightarrow> bool" where
  "forgotten k s = (k < length (jobs s) \<and> (\<forall>rid. map_of (streams s) rid \<noteq> Some k))"

lemma forgotten_step:
  assumes "session_step arch parse s ev s'" "forgotten k s"
  shows "forgotten k s'"
proof -
  have "k < length (jobs s')" using step_keeps_req [OF assms(1)] assms(2) by (simp add: forgotten_def)
  with session_step_registry [OF assms(1)] assms(2) show ?thesis
    by (auto simp: forgotten_def frame_simps map_of_update map_of_delete split: if_splits)
qed

lemma forgotten_untouched:
  assumes "forgotten k s"
  shows "jobs (dispatch parse data s) ! k = jobs s ! k"
proof (cases rule: dispatch_cases [of parse data s])
  case (cancelled f i)
  then have "i \<noteq> k" using assms by (auto simp: forgotten_def)
  then show ?thesis using cancelled(4) by (simp add: frame_simps job_op_defs)
qed (use assms in \<open>simp_all add: forgotten_def frame_simps nth_append\<close>)

text \<open>Any further run of the session.\<close>

definition session_run :: "goarch \<Rightarrow> (string \<Rightarrow> json option) \<Rightarrow> session \<Rightarrow> session \<Rightarrow> bool" where
  "session_run arch parse = (\<lambda>s s'. \<exists>ev. session_step arch parse s ev s')\<^sup>*\<^sup>*"

lemma forgotten_run: "session_run arch parse s s' \<Longrightarrow> forgotten k s \<Longrightarrow> forgotten k s'"
  unfolding session_run_def
  by (induction rule: rtranclp_induct) (auto intro: forgotten_step)

section \<open>Termination of a capped job\<close>

definition event_job :: "event \<Rightarrow> nat option" where
  "event_job ev =
     (case ev of
        Start k _ \<Rightarrow> Some k | Line k _ _ \<Rightarrow> Some k | StreamEnd k \<Rightarrow> Some k
      | Sample_tick k _ _ \<Rightarrow> Some k | SampleStop k \<Rightarrow> Some k | Final k _ \<Rightarrow> Some k
      | Leave k \<Rightarrow> Some k | _ \<Rightarrow> None)"

text \<open>How many of its own steps a job with a cap of \<open>n\<close> lines can still make.\<close>

definition steps_left :: "nat \<Rightarrow> phase \<Rightarrow> nat" where
  "steps_left n ph =
     (case ph of
        Starting \<Rightarrow> n + 4 | Streaming _ _ seq \<Rightarrow> n - seq + 3 | Sampling _ \<Rightarrow> n + 3
      | Ending _ \<Rightarrow> 2 | Returned \<Rightarrow> 1 | Gone \<Rightarrow> 0)"

lemma good_streaming:
  assumes "session_good arch s" "at_phase s k (Streaming n t seq)"
  shows "\<exists>argv. plan_of arch s k = Command argv n t"
  using assms by (auto simp: session_good_def job_good_def phase_good_def plan_of_def)

lemma good_sampling:
  assumes "session_good arch s" "at_phase s k (Sampling seq)"
  shows "\<exists>d t. plan_of arch s k = Sample d t"
  using assms by (fastforce simp: session_good_def job_good_def phase_good_def plan_of_def)

lemma phase_of_done [simp]: "j_phase (js[i := (js ! i)\<lparr>j_done := b\<rparr>] ! k) = j_phase (js ! k)"
  by (cases "i < length js"; cases "i = k") (simp_all add: not_less list_update_beyond)

text \<open>A step of job \<open>k\<close> uses up one of the steps it has left; another event leaves the phase of
  the job alone.\<close>

lemma capped_step:
  assumes step: "session_step arch parse s ev s'" and g: "session_good arch s"
    and k: "k < length (jobs s)"
    and cap: "plan_of arch s k = Command argv n t" "0 < n"
  shows "if event_job ev = Some k
     then steps_left n (j_phase (jobs s' ! k)) < steps_left n (j_phase (jobs s ! k))
     else j_phase (jobs s' ! k) = j_phase (jobs s ! k)"
  using step
proof cases
  case (recv data)
  then show ?thesis
    using k by (cases rule: dispatch_cases [of parse data s])
      (auto simp: event_job_def frame_simps job_op_defs nth_append nth_list_update)
next
  case (line_over i m u seq raw ok)
  then show ?thesis
    using k by (auto simp: event_job_def frame_simps job_op_defs nth_list_update steps_left_def)
next
  case (line i m u seq ok raw)
  have "i = k \<Longrightarrow> m = n" using good_streaming [OF g line(3)] cap(1) by auto
  with line k cap(2) show ?thesis
    by (auto simp: event_job_def frame_simps job_op_defs nth_list_update steps_left_def)
next
  case (start_command i argv' m u)
  then show ?thesis
    using k by (auto simp: event_job_def frame_simps job_op_defs nth_list_update steps_left_def)
next
  case (sample i seq ok payload)
  have "i \<noteq> k" using good_sampling [OF g sample(3)] cap(1) by auto
  with sample k show ?thesis
    by (auto simp: event_job_def frame_simps job_op_defs nth_list_update)
qed (use k in \<open>auto simp: event_job_def frame_simps job_op_defs nth_list_update steps_left_def\<close>)

section \<open>A concrete run\<close>

text \<open>A session under an allow-list with \<open>top\<close> only, in which the server asks for
  \<open>proc.top\<close>, twice under the same id.\<close>

definition demo_control :: ControlConfig where
  "demo_control = zero_config\<lparr>Control :=
     (Control zero_config)\<lparr>ctl_Enabled := True, Top := \<lparr>sv_Enabled = True\<rparr>\<rparr>\<rparr>"

definition demo_json :: "string \<Rightarrow> json" where
  "demo_json ty = JObj [(''type'', JStr ty), (''reqId'', JStr ''x''), (''verb'', JStr ''proc.top'')]"

definition demo_parse :: "string \<Rightarrow> json option" where
  "demo_parse data = (if data = ''req'' \<or> data = ''cancel'' then Some (demo_json data) else None)"

definition demo_req :: "string \<Rightarrow> reqFrame" where
  "demo_req ty = \<lparr>f_Type = ty, f_ReqID = ''x'', f_Verb = ''proc.top'', f_Target = [], f_Args = None\<rparr>"

definition demo_job :: "phase \<Rightarrow> job_state" where
  "demo_job ph = \<lparr>j_req = demo_req ''req'', j_job = procTopJob, j_phase = ph, j_done = False\<rparr>"

definition demo_argv :: "string list" where
  "demo_argv = [''ps'', ''-eo'', ''pid,user,pcpu,pmem,rss,comm'', ''--sort=-pcpu'']"

definition demo_session ::
  "(string \<times> nat) list \<Rightarrow> job_state list \<Rightarrow> (nat option \<times> out_frame) list
   \<Rightarrow> (nat \<times> string list) list \<Rightarrow> session" where
  "demo_session st js se rn = \<lparr>cfg = demo_control, streams = st, jobs = js, pending = [],
     sent = se, ran = rn, sock_closed = False\<rparr>"

lemmas demo_defs = demo_session_def demo_job_def demo_argv_def

lemma demo_unmarshal:
  "unmarshal_req demo_parse ''req'' = Some (demo_req ''req'')"
  "unmarshal_req demo_parse ''cancel'' = Some (demo_req ''cancel'')"
  by code_simp+

lemma demo_req_sel [simp]:
  "f_Type (demo_req ty) = ty" "f_ReqID (demo_req ty) = ''x''" "f_Verb (demo_req ty) = ''proc.top''"
  "f_Args (demo_req ty) = None"
  by (simp_all add: demo_req_def)

lemma demo_verb: "verb_job ''proc.top'' = Some procTopJob"
  by (simp add: verb_job_def)

lemma demo_plan: "procTopJob arch demo_control (demo_req ty) = Command demo_argv 21 None"
  by (simp add: procTopJob_def demo_control_def zero_config_def topEnabled_def argInt_def
      clampInt_def demo_argv_def)

lemma demo_dispatch:
  "dispatch demo_parse ''req'' (demo_session st js se rn) =
     demo_session (AList.update ''x'' (length js) st) (js @ [demo_job Starting]) se rn"
  by (simp add: dispatch_def demo_unmarshal handleReq_def demo_verb spawn_def addStream_def
      demo_defs)

definition demo_fr :: "nat option \<times> out_frame" where
  "demo_fr = (Some 0, ResFrame ''x'' 0 ''token=***'')"

lemma demo_redact: "redact ''token=abc'' = ''token=***''"
  by code_simp

lemma reach_mono:
  "reach arch parse ok c s \<Longrightarrow> (\<And>s ev. ok s ev \<Longrightarrow> ok' s ev) \<Longrightarrow> reach arch parse ok' c s"
  by (induction rule: reach.induct) (auto intro: reach.intros)

lemma demo_run1:
  "reach arch demo_parse (fresh_ids demo_parse) demo_control
     (demo_session [(''x'', 0)] [demo_job Starting] [] [])"
proof -
  have "new_session demo_control = demo_session [] [] [] []"
    by (simp add: new_session_def demo_session_def)
  then have "reach arch demo_parse (fresh_ids demo_parse) demo_control (demo_session [] [] [] [])"
    using reach.init by metis
  moreover have "fresh_ids demo_parse (demo_session [] [] [] []) (Recv ''req'')"
    by (simp add: fresh_ids_def demo_unmarshal demo_session_def)
  moreover have "session_step arch demo_parse (demo_session [] [] [] []) (Recv ''req'')
      (dispatch demo_parse ''req'' (demo_session [] [] [] []))"
    by (rule session_step.recv) (simp_all add: demo_session_def readLimitBytes_def)
  ultimately show ?thesis using reach.step demo_dispatch by fastforce
qed

lemma demo_run2:
  "reach arch demo_parse (fresh_ids demo_parse) demo_control
     (demo_session [(''x'', 0)] [demo_job (Streaming 21 None 0)] [] [(0, demo_argv)])"
proof (rule reach.step [OF demo_run1, where ev = "Start 0 True"])
  let ?s = "demo_session [(''x'', 0)] [demo_job Starting] [] []"
  have "session_step arch demo_parse ?s (Start 0 True)
      ((set_phase 0 (Streaming 21 None 0) ?s)\<lparr>ran := ran ?s @ [(0, demo_argv)]\<rparr>)"
    by (rule session_step.start_command)
      (simp_all add: demo_session_def demo_job_def plan_of_def demo_plan)
  then show "session_step arch demo_parse ?s (Start 0 True)
      (demo_session [(''x'', 0)] [demo_job (Streaming 21 None 0)] [] [(0, demo_argv)])"
    by (simp add: demo_session_def demo_job_def job_op_defs upd_job_def)
qed (simp add: fresh_ids_def)

lemma demo_run3:
  "reach arch demo_parse (fresh_ids demo_parse) demo_control
     (demo_session [(''x'', 0)] [demo_job (Streaming 21 None 1)] [demo_fr] [(0, demo_argv)])"
proof (rule reach.step [OF demo_run2, where ev = "Line 0 ''token=abc'' True"])
  let ?s = "demo_session [(''x'', 0)] [demo_job (Streaming 21 None 0)] [] [(0, demo_argv)]"
  have "session_step arch demo_parse ?s (Line 0 ''token=abc'' True)
      (write_frame (Some 0) (ResFrame (req_id ?s 0) 0 (redact ''token=abc'')) True
        (set_phase 0 (if True then Streaming 21 None (0 + 1) else Ending (EofFrame (req_id ?s 0))) ?s))"
    by (rule session_step.line)
      (simp_all add: demo_session_def demo_job_def lineBufferBytes_def)
  then show "session_step arch demo_parse ?s (Line 0 ''token=abc'' True)
      (demo_session [(''x'', 0)] [demo_job (Streaming 21 None 1)] [demo_fr] [(0, demo_argv)])"
    by (simp add: demo_session_def demo_job_def job_op_defs upd_job_def write_frame_def
        demo_redact demo_fr_def del: redact.simps)
qed (simp add: fresh_ids_def)

text \<open>The server cancels it.\<close>

lemma demo_run_cancelled:
  "reach arch demo_parse (fresh_ids demo_parse) demo_control
     (demo_session [(''x'', 0)] [(demo_job (Streaming 21 None 1))\<lparr>j_done := True\<rparr>] [demo_fr] [(0, demo_argv)])"
proof (rule reach.step [OF demo_run3, where ev = "Recv ''cancel''"])
  let ?s = "demo_session [(''x'', 0)] [demo_job (Streaming 21 None 1)] [demo_fr] [(0, demo_argv)]"
  show "fresh_ids demo_parse ?s (Recv ''cancel'')"
    by (simp add: fresh_ids_def demo_unmarshal)
  have "session_step arch demo_parse ?s (Recv ''cancel'') (dispatch demo_parse ''cancel'' ?s)"
    by (rule session_step.recv) (simp_all add: demo_session_def readLimitBytes_def)
  then show "session_step arch demo_parse ?s (Recv ''cancel'')
      (demo_session [(''x'', 0)] [(demo_job (Streaming 21 None 1))\<lparr>j_done := True\<rparr>] [demo_fr] [(0, demo_argv)])"
    by (simp add: dispatch_def demo_unmarshal cancelStream_def demo_session_def cancel_job_def upd_job_def)
qed

text \<open>The second request under the same id, and the end of the first job.\<close>

lemma demo_run4:
  "reach arch demo_parse (\<lambda>_ _. True) demo_control
     (demo_session [(''x'', 1)] [demo_job (Streaming 21 None 1), demo_job Starting] [demo_fr]
        [(0, demo_argv)])"
proof (rule reach.step [OF reach_mono [OF demo_run3], where ev = "Recv ''req''"])
  let ?s = "demo_session [(''x'', 0)] [demo_job (Streaming 21 None 1)] [demo_fr] [(0, demo_argv)]"
  have "session_step arch demo_parse ?s (Recv ''req'') (dispatch demo_parse ''req'' ?s)"
    by (rule session_step.recv) (simp_all add: demo_session_def readLimitBytes_def)
  then show "session_step arch demo_parse ?s (Recv ''req'')
      (demo_session [(''x'', 1)] [demo_job (Streaming 21 None 1), demo_job Starting] [demo_fr]
        [(0, demo_argv)])"
    by (simp add: demo_dispatch)
qed simp_all

lemma demo_run5:
  "reach arch demo_parse (\<lambda>_ _. True) demo_control
     (demo_session [(''x'', 1)] [demo_job Returned, demo_job Starting] [demo_fr]
        [(0, demo_argv)])"
proof -
  let ?s = "demo_session [(''x'', 1)] [demo_job (Streaming 21 None 1), demo_job Starting] [demo_fr]
      [(0, demo_argv)]"
  let ?s1 = "demo_session [(''x'', 1)] [demo_job (Ending (EofFrame ''x'')), demo_job Starting]
      [demo_fr] [(0, demo_argv)]"
  have "session_step arch demo_parse ?s (StreamEnd 0) (set_phase 0 (Ending (EofFrame (req_id ?s 0))) ?s)"
    by (rule session_step.stream_end) (simp add: demo_session_def demo_job_def)
  then have 1: "session_step arch demo_parse ?s (StreamEnd 0) ?s1"
    by (simp add: demo_session_def demo_job_def job_op_defs upd_job_def)
  have "session_step arch demo_parse ?s1 (Final 0 False)
      (write_frame (Some 0) (EofFrame ''x'') False (set_phase 0 Returned ?s1))"
    by (rule session_step.final) (simp_all add: demo_session_def demo_job_def)
  then have 2: "session_step arch demo_parse ?s1 (Final 0 False)
      (demo_session [(''x'', 1)] [demo_job Returned, demo_job Starting] [demo_fr] [(0, demo_argv)])"
    by (simp add: demo_session_def demo_job_def job_op_defs upd_job_def write_frame_def)
  show ?thesis
    by (rule reach.step [OF reach.step [OF demo_run4 _ 1] _ 2]) simp_all
qed

section \<open>Properties\<close>

text \<open>C1: in every reachable state of a session, whatever frames the server sends and however
  the events interleave, every process that was started has a command line that the allow-list
  permits.\<close>

theorem only_permitted_commands:
  assumes "reach arch parse ok c s" and "(k, argv) \<in> set (ran s)"
  shows "permitted c argv"
  using reach_good [OF assms(1)] reach_cfg [OF assms(1)] assms(2)
  by (auto simp: session_good_def)

theorem only_permitted_commands_witness:
  "permitted demo_control demo_argv"
  using only_permitted_commands [OF demo_run3, of 0 demo_argv] by (simp add: demo_session_def)

text \<open>C3: the frames of a job are its data frames, numbered from 0 in the order of sending and
  tagged with its request id, followed by at most one terminal frame (end of stream or error),
  which is sent only when the job is over.\<close>

theorem stream_protocol:
  assumes "reach arch parse ok c s" and "k < length (jobs s)"
  shows "\<exists>ds ts. frames_of k s = data_frames (req_id s k) ds @ ts \<and>
    (ts = [] \<or> (\<exists>fr. ts = [fr] \<and> terminal (req_id s k) fr \<and> j_phase (jobs s ! k) \<in> {Returned, Gone}))"
proof -
  obtain ds ts where f: "frames_of k s = data_frames (req_id s k) ds @ ts"
      "phase_good (plan_of arch s k) (req_id s k) (j_phase (jobs s ! k)) ds ts"
    using job_good_at [OF reach_good [OF assms(1)] assms(2)]
    by (auto simp: job_good_def plan_of_def)
  then show ?thesis
    by (intro exI [of _ ds] exI [of _ ts], cases "j_phase (jobs s ! k)")
      (auto simp: phase_good_def)
qed

theorem stream_protocol_witness:
  "\<exists>ds ts. frames_of 0 (demo_session [(''x'', 0)] [demo_job (Streaming 21 None 1)] [demo_fr]
      [(0, demo_argv)]) = data_frames ''x'' ds @ ts \<and> ts = []"
  using stream_protocol [OF demo_run3, of 0] by (auto simp: demo_session_def demo_job_def)

text \<open>C4: every data frame of a command is masked, so masking it again changes nothing, and a
  command with a cap of \<open>n\<close> lines sends at most \<open>n\<close> data frames.\<close>

theorem command_frames_masked_and_capped:
  assumes "reach arch parse ok c s" "k < length (jobs s)"
    and "plan_of arch s k = Command argv n t"
  shows "(\<forall>rid i d. ResFrame rid i d \<in> set (frames_of k s) \<longrightarrow> redact d = d) \<and>
    (0 < n \<longrightarrow> length (filter (\<lambda>f. case f of ResFrame _ _ _ \<Rightarrow> True | _ \<Rightarrow> False) (frames_of k s)) \<le> n)"
proof -
  obtain ds ts where f: "frames_of k s = data_frames (req_id s k) ds @ ts"
      "phase_good (plan_of arch s k) (req_id s k) (j_phase (jobs s ! k)) ds ts"
      "plan_good (plan_of arch s k) ds"
    using job_good_at [OF reach_good [OF assms(1)] assms(2)]
    by (auto simp: job_good_def plan_of_def)
  have ts: "\<forall>fr\<in>set ts. terminal (req_id s k) fr"
    using f(2) by (auto simp: phase_good_def split: phase.splits)
  then have "filter (\<lambda>f. case f of ResFrame _ _ _ \<Rightarrow> True | _ \<Rightarrow> False) ts = []"
    by (auto simp: filter_empty_conv terminal_def split: out_frame.splits)
  moreover have "ResFrame rid i d \<in> set ts \<Longrightarrow> False" for rid i d
    using ts by (auto simp: terminal_def)
  ultimately show ?thesis
    using f(1,3) assms(3) le_trans [OF length_filter_le, of "data_frames (req_id s k) ds"]
    by (auto simp: plan_good_def dest: in_data_frames)
qed

theorem command_frames_masked_and_capped_witness:
  "redact ''token=***'' = ''token=***''"
  using command_frames_masked_and_capped [OF demo_run3, of 0 Amd64 demo_argv 21 None]
  by (auto simp: demo_session_def demo_job_def plan_of_def demo_plan frames_of_def demo_fr_def
      simp del: redact.simps)

text \<open>C7: as long as the server does not ask for anything under the id of a request in flight, the
  registry is exact, also after any number of cancel frames: an id is registered with a job if and
  only if that job is live, so a cancel frame for a live request always finds its job.\<close>

theorem registry_exact:
  assumes "reach arch parse (fresh_ids parse) c s"
  shows "map_of (streams s) rid = Some k \<longleftrightarrow>
    k < length (jobs s) \<and> req_id s k = rid \<and> j_phase (jobs s ! k) \<noteq> Gone"
  using reach_tracks [OF assms] in_live_jobs [of "(rid, k)" "jobs s"]
  by (auto simp: tracks_def)

theorem registry_exact_witness:
  "map_of (streams (demo_session [(''x'', 0)] [(demo_job (Streaming 21 None 1))\<lparr>j_done := True\<rparr>] [demo_fr]
      [(0, demo_argv)])) ''x'' = Some 0"
  using registry_exact [OF demo_run_cancelled, of "''x''" 0] by (simp add: demo_session_def demo_job_def)

text \<open>C8: in a session in which the server does not ask for anything under the id of a request in flight,
  whatever it cancelled before, a cancel frame for a live request ends the context of exactly the job
  of that request, and the job stays registered until it has ended.\<close>

theorem cancel_hits_its_job:
  assumes "reach arch parse (fresh_ids parse) c s"
    and "k < length (jobs s)" "j_phase (jobs s ! k) \<noteq> Gone"
    and "unmarshal_req parse data = Some f" "f_Type f = ''cancel''" "f_ReqID f = req_id s k"
  shows "j_done (jobs (dispatch parse data s) ! k) \<and>
    (\<forall>i. i \<noteq> k \<longrightarrow> jobs (dispatch parse data s) ! i = jobs s ! i) \<and>
    streams (dispatch parse data s) = streams s"
proof -
  have "map_of (streams s) (f_ReqID f) = Some k"
    using reach_tracks [OF assms(1)] in_live_jobs [of "(f_ReqID f, k)" "jobs s"] assms(2-6)
    by (auto simp: tracks_def)
  with assms show ?thesis
    by (auto simp: dispatch_def cancelStream_def frame_simps job_op_defs)
qed

theorem cancel_hits_its_job_witness:
  "j_done (jobs (dispatch demo_parse ''cancel'' (demo_session [(''x'', 0)]
      [demo_job (Streaming 21 None 1)] [demo_fr] [(0, demo_argv)])) ! 0)"
  using cancel_hits_its_job [OF demo_run3, of 0 "''cancel''" "demo_req ''cancel''"]
  by (simp add: demo_unmarshal demo_session_def demo_job_def)

text \<open>C18: with a request id used twice, the end of one of the two jobs unregisters the other for good:
  that one goes on as it was, and in no later state of the session, whatever happens in between, does
  a frame of the server, in particular a cancel frame for its id, change it.\<close>

theorem duplicate_id_uncancellable:
  assumes "reach arch parse ok c s" "session_step arch parse s (Leave i) s'"
    and "k < length (jobs s)" "i \<noteq> k" "req_id s i = req_id s k"
    and "session_run arch parse s' s''"
  shows "jobs s' ! k = jobs s ! k \<and> jobs (dispatch parse data s'') ! k = jobs s'' ! k"
  using assms(2)
proof cases
  case leave
  have "map_of (streams s') rid \<noteq> Some k" for rid
    using leave assms(5) registered_own [OF assms(1)] by (auto simp: frame_simps job_op_defs map_of_delete)
  then have "forgotten k s'"
    using step_keeps_req [OF assms(2,3)] by (simp add: forgotten_def)
  moreover have "jobs s' ! k = jobs s ! k"
    using leave assms(4) by (simp add: frame_simps job_op_defs)
  ultimately show ?thesis using forgotten_untouched forgotten_run [OF assms(6)] by blast
qed

text \<open>A third request under the id: a cancel frame reaches that one only.\<close>

theorem duplicate_id_uncancellable_witness:
  "let s'' = demo_session [(''x'', 2)] [(demo_job Gone)\<lparr>j_done := True\<rparr>, demo_job Starting, demo_job Starting]
       [demo_fr] [(0, demo_argv)]
   in jobs (dispatch demo_parse ''cancel'' s'') ! 1 = demo_job Starting"
proof -
  let ?s = "demo_session [(''x'', 1)] [demo_job Returned, demo_job Starting] [demo_fr]
      [(0, demo_argv)]"
  let ?s' = "demo_session [] [(demo_job Gone)\<lparr>j_done := True\<rparr>, demo_job Starting] [demo_fr]
      [(0, demo_argv)]"
  let ?s'' = "demo_session [(''x'', 2)] [(demo_job Gone)\<lparr>j_done := True\<rparr>, demo_job Starting, demo_job Starting]
      [demo_fr] [(0, demo_argv)]"
  have "session_step Amd64 demo_parse ?s (Leave 0)
      (removeStream (req_id ?s 0) (set_phase 0 Gone (cancel_job 0 ?s)))"
    by (rule session_step.leave) (simp add: demo_session_def demo_job_def)
  then have step: "session_step Amd64 demo_parse ?s (Leave 0) ?s'"
    by (simp add: demo_session_def demo_job_def job_op_defs upd_job_def removeStream_def)
  have "session_step Amd64 demo_parse ?s' (Recv ''req'') (dispatch demo_parse ''req'' ?s')"
    by (rule session_step.recv) (simp_all add: demo_session_def readLimitBytes_def)
  then have "session_step Amd64 demo_parse ?s' (Recv ''req'') ?s''"
    by (simp add: demo_dispatch numeral_2_eq_2)
  then have "session_run Amd64 demo_parse ?s' ?s''"
    unfolding session_run_def by (intro r_into_rtranclp) blast
  then have "jobs (dispatch demo_parse ''cancel'' ?s'') ! 1 = jobs ?s'' ! 1"
    using duplicate_id_uncancellable [OF demo_run5 step, of 1 ?s'' "''cancel''"]
    by (simp add: demo_session_def demo_job_def)
  then show ?thesis by (simp add: Let_def) (simp add: demo_session_def)
qed

text \<open>C13: a capped command cannot run forever: each of the job's own steps uses up one of at
  most \<open>n + 4\<close>, and no other event gives any back.\<close>

theorem capped_job_terminates:
  assumes "reach arch parse ok c s" "session_step arch parse s ev s'"
    and "k < length (jobs s)" "plan_of arch s k = Command argv n t" "0 < n"
  shows "(if event_job ev = Some k
      then steps_left n (j_phase (jobs s' ! k)) < steps_left n (j_phase (jobs s ! k))
      else j_phase (jobs s' ! k) = j_phase (jobs s ! k)) \<and>
    steps_left n (j_phase (jobs s ! k)) \<le> n + 4"
  using capped_step [OF assms(2) reach_good [OF assms(1)] assms(3-5)]
  by (auto simp: steps_left_def split: phase.splits)

theorem capped_job_terminates_witness:
  "steps_left 21 (Ending (EofFrame ''x'')) < steps_left 21 (Streaming 21 None 1)"
proof -
  let ?s = "demo_session [(''x'', 0)] [demo_job (Streaming 21 None 1)] [demo_fr] [(0, demo_argv)]"
  have "session_step Amd64 demo_parse ?s (StreamEnd 0)
      (set_phase 0 (Ending (EofFrame (req_id ?s 0))) ?s)"
    by (rule session_step.stream_end) (simp add: demo_session_def demo_job_def)
  from capped_job_terminates [OF demo_run3 this, of 0 demo_argv 21 None] show ?thesis
    by (simp add: demo_session_def demo_job_def plan_of_def demo_plan event_job_def job_op_defs
        upd_job_def)
qed

end
