(* ===== verification/Agent_Config.thy ===== *)
theory Agent_Config
  imports Collector_Config
begin

text \<open>
  The agent's own configuration (config/config.go): the JSON file, the environment overrides
  and the validation. \<open>env\<close> is \<open>os.Getenv\<close> (the empty string when unset) and the lexical
  layer of JSON is the parameter \<open>parse\<close>.
\<close>

section \<open>The configuration\<close>

definition defaultConfigPath :: string where
  "defaultConfigPath = ''/etc/iclic-host-agent/config.json''"

definition defaultIntervalSec :: int where "defaultIntervalSec = 60"

definition envConfigPath :: string where "envConfigPath = ''ICLIC_AGENT_CONFIG''"
definition envICLICUrl :: string where "envICLICUrl = ''ICLIC_URL''"
definition envServerID :: string where "envServerID = ''ICLIC_SERVER_ID''"
definition envAgentKid :: string where "envAgentKid = ''ICLIC_AGENT_KID''"
definition envAgentSecret :: string where "envAgentSecret = ''ICLIC_AGENT_SECRET''"
definition envHeartbeatIntervalSecs :: string where
  "envHeartbeatIntervalSecs = ''ICLIC_HEARTBEAT_INTERVAL_SECS''"

record Config =
  ICLICUrl :: string
  ServerID :: string
  AgentKid :: string
  AgentSecret :: string
  HeartbeatIntervalSeconds :: int

datatype config_error =
    ParseError string
  | ReadError string io_err
  | InvalidInterval string
  | MissingField string string
  | IntervalTooSmall int

section \<open>Decoding the file\<close>

definition config_fields :: "string list" where
  "config_fields = [''iclic_url'', ''server_id'', ''agent_kid'', ''agent_secret'',
     ''heartbeat_interval_seconds'']"

text \<open>A member of the wrong type is an error that is reported after the whole object has been
  read; null leaves a field alone; only an integer literal in range decodes into an \<open>int\<close>.\<close>

definition config_string ::
  "json \<Rightarrow> (string \<Rightarrow> Config \<Rightarrow> Config) \<Rightarrow> Config \<times> bool \<Rightarrow> Config \<times> bool" where
  "config_string j upd cb =
     (case j of JStr s \<Rightarrow> (upd s (fst cb), snd cb) | JNull \<Rightarrow> cb | _ \<Rightarrow> (fst cb, False))"

definition config_int :: "json \<Rightarrow> Config \<times> bool \<Rightarrow> Config \<times> bool" where
  "config_int j cb =
     (case j of
        JInt i \<Rightarrow>
          if min_int64 \<le> i \<and> i \<le> max_int64
          then ((fst cb)\<lparr>HeartbeatIntervalSeconds := i\<rparr>, snd cb) else (fst cb, False)
      | JNull \<Rightarrow> cb
      | _ \<Rightarrow> (fst cb, False))"

definition config_member :: "Config \<times> bool \<Rightarrow> string \<times> json \<Rightarrow> Config \<times> bool" where
  "config_member cb m =
     (case json_field config_fields (fst m) of
        None \<Rightarrow> cb
      | Some n \<Rightarrow>
          if n = ''iclic_url'' then config_string (snd m) (\<lambda>s c. c\<lparr>ICLICUrl := s\<rparr>) cb
          else if n = ''server_id'' then config_string (snd m) (\<lambda>s c. c\<lparr>ServerID := s\<rparr>) cb
          else if n = ''agent_kid'' then config_string (snd m) (\<lambda>s c. c\<lparr>AgentKid := s\<rparr>) cb
          else if n = ''agent_secret'' then config_string (snd m) (\<lambda>s c. c\<lparr>AgentSecret := s\<rparr>) cb
          else config_int (snd m) cb)"

definition unmarshal_config :: "(string \<Rightarrow> json option) \<Rightarrow> string \<Rightarrow> Config \<Rightarrow> Config option" where
  "unmarshal_config parse data cfg =
     (case parse data of
        None \<Rightarrow> None
      | Some JNull \<Rightarrow> Some cfg
      | Some (JObj es) \<Rightarrow>
          (let cb = foldl config_member (cfg, True) es in if snd cb then Some (fst cb) else None)
      | Some _ \<Rightarrow> None)"

section \<open>Loading\<close>

definition validate :: "Config \<Rightarrow> config_error option" where
  "validate c =
     (if ICLICUrl c = [] then Some (MissingField ''iclic_url'' envICLICUrl)
      else if ServerID c = [] then Some (MissingField ''server_id'' envServerID)
      else if AgentKid c = [] then Some (MissingField ''agent_kid'' envAgentKid)
      else if AgentSecret c = [] then Some (MissingField ''agent_secret'' envAgentSecret)
      else if HeartbeatIntervalSeconds c < 10
        then Some (IntervalTooSmall (HeartbeatIntervalSeconds c))
      else None)"

definition default_config :: Config where
  "default_config = \<lparr>ICLICUrl = [], ServerID = [], AgentKid = [], AgentSecret = [],
     HeartbeatIntervalSeconds = defaultIntervalSec\<rparr>"

text \<open>What the file contributes: an absent file nothing, an unreadable or malformed one an
  error.\<close>

definition config_path :: "(string \<Rightarrow> string) \<Rightarrow> string" where
  "config_path env = (if env envConfigPath = [] then defaultConfigPath else env envConfigPath)"

definition file_config ::
  "(string \<Rightarrow> string) \<Rightarrow> filesys \<Rightarrow> (string \<Rightarrow> json option) \<Rightarrow> config_error + Config" where
  "file_config env fs parse =
     (case fs_file fs (config_path env) of
        Inr data \<Rightarrow>
          (case unmarshal_config parse data default_config of
             None \<Rightarrow> Inl (ParseError (config_path env)) | Some c \<Rightarrow> Inr c)
      | Inl NotExist \<Rightarrow> Inr default_config
      | Inl (IoErr e) \<Rightarrow> Inl (ReadError (config_path env) (IoErr e)))"

definition Load ::
  "(string \<Rightarrow> string) \<Rightarrow> filesys \<Rightarrow> (string \<Rightarrow> json option) \<Rightarrow> config_error + Config" where
  "Load env fs parse =
     result_bind (file_config env fs parse) (\<lambda>c0.
       let c1 = (if env envICLICUrl \<noteq> [] then c0\<lparr>ICLICUrl := env envICLICUrl\<rparr> else c0);
           c2 = (if env envServerID \<noteq> [] then c1\<lparr>ServerID := env envServerID\<rparr> else c1);
           c3 = (if env envAgentKid \<noteq> [] then c2\<lparr>AgentKid := env envAgentKid\<rparr> else c2);
           c4 = (if env envAgentSecret \<noteq> [] then c3\<lparr>AgentSecret := env envAgentSecret\<rparr> else c3)
       in result_bind
            (if env envHeartbeatIntervalSecs \<noteq> [] then
               (case parse_int (env envHeartbeatIntervalSecs) of
                  None \<Rightarrow> Inl (InvalidInterval (env envHeartbeatIntervalSecs))
                | Some n \<Rightarrow> Inr (c4\<lparr>HeartbeatIntervalSeconds := n\<rparr>))
             else Inr c4)
            (\<lambda>c5. case validate c5 of Some e \<Rightarrow> Inl e | None \<Rightarrow> Inr c5))"

section \<open>Properties\<close>

lemma validate_None_iff:
  "validate c = None \<longleftrightarrow>
     ICLICUrl c \<noteq> [] \<and> ServerID c \<noteq> [] \<and> AgentKid c \<noteq> [] \<and> AgentSecret c \<noteq> [] \<and>
     10 \<le> HeartbeatIntervalSeconds c"
  by (simp add: validate_def)

text \<open>A loaded configuration is complete: every required field is set and the interval is
  at least ten seconds.\<close>

lemma Load_valid:
  "Load env fs parse = Inr c \<Longrightarrow>
     ICLICUrl c \<noteq> [] \<and> ServerID c \<noteq> [] \<and> AgentKid c \<noteq> [] \<and> AgentSecret c \<noteq> [] \<and>
     10 \<le> HeartbeatIntervalSeconds c"
  unfolding validate_None_iff [symmetric]
  by (auto simp: Load_def Let_def result_bind_Inr_iff split: option.splits)

text \<open>The environment wins over the file, field by field, and the file over the default
  interval.\<close>

lemma Load_precedence:
  assumes "Load env fs parse = Inr c" "file_config env fs parse = Inr c0"
  shows "ICLICUrl c = (if env envICLICUrl \<noteq> [] then env envICLICUrl else ICLICUrl c0) \<and>
    ServerID c = (if env envServerID \<noteq> [] then env envServerID else ServerID c0) \<and>
    AgentKid c = (if env envAgentKid \<noteq> [] then env envAgentKid else AgentKid c0) \<and>
    AgentSecret c = (if env envAgentSecret \<noteq> [] then env envAgentSecret else AgentSecret c0) \<and>
    (if env envHeartbeatIntervalSecs \<noteq> []
     then parse_int (env envHeartbeatIntervalSecs) = Some (HeartbeatIntervalSeconds c)
     else HeartbeatIntervalSeconds c = HeartbeatIntervalSeconds c0)"
  using assms
  by (auto simp: Load_def Let_def split: option.splits if_splits)

section \<open>A concrete host\<close>

definition demo_env :: "string \<Rightarrow> string" where
  "demo_env v =
     (if v = envICLICUrl then ''https://iclic'' else if v = envHeartbeatIntervalSecs then ''30''
      else [])"

definition demo_config_fs :: filesys where
  "demo_config_fs = \<lparr>fs_dir = (\<lambda>_. DirNotExist), fs_file = (\<lambda>p.
     if p = defaultConfigPath then Inr ''config'' else Inl NotExist)\<rparr>"

definition demo_config_json :: "string \<Rightarrow> json option" where
  "demo_config_json data =
     Some (JObj [(''iclic_url'', JStr ''http://old''), (''server_id'', JStr ''s1''),
                 (''agent_kid'', JStr ''kid''), (''agent_secret'', JStr ''sec''),
                 (''heartbeat_interval_seconds'', JInt 20)])"

definition demo_config :: Config where
  "demo_config = \<lparr>ICLICUrl = ''https://iclic'', ServerID = ''s1'', AgentKid = ''kid'',
     AgentSecret = ''sec'', HeartbeatIntervalSeconds = 30\<rparr>"

lemmas env_names = envConfigPath_def envICLICUrl_def envServerID_def envAgentKid_def
  envAgentSecret_def envHeartbeatIntervalSecs_def

lemma demo_file_config:
  "file_config demo_env demo_config_fs demo_config_json =
     Inr (demo_config\<lparr>ICLICUrl := ''http://old'', HeartbeatIntervalSeconds := 20\<rparr>)"
  by (simp add: file_config_def config_path_def demo_env_def env_names demo_config_fs_def
      unmarshal_config_def demo_config_json_def config_member_def config_fields_def
      config_string_def config_int_def min_int64_def max_int64_def Let_def default_config_def
      demo_config_def)

lemma demo_interval: "parse_int ''30'' = Some 30"
  by (simp add: parse_int_def parse_uint_def is_digit_def)

lemma demo_Load: "Load demo_env demo_config_fs demo_config_json = Inr demo_config"
  unfolding Load_def demo_file_config
  by (simp add: Let_def demo_env_def env_names demo_interval validate_def demo_config_def)

lemma Load_valid_witness:
  "10 \<le> HeartbeatIntervalSeconds demo_config \<and> AgentKid demo_config \<noteq> []"
  using Load_valid [OF demo_Load] by blast

lemma Load_precedence_witness:
  "ICLICUrl demo_config = ''https://iclic'' \<and> ServerID demo_config = ''s1'' \<and>
   parse_int ''30'' = Some (HeartbeatIntervalSeconds demo_config)"
  using Load_precedence [OF demo_Load demo_file_config]
  by (simp add: demo_env_def env_names demo_config_def)

end
