(* ===== verification/Control_Channel.thy ===== *)
theory Control_Channel
  imports Control_Session Agent_Config
begin

text \<open>
  Keeping the control channel up (control/control.go): the reconnect loop with its backoff, the
  connection attempt that loads the allow-list and opens a session, and the address it dials.
\<close>

section \<open>The reconnect loop\<close>

text \<open>Durations in seconds.\<close>

definition maxBackoff :: nat where "maxBackoff = 30"

definition next_backoff :: "nat \<Rightarrow> nat" where
  "next_backoff b = (if 2 * b > maxBackoff then maxBackoff else 2 * b)"

text \<open>One round as the environment decides it: whether the process is told to stop before the
  attempt, whether the attempt ended with an error, and whether the stop comes by the end of
  the attempt or during the wait.\<close>

record round =
  stop_before :: bool
  failed :: bool
  stop_after :: bool
  stop_waiting :: bool

datatype channel_action = Connect | Warn nat | Wait nat | Return

text \<open>\<open>RunControlChannel\<close>, over the rounds of a run.\<close>

fun RunControlChannel :: "nat \<Rightarrow> round list \<Rightarrow> channel_action list" where
  "RunControlChannel backoff [] = []"
| "RunControlChannel backoff (r # rs) =
     (if stop_before r then [Return]
      else Connect #
        (if stop_after r then [Return]
         else (if failed r then [Warn backoff] else []) @
           Wait backoff #
             (if stop_waiting r then [Return]
              else RunControlChannel (next_backoff backoff) rs)))"

definition bearer :: "Config \<Rightarrow> string" where
  "bearer c = AgentKid c @ ''.'' @ AgentSecret c"

section \<open>One attempt\<close>

datatype connect_result = DialFailed | HelloFailed hello | Serving hello session

text \<open>\<open>connectOnce\<close>: \<open>dialled\<close> is whether the dial succeeds, \<open>hello_sent\<close> whether the hello
  frame could be written. The allow-list is read again for each connection.\<close>

definition connectOnce ::
  "goarch \<Rightarrow> (string \<Rightarrow> string) \<Rightarrow> filesys \<Rightarrow> (string \<Rightarrow> ControlConfig option)
   \<Rightarrow> (string \<Rightarrow> serviceDef option) \<Rightarrow> string \<Rightarrow> bool \<Rightarrow> bool \<Rightarrow> connect_result" where
  "connectOnce arch env fs yaml svc_yaml agentVersion dialled hello_sent =
     (if \<not> dialled then DialFailed
      else let c = loadControlConfig env fs yaml svc_yaml;
               h = helloFrame arch c agentVersion
           in if hello_sent then Serving h (new_session c) else HelloFailed h)"

section \<open>Facts about the loop\<close>

definition waits :: "channel_action list \<Rightarrow> nat list" where
  "waits as = List.map_filter (\<lambda>a. case a of Wait b \<Rightarrow> Some b | _ \<Rightarrow> None) as"

lemma waits_simps [simp]:
  "waits [] = []" "waits (Connect # as) = waits as" "waits (Warn b # as) = waits as"
  "waits (Return # as) = waits as" "waits (Wait b # as) = b # waits as"
  by (simp_all add: waits_def List.map_filter_simps)

lemma next_backoff_min: "next_backoff (min maxBackoff b) = min maxBackoff (2 * b)"
  by (auto simp: next_backoff_def min_def maxBackoff_def)

lemma waits_min:
  "waits (RunControlChannel (min maxBackoff b) rs) =
     map (\<lambda>i. min maxBackoff (b * 2 ^ i))
       [0..<length (waits (RunControlChannel (min maxBackoff b) rs))]"
proof (induction rs arbitrary: b)
  case (Cons r rs)
  show ?case
  proof (cases "stop_before r \<or> stop_after r \<or> stop_waiting r")
    case True
    then show ?thesis by auto
  next
    case False
    then have w: "waits (RunControlChannel (min maxBackoff b) (r # rs)) =
        min maxBackoff b # waits (RunControlChannel (min maxBackoff (2 * b)) rs)"
      by (simp add: next_backoff_min)
    show ?thesis
      unfolding w by (subst Cons.IH)
        (simp add: map_upt_Suc mult.assoc del: upt_Suc, simp add: mult.left_commute mult.assoc)
  qed
qed simp

section \<open>Properties\<close>

text \<open>The waits between connection attempts are 1, 2, 4, 8, 16 and then 30 seconds, each
  attempt counting, whether it failed or ended an established session.\<close>

lemma backoff_schedule:
  "waits (RunControlChannel 1 rs) =
     map (\<lambda>i. min 30 (2 ^ i)) [0..<length (waits (RunControlChannel 1 rs))]"
  using waits_min [of 1 rs] by (simp add: maxBackoff_def)

text \<open>The loop returns only when the process is told to stop: a run whose rounds never
  say so connects once per round and keeps waiting.\<close>

lemma channel_stays_up:
  assumes "\<forall>r\<in>set rs. \<not> stop_before r \<and> \<not> stop_after r \<and> \<not> stop_waiting r"
  shows "Return \<notin> set (RunControlChannel b rs) \<and>
    length (filter (\<lambda>a. a = Connect) (RunControlChannel b rs)) = length rs"
  using assms by (induction rs arbitrary: b) auto

lemma channel_stays_up_witness:
  "length (filter (\<lambda>a. a = Connect) (RunControlChannel 1
     (replicate 7 \<lparr>stop_before = False, failed = True, stop_after = False, stop_waiting = False\<rparr>))) = 7"
  using channel_stays_up [of "replicate 7 \<lparr>stop_before = False, failed = True, stop_after = False,
      stop_waiting = False\<rparr>" 1] by simp

text \<open>The channel stays on the scheme family of the configured address: an \<open>https\<close> base is
  dialled over \<open>wss\<close>, an \<open>http\<close> base over \<open>ws\<close>, on the same host, whatever slashes the base
  ends with.\<close>

lemma controlURL_schemes:
  assumes "host \<noteq> []" "last host \<noteq> CHR ''/''"
  shows "controlURL (''https://'' @ host @ replicate n CHR ''/'') =
      ''wss://'' @ host @ ''/api/v1/server/control'' \<and>
    controlURL (''http://'' @ host @ replicate n CHR ''/'') =
      ''ws://'' @ host @ ''/api/v1/server/control''"
proof -
  obtain h c where host: "host = h @ [c]" "c \<noteq> CHR ''/''"
    using assms by (cases host rule: rev_cases) auto
  have t: "trim_right (p @ host @ replicate n CHR ''/'') ''/'' = p @ host" for p
    unfolding host(1) by (simp add: trim_right_def host(2) dropWhile_append2 dropWhile_append)
  show ?thesis
    using t [of "''wss://''"] t [of "''ws://''"]
    by (simp add: controlURL_def has_prefix_def trim_prefix_def)
qed

lemma controlURL_schemes_witness:
  "controlURL ''https://iclic.example//'' = ''wss://iclic.example/api/v1/server/control''"
  using controlURL_schemes [of "''iclic.example''" 2] by (simp add: numeral_2_eq_2)

text \<open>End to end, a host whose allow-list is missing, unreadable or malformed connects and
  says hello with no verbs, and no run of the session ever starts a process.\<close>

lemma closed_host_runs_nothing:
  assumes "\<And>data. fs_file fs (if env envControlConfigPath = [] then defaultControlConfigPath
      else env envControlConfigPath) = Inr data \<Longrightarrow> yaml data = None"
    and "connectOnce arch env fs yaml svc_yaml agentVersion True True = Serving h s0"
    and "reach arch parse ok (cfg s0) s"
  shows "cap_Verbs (h_Capabilities h) = [] \<and> cap_Logs (h_Capabilities h) = None \<and> ran s = []"
proof -
  have z: "loadControlConfig env fs yaml svc_yaml = zero_config"
    using assms(1) by (auto simp: loadControlConfig_def Let_def split: sum.split)
  then have h: "h = helloFrame arch zero_config agentVersion" "cfg s0 = zero_config"
    using assms(2) by (auto simp: connectOnce_def new_session_def Let_def)
  have "\<not> permitted zero_config argv" for argv
    using permitted_enabled [of zero_config argv] by auto
  then have "ran s = []"
    using reach_good [OF assms(3)] reach_cfg [OF assms(3)] h(2)
    by (cases "ran s") (auto simp: session_good_def)
  then show ?thesis by (simp add: h(1) helloFrame_def verbs_disabled logsEnabled_def)
qed

lemma closed_host_runs_nothing_witness:
  "\<exists>h. connectOnce Arm64 (\<lambda>_. []) (demo_fs []) (\<lambda>_. None) (\<lambda>_. None) ''1'' True True =
     Serving h (new_session zero_config) \<and> cap_Verbs (h_Capabilities h) = []"
proof -
  have l: "loadControlConfig (\<lambda>_. []) (demo_fs []) (\<lambda>_. None) (\<lambda>_. None) = zero_config"
    by (simp add: loadControlConfig_def Let_def demo_fs_def)
  have c: "connectOnce Arm64 (\<lambda>_. []) (demo_fs []) (\<lambda>_. None) (\<lambda>_. None) ''1'' True True =
      Serving (helloFrame Arm64 zero_config ''1'') (new_session zero_config)"
    by (simp add: connectOnce_def l Let_def)
  have r: "reach Arm64 (\<lambda>_. None) (\<lambda>_ _. True) (cfg (new_session zero_config)) (new_session zero_config)"
    by (simp add: new_session_def) (metis new_session_def reach.init)
  show ?thesis
    using closed_host_runs_nothing [OF _ c r] c by auto
qed

end
