(* ===== verification/Stream_Pipe.thy ===== *)
theory Stream_Pipe
  imports Control_Session
begin

text \<open>
  The goroutines behind one stream of the control channel (\<open>streamCommand\<close> in
  control/control.go). The output of the command goes through two pipes: the kernel's, from
  which \<open>os/exec\<close> copies into the \<open>io.Pipe\<close> that the scanner reads. A write to an \<open>io.Pipe\<close>
  returns when a reader took all its bytes or an end was closed; \<open>cmd.Wait\<close> returns when the
  process is gone and the copier is done; only then is the writing end closed. The reading end
  never is.
\<close>

section \<open>State and steps\<close>

text \<open>The scanner reads, has seen the end, or left the loop early. The copier waits for the
  kernel's pipe, is inside a write with bytes left, or is done.\<close>

datatype reader = Reading | AtEof | Stopped
datatype copier = Waiting | Writing string | Copied

text \<open>\<open>sp_alive\<close>: some process holds the writing end of the kernel's pipe. \<open>sp_written\<close> is what
  was ever written to it, \<open>sp_read\<close> what the scanner has taken.\<close>

record stream_pipe =
  sp_alive :: bool
  sp_written :: string
  sp_kernel :: string
  sp_copier :: copier
  sp_closed :: bool
  sp_reader :: reader
  sp_read :: string

definition pipe_start :: stream_pipe where
  "pipe_start = \<lparr>sp_alive = True, sp_written = [], sp_kernel = [], sp_copier = Waiting,
     sp_closed = False, sp_reader = Reading, sp_read = []\<rparr>"

text \<open>The lines the scanner has complete, and the bytes of the line it has not.\<close>

definition lines_in :: "string \<Rightarrow> nat" where
  "lines_in s = length (filter (\<lambda>c. c = CHR 0x0A) s)"

definition unfinished :: "string \<Rightarrow> nat" where
  "unfinished s = length (takeWhile (\<lambda>c. c \<noteq> CHR 0x0A) (rev s))"

text \<open>The lines the scanner has had in hand: at the end of the file the unfinished line is one.\<close>

definition lines_of :: "bool \<Rightarrow> string \<Rightarrow> nat" where
  "lines_of ended s = lines_in s + (if ended \<and> 0 < unfinished s then 1 else 0)"

text \<open>\<open>seq >= maxLines\<close> when a line is in hand, for a stream capped at \<open>n\<close> lines (0: not capped).\<close>

definition over_the_cap :: "nat \<Rightarrow> stream_pipe \<Rightarrow> bool" where
  "over_the_cap n p = (0 < n \<and> n < lines_of (sp_closed p) (sp_read p))"

text \<open>One step of a goroutine, the process or the kernel. The scanner takes more bytes only when
  no complete line is left to hand out, and at most what its buffer has room for. It leaves the
  loop early over the cap, on a line that fills the buffer, or when a frame could not be
  written.\<close>

inductive pipe_step :: "nat \<Rightarrow> stream_pipe \<Rightarrow> stream_pipe \<Rightarrow> bool" for n where
  prints: "sp_alive p \<Longrightarrow>
    pipe_step n p (p\<lparr>sp_kernel := sp_kernel p @ bs, sp_written := sp_written p @ bs\<rparr>)"
| exits: "pipe_step n p (p\<lparr>sp_alive := False\<rparr>)"
| copies: "sp_copier p = Waiting \<Longrightarrow> sp_kernel p = bs @ rest \<Longrightarrow> bs \<noteq> [] \<Longrightarrow>
    pipe_step n p (p\<lparr>sp_copier := Writing bs, sp_kernel := rest\<rparr>)"
| hands_over: "sp_copier p = Writing (bs @ rest) \<Longrightarrow> bs \<noteq> [] \<Longrightarrow> sp_reader p = Reading \<Longrightarrow>
    \<not> over_the_cap n p \<Longrightarrow> unfinished (sp_read p) + length bs \<le> lineBufferBytes \<Longrightarrow>
    pipe_step n p (p\<lparr>sp_copier := (if rest = [] then Waiting else Writing rest),
      sp_read := sp_read p @ bs\<rparr>)"
| copied: "sp_copier p = Waiting \<Longrightarrow> sp_kernel p = [] \<Longrightarrow> \<not> sp_alive p \<Longrightarrow>
    pipe_step n p (p\<lparr>sp_copier := Copied\<rparr>)"
| waited: "sp_copier p = Copied \<Longrightarrow> \<not> sp_alive p \<Longrightarrow> pipe_step n p (p\<lparr>sp_closed := True\<rparr>)"
| sees_eof: "sp_reader p = Reading \<Longrightarrow> sp_closed p \<Longrightarrow> \<not> over_the_cap n p \<Longrightarrow>
    pipe_step n p (p\<lparr>sp_reader := AtEof\<rparr>)"
| over_cap: "sp_reader p = Reading \<Longrightarrow> over_the_cap n p \<Longrightarrow>
    pipe_step n p (p\<lparr>sp_reader := Stopped\<rparr>)"
| line_too_long: "sp_reader p = Reading \<Longrightarrow> lineBufferBytes \<le> unfinished (sp_read p) \<Longrightarrow>
    pipe_step n p (p\<lparr>sp_reader := Stopped\<rparr>)"
| frame_lost: "sp_reader p = Reading \<Longrightarrow> 0 < lines_of (sp_closed p) (sp_read p) \<Longrightarrow>
    pipe_step n p (p\<lparr>sp_reader := Stopped\<rparr>)"

section \<open>The invariant\<close>

text \<open>What the copier and the kernel hold.\<close>

fun held :: "copier \<Rightarrow> string" where
  "held (Writing w) = w"
| "held Waiting = []"
| "held Copied = []"

definition in_flight :: "stream_pipe \<Rightarrow> string" where
  "in_flight p = held (sp_copier p) @ sp_kernel p"

text \<open>No byte is lost or duplicated; the copier is done only when everything was handed over, the
  pipe is closed only then, and a pending write has bytes left.\<close>

definition pipe_ok :: "stream_pipe \<Rightarrow> bool" where
  "pipe_ok p =
     (sp_written p = sp_read p @ in_flight p \<and>
      (sp_copier p = Copied \<longrightarrow> sp_kernel p = [] \<and> \<not> sp_alive p) \<and>
      (sp_closed p \<longrightarrow> sp_copier p = Copied) \<and> (sp_reader p = AtEof \<longrightarrow> sp_closed p) \<and>
      sp_copier p \<noteq> Writing [])"

lemma pipe_ok_step: "pipe_step n p p' \<Longrightarrow> pipe_ok p \<Longrightarrow> pipe_ok p'"
  by (erule pipe_step.cases) (auto simp: pipe_ok_def in_flight_def)

lemma pipe_ok_reach: "(pipe_step n)\<^sup>*\<^sup>* pipe_start p \<Longrightarrow> pipe_ok p"
proof (induction rule: rtranclp_induct)
  case base
  then show ?case by (simp add: pipe_ok_def pipe_start_def in_flight_def)
next
  case (step p p')
  then show ?case by (blast intro: pipe_ok_step)
qed

section \<open>A scanner that goes on reads everything\<close>

text \<open>The output stays within the cap and no line fills the scanner's buffer.\<close>

definition fits :: "nat \<Rightarrow> string \<Rightarrow> bool" where
  "fits n s = ((n = 0 \<or> lines_of True s \<le> n) \<and>
     list_all (\<lambda>i. unfinished (take i s) < lineBufferBytes) [0..<Suc (length s)])"

lemma lines_of_append: "lines_of ended s \<le> lines_of True (s @ s')"
proof (cases "CHR 0x0A \<in> set s'")
  case True
  then have "1 \<le> lines_in s'" unfolding lines_in_def by (simp add: Suc_le_eq filter_empty_conv)
  moreover have "lines_in (s @ s') = lines_in s + lines_in s'" by (simp add: lines_in_def)
  ultimately show ?thesis by (simp add: lines_of_def)
next
  case False
  then have "unfinished (s @ s') = length s' + unfinished s" by (auto simp: unfinished_def takeWhile_append)
  then show ?thesis by (simp add: lines_of_def lines_in_def)
qed

lemma fits_prefix:
  assumes "fits n (s @ s')"
  shows "unfinished s < lineBufferBytes" "n = 0 \<or> lines_of ended s \<le> n"
proof -
  have "unfinished (take (length s) (s @ s')) < lineBufferBytes"
    using assms unfolding fits_def list_all_iff by (metis atLeastLessThan_iff le0
      length_append less_Suc_eq_le set_upt trans_le_add1 order_refl)
  then show "unfinished s < lineBufferBytes" by simp
  show "n = 0 \<or> lines_of ended s \<le> n"
    using assms lines_of_append [of ended s s'] by (auto simp: fits_def)
qed

text \<open>A copier that holds nothing takes what the kernel has.\<close>

lemma copier_fills:
  assumes "sp_copier p = Waiting" "sp_kernel p \<noteq> []"
  shows "pipe_step n p (p\<lparr>sp_copier := Writing (sp_kernel p), sp_kernel := []\<rparr>)"
  using assms copies [where rest = "[]"] by simp

lemma byte_taken:
  assumes "sp_copier p = Writing (c # w)" "sp_reader p = Reading" "fits n (sp_read p @ s)"
  shows "pipe_step n p (p\<lparr>sp_copier := (if w = [] then Waiting else Writing w),
    sp_read := sp_read p @ [c]\<rparr>)"
  using assms(1,2) fits_prefix(1) [OF assms(3)] fits_prefix(2) [OF assms(3), of "sp_closed p"]
  by (intro hands_over [where bs = "[c]"]) (auto simp: over_the_cap_def)

section \<open>It comes to its end\<close>

text \<open>A step that changes something and in which the scanner does not leave its loop early.\<close>

definition pipe_moves :: "nat \<Rightarrow> stream_pipe \<Rightarrow> stream_pipe \<Rightarrow> bool" where
  "pipe_moves n p p' = (pipe_step n p p' \<and> p' \<noteq> p \<and> sp_reader p' \<noteq> Stopped)"

text \<open>How many such steps are left at most once the process is gone.\<close>

definition pipe_left :: "stream_pipe \<Rightarrow> nat" where
  "pipe_left p =
     2 * length (sp_kernel p) + length (held (sp_copier p)) + (if sp_copier p = Copied then 0 else 1) +
     (if sp_closed p then 0 else 1) + (if sp_reader p = Reading then 1 else 0)"

lemma pipe_left_step:
  assumes "pipe_moves n p p'" "\<not> sp_alive p"
  shows "pipe_left p' < pipe_left p \<and> \<not> sp_alive p' \<and> sp_written p' = sp_written p"
proof -
  have "pipe_step n p p'" "p' \<noteq> p" "sp_reader p' \<noteq> Stopped" using assms(1) by (simp_all add: pipe_moves_def)
  then show ?thesis
    using assms(2) by cases (auto simp: pipe_left_def)
qed

lemma pipe_moves_run:
  assumes "(pipe_moves n ^^ m) p p'" "\<not> sp_alive p"
  shows "m + pipe_left p' \<le> pipe_left p \<and> \<not> sp_alive p' \<and> sp_written p' = sp_written p \<and> (pipe_step n)\<^sup>*\<^sup>* p p'"
  using assms(1)
proof (induction m arbitrary: p')
  case 0
  then show ?case using assms(2) by simp
next
  case (Suc m)
  then obtain q where q: "(pipe_moves n ^^ m) p q" "pipe_moves n q p'" by auto
  then have "pipe_step n q p'" by (simp add: pipe_moves_def)
  with Suc.IH [OF q(1)] pipe_left_step [OF q(2)] show ?case
    by (auto intro: rtranclp.rtrancl_into_rtrancl)
qed

text \<open>While the scanner reads there is a step to make: hand over or copy the next byte, finish the copy,
  close the pipe, or see the end.\<close>

lemma pipe_can_move:
  assumes "pipe_ok p" "sp_reader p = Reading" "\<not> sp_alive p" "fits n (sp_written p)"
  shows "\<exists>p'. pipe_moves n p p'"
proof -
  have f: "fits n (sp_read p @ in_flight p)" using assms(1,4) by (simp add: pipe_ok_def)
  consider (bytes) "sp_copier p = Waiting" "sp_kernel p \<noteq> []" | (drained) "sp_copier p = Waiting" "sp_kernel p = []"
    | (writing) c w where "sp_copier p = Writing (c # w)"
    | (copied) "sp_copier p = Copied" "\<not> sp_closed p" | (closed) "sp_copier p = Copied" "sp_closed p"
    using assms(1) by (cases "sp_copier p"; cases "held (sp_copier p)"; cases "sp_kernel p") (auto simp: pipe_ok_def)
  then show ?thesis
  proof cases
    case bytes
    then show ?thesis
      using copier_fills [OF bytes, of n] assms(2) bytes(2)
      by (intro exI [of _ "p\<lparr>sp_copier := Writing (sp_kernel p), sp_kernel := []\<rparr>"])
        (auto simp: pipe_moves_def dest: arg_cong [where f = sp_kernel])
  next
    case drained
    then have "pipe_step n p (p\<lparr>sp_copier := Copied\<rparr>)" using assms(3) by (intro pipe_step.copied)
    then show ?thesis
      using drained assms(2) by (intro exI [of _ "p\<lparr>sp_copier := Copied\<rparr>"])
        (auto simp: pipe_moves_def dest: arg_cong [where f = sp_copier])
  next
    case (writing c w)
    let ?q = "p\<lparr>sp_copier := (if w = [] then Waiting else Writing w), sp_read := sp_read p @ [c]\<rparr>"
    have "pipe_step n p ?q" by (rule byte_taken [OF writing assms(2) f])
    then show ?thesis
      using assms(2) by (intro exI [of _ ?q]) (auto simp: pipe_moves_def dest: arg_cong [where f = sp_read])
  next
    case copied
    then have "pipe_step n p (p\<lparr>sp_closed := True\<rparr>)" using assms(3) by (intro pipe_step.waited)
    then show ?thesis
      using copied assms(2) by (intro exI [of _ "p\<lparr>sp_closed := True\<rparr>"])
        (auto simp: pipe_moves_def dest: arg_cong [where f = sp_closed])
  next
    case closed
    then have "pipe_step n p (p\<lparr>sp_reader := AtEof\<rparr>)"
      using assms(2) fits_prefix(2) [OF f, of True] by (intro pipe_step.sees_eof) (auto simp: over_the_cap_def)
    then show ?thesis
      using assms(2) by (intro exI [of _ "p\<lparr>sp_reader := AtEof\<rparr>"])
        (auto simp: pipe_moves_def dest: arg_cong [where f = sp_reader])
  qed
qed

lemma at_eof_has_all: "pipe_ok p \<Longrightarrow> sp_reader p = AtEof \<Longrightarrow> sp_closed p \<and> sp_read p = sp_written p"
  by (auto simp: pipe_ok_def in_flight_def)

lemma pipe_moves_reader:
  assumes "(pipe_moves n ^^ m) p p'" "sp_reader p = Reading"
  shows "sp_reader p' = Reading \<or> sp_reader p' = AtEof"
  using assms
proof (cases m)
  case (Suc k)
  then have "sp_reader p' \<noteq> Stopped" using assms(1) by (auto simp: pipe_moves_def)
  then show ?thesis by (cases "sp_reader p'") auto
qed auto

text \<open>C38: A stream whose command has exited comes to its end, unless a frame of it is lost on the socket, and has
  then read every byte the command wrote, in order, as long as the output stays within the cap and no
  line fills the scanner's buffer. However the goroutines interleave, they make at most \<open>pipe_left p\<close>
  steps; as long as the scanner reads, one of them can make a step and the scanner has neither reached the cap nor
  filled its buffer, so that a lost frame is the only reason to leave early; and when it no longer reads it has seen
  the end of the file, the pipe is closed, and nothing is missing.\<close>

theorem stream_drains:
  assumes "(pipe_step n)\<^sup>*\<^sup>* pipe_start p" "\<not> sp_alive p" "sp_reader p = Reading"
    "fits n (sp_written p)" "(pipe_moves n ^^ m) p p'"
  shows "m \<le> pipe_left p \<and>
    (if sp_reader p' = Reading
     then (\<exists>p''. pipe_moves n p' p'') \<and> \<not> over_the_cap n p' \<and> unfinished (sp_read p') < lineBufferBytes
     else sp_reader p' = AtEof \<and> sp_closed p' \<and> sp_read p' = sp_written p)"
proof -
  note run = pipe_moves_run [OF assms(5,2)]
  have ok: "pipe_ok p'" using pipe_ok_reach assms(1) run by (meson rtranclp_trans)
  then have "fits n (sp_read p' @ in_flight p')" using run assms(4) by (simp add: pipe_ok_def)
  from fits_prefix(1) [OF this] fits_prefix(2) [OF this, of "sp_closed p'"]
  have "\<not> over_the_cap n p'" "unfinished (sp_read p') < lineBufferBytes"
    by (auto simp: over_the_cap_def)
  moreover have "\<exists>p''. pipe_moves n p' p''" if "sp_reader p' = Reading"
    using pipe_can_move [OF ok that] run assms(4) by simp
  ultimately show ?thesis
    using pipe_moves_reader [OF assms(5,3)] at_eof_has_all [OF ok] run by auto
qed

text \<open>The command has written one line and is gone: five steps to the end.\<close>

theorem stream_drains_witness:
  "let p = pipe_start\<lparr>sp_alive := False, sp_kernel := [CHR 0x0A], sp_written := [CHR 0x0A]\<rparr>
   in pipe_left p = 5 \<and> (\<exists>p'. pipe_moves 3 p p')"
proof -
  let ?q = "pipe_start\<lparr>sp_kernel := [CHR 0x0A], sp_written := [CHR 0x0A]\<rparr>"
  let ?p = "?q\<lparr>sp_alive := False\<rparr>"
  have "pipe_step 3 pipe_start ?q"
    using prints [of pipe_start 3 "[CHR 0x0A]"] by (simp add: pipe_start_def)
  moreover have "pipe_step 3 ?q ?p" by (rule exits)
  ultimately have "(pipe_step 3)\<^sup>*\<^sup>* pipe_start ?p" by (meson r_into_rtranclp rtranclp.rtrancl_into_rtrancl)
  from stream_drains [OF this, of 0 ?p] have "\<exists>p'. pipe_moves 3 ?p p'"
    by (simp add: pipe_start_def fits_def lines_of_def lines_in_def unfinished_def lineBufferBytes_def)
  moreover have "?p = pipe_start\<lparr>sp_alive := False, sp_kernel := [CHR 0x0A], sp_written := [CHR 0x0A]\<rparr>" by simp
  ultimately show ?thesis by (simp add: Let_def pipe_left_def pipe_start_def)
qed

section \<open>A scanner that left early\<close>

lemma stuck_step:
  assumes "pipe_step n p p'" "sp_reader p = Stopped" "sp_copier p = Writing w" "w \<noteq> []"
    "\<not> sp_closed p"
  shows "sp_reader p' = Stopped \<and> sp_copier p' = Writing w \<and> \<not> sp_closed p'"
  using assms by cases auto

text \<open>C39: When the scanner leaves the loop while the copier is inside a write, the write never
  returns, whatever happens next, also when the process is killed: the copier stays blocked, the
  goroutine behind \<open>cmd.Wait\<close> never closes the pipe, and both outlive the stream. Nothing
  closes the reading end.\<close>

theorem stopped_reader_leaks:
  assumes "(pipe_step n)\<^sup>*\<^sup>* pipe_start p" "sp_reader p = Stopped" "sp_copier p = Writing w"
    "(pipe_step n)\<^sup>*\<^sup>* p p'"
  shows "sp_copier p' = Writing w \<and> \<not> sp_closed p'"
proof -
  have "pipe_ok p" using pipe_ok_reach [OF assms(1)] .
  then have "w \<noteq> []" "\<not> sp_closed p" using assms(3) by (auto simp: pipe_ok_def)
  have "sp_reader p' = Stopped \<and> sp_copier p' = Writing w \<and> \<not> sp_closed p'"
    using assms(4)
  proof (induction rule: rtranclp_induct)
    case base
    then show ?case using assms(2,3) \<open>\<not> sp_closed p\<close> by simp
  next
    case (step q q')
    then show ?case using stuck_step \<open>w \<noteq> []\<close> by blast
  qed
  then show ?thesis by simp
qed

text \<open>A stream capped at one line whose command writes a third line late, and is then killed.\<close>

definition leaky :: stream_pipe where
  "leaky = \<lparr>sp_alive = True, sp_written = [CHR 0x0A, CHR 0x0A, CHR ''x''], sp_kernel = [],
     sp_copier = Writing ''x'', sp_closed = False, sp_reader = Stopped,
     sp_read = [CHR 0x0A, CHR 0x0A]\<rparr>"

lemma leaky_reached: "(pipe_step 1)\<^sup>*\<^sup>* pipe_start leaky"
proof -
  let ?w = "[CHR 0x0A, CHR 0x0A, CHR ''x'']"
  let ?a = "pipe_start\<lparr>sp_kernel := ?w, sp_written := ?w\<rparr>"
  let ?b = "?a\<lparr>sp_copier := Writing ?w, sp_kernel := []\<rparr>"
  let ?c = "?b\<lparr>sp_copier := Writing ''x'', sp_read := [CHR 0x0A, CHR 0x0A]\<rparr>"
  have a: "pipe_step 1 pipe_start ?a" using prints [of pipe_start 1 ?w] by (simp add: pipe_start_def)
  have b: "pipe_step 1 ?a ?b"
    using copies [of ?a ?w "[]" 1] by (simp add: pipe_start_def)
  have c: "pipe_step 1 ?b ?c"
    using hands_over [of ?b "[CHR 0x0A, CHR 0x0A]" "''x''" 1]
    by (simp add: pipe_start_def over_the_cap_def lines_of_def lines_in_def unfinished_def lineBufferBytes_def)
  have d: "pipe_step 1 ?c (?c\<lparr>sp_reader := Stopped\<rparr>)"
    by (rule over_cap) (simp_all add: pipe_start_def over_the_cap_def lines_of_def lines_in_def)
  have e: "?c\<lparr>sp_reader := Stopped\<rparr> = leaky" by (simp add: leaky_def pipe_start_def)
  have "(pipe_step 1)\<^sup>*\<^sup>* pipe_start (?c\<lparr>sp_reader := Stopped\<rparr>)"
    by (rule rtranclp.rtrancl_into_rtrancl [OF rtranclp.rtrancl_into_rtrancl [OF
      rtranclp.rtrancl_into_rtrancl [OF r_into_rtranclp]]]) (rule a, rule b, rule c, rule d)
  then show ?thesis by (simp only: e)
qed

theorem stopped_reader_leaks_witness:
  "(pipe_step 1)\<^sup>*\<^sup>* pipe_start leaky \<and> sp_copier (leaky\<lparr>sp_alive := False\<rparr>) = Writing ''x'' \<and>
   \<not> sp_closed (leaky\<lparr>sp_alive := False\<rparr>)"
proof -
  have "(pipe_step 1)\<^sup>*\<^sup>* leaky (leaky\<lparr>sp_alive := False\<rparr>)" by (intro r_into_rtranclp exits)
  from stopped_reader_leaks [OF leaky_reached _ _ this, of "''x''"] show ?thesis
    using leaky_reached by (simp add: leaky_def)
qed

end
