(* ===== verification/Release_Verify.thy ===== *)
theory Release_Verify
  imports Collector_Config
begin

text \<open>
  The authenticity gate of a release (release/verify.go): the embedded public key and the check
  of a detached signature. \<open>crypto/ed25519\<close> is the parameter \<open>ed_verify\<close>.
\<close>

section \<open>Base64\<close>

definition b64_digit :: "char \<Rightarrow> nat option" where
  "b64_digit c =
     (let n = of_char c in
      if 65 \<le> n \<and> n \<le> 90 then Some (n - 65)
      else if 97 \<le> n \<and> n \<le> 122 then Some (n - 71)
      else if 48 \<le> n \<and> n \<le> 57 then Some (n + 4)
      else if c = CHR ''+'' then Some 62
      else if c = CHR ''/'' then Some 63 else None)"

text \<open>\<open>base64.StdEncoding.DecodeString\<close>: line ends are ignored, the padding is required, the
  bits after the last byte are not checked.\<close>

fun b64_quads :: "string \<Rightarrow> string option" where
  "b64_quads [] = Some []"
| "b64_quads (a # b # c # d # rest) =
     (case (b64_digit a, b64_digit b) of
        (Some x, Some y) \<Rightarrow>
          if d = CHR ''='' then
            (if rest \<noteq> [] then None
             else if c = CHR ''='' then Some [char_of (x * 4 + y div 16)]
             else (case b64_digit c of
                     None \<Rightarrow> None
                   | Some z \<Rightarrow> Some [char_of (x * 4 + y div 16),
                                    char_of (y mod 16 * 16 + z div 4)]))
          else (case (b64_digit c, b64_digit d, b64_quads rest) of
                  (Some z, Some w, Some bs) \<Rightarrow>
                    Some (char_of (x * 4 + y div 16) # char_of (y mod 16 * 16 + z div 4) #
                          char_of (z mod 4 * 64 + w) # bs)
                | _ \<Rightarrow> None)
      | _ \<Rightarrow> None)"
| "b64_quads _ = None"

definition b64_decode :: "string \<Rightarrow> string option" where
  "b64_decode s = b64_quads (filter (\<lambda>c. c \<noteq> CHR 0x0D \<and> c \<noteq> CHR 0x0A) s)"

section \<open>Verification\<close>

definition releasePublicKeyB64 :: string where
  "releasePublicKeyB64 = ''jGLvOjNYFDA8tHhsFFBaLXT9UKxyChImRaqY4sDOsQY=''"

definition PublicKeySize :: nat where "PublicKeySize = 32"
definition SignatureSize :: nat where "SignatureSize = 64"

datatype verify_error =
    ErrKeyNotConfigured
  | KeyNotBase64
  | KeyWrongSize nat
  | FileError string io_err
  | SignatureWrongSize nat
  | SignatureInvalid

definition decode_key :: "string \<Rightarrow> verify_error + string" where
  "decode_key b64 =
     (if b64 = [] \<or> b64 = ''REPLACE_WITH_BASE64_ED25519_PUBLIC_KEY'' then Inl ErrKeyNotConfigured
      else (case b64_decode b64 of
              None \<Rightarrow> Inl KeyNotBase64
            | Some raw \<Rightarrow>
                if length raw \<noteq> PublicKeySize then Inl (KeyWrongSize (length raw)) else Inr raw))"

definition publicKey :: "verify_error + string" where
  "publicKey = decode_key releasePublicKeyB64"

definition verifyWith ::
  "(string \<Rightarrow> string \<Rightarrow> string \<Rightarrow> bool) \<Rightarrow> filesys \<Rightarrow> string \<Rightarrow> string \<Rightarrow> string \<Rightarrow> verify_error + unit" where
  "verifyWith ed_verify fs pub sumsPath sigPath =
     (case fs_file fs sumsPath of
        Inl e \<Rightarrow> Inl (FileError sumsPath e)
      | Inr msg \<Rightarrow>
          (case fs_file fs sigPath of
             Inl e \<Rightarrow> Inl (FileError sigPath e)
           | Inr sig \<Rightarrow>
               if length sig \<noteq> SignatureSize then Inl (SignatureWrongSize (length sig))
               else if \<not> ed_verify pub msg sig then Inl SignatureInvalid
               else Inr ()))"

definition Verify ::
  "(string \<Rightarrow> string \<Rightarrow> string \<Rightarrow> bool) \<Rightarrow> filesys \<Rightarrow> string \<Rightarrow> string \<Rightarrow> verify_error + unit" where
  "Verify ed_verify fs sumsPath sigPath =
     result_bind publicKey (\<lambda>pub. verifyWith ed_verify fs pub sumsPath sigPath)"

section \<open>Properties\<close>

lemma verifyWith_Inr_iff:
  "verifyWith ed_verify fs pub a b = Inr u \<longleftrightarrow>
     (\<exists>msg sig. fs_file fs a = Inr msg \<and> fs_file fs b = Inr sig \<and>
        length sig = 64 \<and> ed_verify pub msg sig)"
  by (auto simp: verifyWith_def SignatureSize_def split: sum.splits)

lemma Verify_Inr_iff:
  "Verify ed_verify fs a b = Inr u \<longleftrightarrow>
     (\<exists>pub msg sig. publicKey = Inr pub \<and> fs_file fs a = Inr msg \<and> fs_file fs b = Inr sig \<and>
        length sig = 64 \<and> ed_verify pub msg sig)"
  unfolding Verify_def result_bind_Inr_iff verifyWith_Inr_iff by blast

lemma embedded_key: "is_ok publicKey \<and> length (projr publicKey) = PublicKeySize"
  by code_simp

lemma decode_key_size: "decode_key b64 = Inr k \<Longrightarrow> length k = PublicKeySize"
  by (auto simp: decode_key_def split: option.splits if_splits)

text \<open>C23: the embedded key is a well-formed 32-byte key, so the gate is configured, and a
  release is accepted exactly when both files can be read and the signature has 64 bytes and
  verifies under that key; every other case is an error.\<close>

theorem Verify_accepts_iff:
  "\<exists>pub. publicKey = Inr pub \<and> length pub = 32 \<and>
     (Verify ed_verify fs sumsf sigf = Inr () \<longleftrightarrow>
       (\<exists>msg sig. fs_file fs sumsf = Inr msg \<and> fs_file fs sigf = Inr sig \<and>
          length sig = 64 \<and> ed_verify pub msg sig))"
proof -
  obtain pub where pub: "publicKey = Inr pub" using embedded_key by (auto simp: is_ok_iff)
  then have "length pub = 32"
    using decode_key_size [of releasePublicKeyB64 pub] by (simp add: publicKey_def PublicKeySize_def)
  moreover have "Verify ed_verify fs sumsf sigf = verifyWith ed_verify fs pub sumsf sigf"
    by (simp add: Verify_def pub)
  ultimately show ?thesis
    using pub verifyWith_Inr_iff [of ed_verify fs pub sumsf sigf "()"]
    by (intro exI [of _ pub]) simp
qed

text \<open>A key that is the build-time placeholder, or does not decode to 32 bytes, is refused,
  whatever the files.\<close>

lemma decode_key_refuses:
  "is_ok (decode_key b64) \<longleftrightarrow>
     b64 \<noteq> ''REPLACE_WITH_BASE64_ED25519_PUBLIC_KEY'' \<and>
     (\<exists>raw. b64_decode b64 = Some raw \<and> length raw = 32)"
proof (cases "b64 = []")
  case True
  then show ?thesis by (simp add: decode_key_def b64_decode_def)
next
  case False
  then show ?thesis
    by (auto simp: decode_key_def PublicKeySize_def split: option.splits)
qed

end
