(* ===== verification/Live_Metrics.thy ===== *)
theory Live_Metrics
  imports Control_Config "HOL-Library.Word"
begin

text \<open>
  The samples of the \<open>metrics.live\<close> verb (control/metrics.go): reading \<open>/proc/stat\<close>,
  \<open>/proc/meminfo\<close> and \<open>/proc/loadavg\<close>, and the percentages, in \<open>uint64\<close>, \<open>int64\<close> and
  double arithmetic as the compiler evaluates it.
\<close>

section \<open>Arithmetic\<close>

text \<open>\<open>x*y + z\<close>: the arm64 compiler fuses the two operations, the amd64 compiler rounds the
  product.\<close>

definition f64_muladd :: "goarch \<Rightarrow> f64 \<Rightarrow> f64 \<Rightarrow> f64 \<Rightarrow> f64" where
  "f64_muladd arch x y z =
     (case (arch, x, y, z) of
        (Arm64, Fin a, Fin b, Fin c) \<Rightarrow> f64_round (a * b + c)
      | _ \<Rightarrow> f64_add (f64_mul x y) z)"

definition round1 :: "goarch \<Rightarrow> f64 \<Rightarrow> f64" where
  "round1 arch f =
     f64_div (f64_of_int (f64_to_int arch (f64_muladd arch f (Fin 10) (Fin (1 / 2))))) (Fin 10)"

text \<open>Two's complement wrap-around of an \<open>int64\<close> result.\<close>

definition wrap64 :: "int \<Rightarrow> int" where
  "wrap64 i = (i + 2 ^ 63) mod 2 ^ 64 - 2 ^ 63"

lemma wrap64_id: "- (2 ^ 63) \<le> i \<Longrightarrow> i < 2 ^ 63 \<Longrightarrow> wrap64 i = i"
  by (simp add: wrap64_def)

section \<open>CPU\<close>

record cpuSample =
  cpu_total :: "64 word"
  cpu_idle :: "64 word"

datatype stat_error = StatUnreadable io_err | NoCpuLine

fun add_columns :: "nat \<Rightarrow> string list \<Rightarrow> cpuSample \<Rightarrow> cpuSample" where
  "add_columns i [] s = s"
| "add_columns i (f # fs) s =
     add_columns (i + 1) fs
       (case parse_uint f of
          None \<Rightarrow> s
        | Some v \<Rightarrow>
            let s1 = s\<lparr>cpu_total := cpu_total s + of_nat v\<rparr>
            in if i = 3 \<or> i = 4 then s1\<lparr>cpu_idle := cpu_idle s1 + of_nat v\<rparr> else s1)"

definition readCPUSample :: "filesys \<Rightarrow> stat_error + cpuSample" where
  "readCPUSample fs =
     (case fs_file fs ''/proc/stat'' of
        Inl e \<Rightarrow> Inl (StatUnreadable e)
      | Inr data \<Rightarrow>
          (case find (\<lambda>line. has_prefix line ''cpu '') (split_on CHR 0x0A data) of
             None \<Rightarrow> Inl NoCpuLine
           | Some line \<Rightarrow> Inr (add_columns 0 (tl (str_fields line)) \<lparr>cpu_total = 0, cpu_idle = 0\<rparr>)))"

definition cpuPct :: "goarch \<Rightarrow> cpuSample \<Rightarrow> cpuSample \<Rightarrow> f64" where
  "cpuPct arch prev cur =
     (let totalDelta = f64_of_int (uint (cpu_total cur - cpu_total prev));
          idleDelta = f64_of_int (uint (cpu_idle cur - cpu_idle prev))
      in if f64_le totalDelta (Fin 0) then Fin 0
         else let pct = f64_div (f64_mul (f64_sub totalDelta idleDelta) (Fin 100)) totalDelta
              in if f64_less pct (Fin 0) then Fin 0
                 else if f64_less (Fin 100) pct then Fin 100
                 else round1 arch pct)"

section \<open>Memory and load\<close>

definition trim_suffix :: "string \<Rightarrow> string \<Rightarrow> string" where
  "trim_suffix s t = (if has_suffix s t then take (length s - length t) s else s)"

definition meminfo_line :: "int \<times> int \<Rightarrow> string \<Rightarrow> int \<times> int" where
  "meminfo_line ta line =
     (if CHR '':'' \<notin> set line then ta
      else let key = takeWhile (\<lambda>c. c \<noteq> CHR '':'') line;
               rest = drop (length key + 1) line;
               val = trim_space (trim_suffix (trim_space rest) '' kB'')
           in case parse_int val of
                None \<Rightarrow> ta
              | Some n \<Rightarrow>
                  if key = ''MemTotal'' then (n, snd ta)
                  else if key = ''MemAvailable'' then (fst ta, n) else ta)"

definition mem_pct :: "goarch \<Rightarrow> int \<Rightarrow> int \<Rightarrow> f64" where
  "mem_pct arch tot avail =
     (if tot \<le> 0 then Fin 0
      else round1 arch
             (f64_div (f64_mul (f64_of_int (wrap64 (tot - avail))) (Fin 100)) (f64_of_int tot)))"

definition readMemPct :: "goarch \<Rightarrow> filesys \<Rightarrow> f64" where
  "readMemPct arch fs =
     (case fs_file fs ''/proc/meminfo'' of
        Inl _ \<Rightarrow> Fin 0
      | Inr data \<Rightarrow>
          (let ta = foldl meminfo_line (0, 0) (split_on CHR 0x0A data)
           in mem_pct arch (fst ta) (snd ta)))"

text \<open>\<open>ParseFloat\<close> is the parameter \<open>parse_float\<close> (\<open>None\<close> for an error).\<close>

definition readLoad1 :: "(string \<Rightarrow> f64 option) \<Rightarrow> filesys \<Rightarrow> f64" where
  "readLoad1 parse_float fs =
     (case fs_file fs ''/proc/loadavg'' of
        Inl _ \<Rightarrow> Fin 0
      | Inr data \<Rightarrow>
          (case str_fields data of
             [] \<Rightarrow> Fin 0
           | p # _ \<Rightarrow> (case parse_float p of None \<Rightarrow> Fin 0 | Some f \<Rightarrow> f)))"

section \<open>One tick\<close>

record liveMetrics =
  lm_Ts :: int
  lm_CPU :: f64
  lm_Mem :: f64
  lm_Load1 :: f64

text \<open>A tick of the sampling loop: without a CPU sample nothing changes; otherwise the sample
  is taken and becomes the previous one, and it is sent unless \<open>json.Marshal\<close> refuses it,
  which it does for a number that is not finite.\<close>

definition finite_f64 :: "f64 \<Rightarrow> bool" where
  "finite_f64 x = (case x of Fin _ \<Rightarrow> True | _ \<Rightarrow> False)"

definition metrics_tick ::
  "goarch \<Rightarrow> (string \<Rightarrow> f64 option) \<Rightarrow> filesys \<Rightarrow> int \<Rightarrow> cpuSample \<Rightarrow> cpuSample \<times> liveMetrics option" where
  "metrics_tick arch parse_float fs now prev =
     (case readCPUSample fs of
        Inl _ \<Rightarrow> (prev, None)
      | Inr cur \<Rightarrow>
          (let sample = \<lparr>lm_Ts = now, lm_CPU = cpuPct arch prev cur, lm_Mem = readMemPct arch fs,
                         lm_Load1 = readLoad1 parse_float fs\<rparr>
           in (cur, if finite_f64 (lm_CPU sample) \<and> finite_f64 (lm_Mem sample)
                      \<and> finite_f64 (lm_Load1 sample) then Some sample else None)))"

section \<open>Rounding to one digit\<close>

text \<open>Rounding with an absolute and with a relative error, weaker than the exact bounds.\<close>

lemma f64_round_0 [simp]: "f64_round 0 = Fin 0" "f64_of_int 0 = Fin 0"
  by (simp_all add: f64_round_def f64_of_int_def)

lemma round_half_even_nonneg: "0 \<le> q \<Longrightarrow> 0 \<le> round_half_even q"
  by (auto simp: round_half_even_def Let_def)

lemma f64_round_nonneg:
  assumes "0 \<le> r" "f64_round r = Fin v"
  shows "0 \<le> v"
proof -
  have "0 \<le> r / ulp r" using assms(1) by (simp add: ulp_def)
  then have "0 \<le> rat_of_int (round_half_even (r / ulp r)) * ulp r"
    using round_half_even_nonneg by (intro mult_nonneg_nonneg) (simp_all add: ulp_def)
  then show ?thesis using assms(2) by (auto simp: f64_round_def Let_def split: if_splits)
qed

lemma rat_le_power: "i \<le> 2 ^ k \<Longrightarrow> rat_of_int i \<le> 2 ^ k"
  using of_int_le_iff [of i "2 ^ k", where ?'a = rat] by simp

lemma tiny_le_1: "tiny \<le> 1" "0 \<le> tiny"
  using pow2_mono [of "- 1022" 0] by (simp_all add: tiny_def pow2_def)

lemma round_near:
  assumes "0 \<le> r" "r \<le> 2000"
  shows "\<exists>v. f64_round r = Fin v \<and> r - 1 / 1000 \<le> v \<and> v \<le> r + 1 / 1000"
proof -
  have "\<bar>r\<bar> \<le> 2 ^ 80" using assms by simp
  from f64_round_near [OF this] obtain v
    where v: "f64_round r = Fin v" "\<bar>v - r\<bar> \<le> max \<bar>r\<bar> tiny * pow2 (- 53)" by blast
  have "max \<bar>r\<bar> tiny * pow2 (- 53) \<le> 2000 * pow2 (- 53)"
    using assms tiny_le_1 by (intro mult_right_mono) auto
  also have "\<dots> \<le> 1 / 1000" by (simp add: pow2_def)
  finally have "\<bar>v - r\<bar> \<le> 1 / 1000" using v(2) by linarith
  with v(1) show ?thesis by (intro exI [of _ v]) linarith
qed

lemma round_rel:
  assumes "1 \<le> r" "r \<le> 2 ^ 80"
  shows "\<exists>v. f64_round r = Fin v \<and> r * (999999 / 1000000) \<le> v \<and> v \<le> r * (1000001 / 1000000)"
proof -
  have "\<bar>r\<bar> \<le> 2 ^ 80" using assms by simp
  from f64_round_near [OF this] obtain v
    where v: "f64_round r = Fin v" "\<bar>v - r\<bar> \<le> max \<bar>r\<bar> tiny * pow2 (- 53)" by blast
  have "max \<bar>r\<bar> tiny = r" using assms tiny_le_1 by auto
  moreover have "r * pow2 (- 53) \<le> r * (1 / 1000000)"
    using assms by (intro mult_left_mono) (auto simp: pow2_def)
  ultimately have "\<bar>v - r\<bar> \<le> r * (1 / 1000000)" using v(2) by simp
  with v(1) show ?thesis by (intro exI [of _ v]) linarith
qed

lemma round_finite:
  assumes "\<bar>r\<bar> \<le> 2 ^ 80"
  shows "\<exists>v. f64_round r = Fin v \<and> \<bar>v\<bar> \<le> 2 * \<bar>r\<bar> + 1"
proof -
  from f64_round_near [OF assms] obtain v
    where v: "f64_round r = Fin v" "\<bar>v - r\<bar> \<le> max \<bar>r\<bar> tiny * pow2 (- 53)" by blast
  have "max \<bar>r\<bar> tiny * pow2 (- 53) \<le> (\<bar>r\<bar> + 1) * 1"
    using tiny_le_1 by (intro mult_mono) (auto simp: pow2_def)
  with v show ?thesis by (intro exI [of _ v]) auto
qed

lemma muladd_range:
  assumes "0 \<le> f" "f \<le> 100 + 1 / 50"
  shows "\<exists>s. f64_muladd arch (Fin f) (Fin 10) (Fin (1 / 2)) = Fin s \<and> 0 \<le> s \<and> s < 1001"
proof (cases arch)
  case Arm64
  have "0 \<le> f * 10 + 1 / 2" "f * 10 + 1 / 2 \<le> 2000" using assms by auto
  then obtain v where "f64_round (f * 10 + 1 / 2) = Fin v" "f * 10 + 1 / 2 - 1 / 1000 \<le> v"
      "v \<le> f * 10 + 1 / 2 + 1 / 1000" using round_near by blast
  then show ?thesis using assms Arm64 by (auto simp: f64_muladd_def)
next
  case Amd64
  obtain m where m: "f64_round (f * 10) = Fin m" "f * 10 - 1 / 1000 \<le> m" "m \<le> f * 10 + 1 / 1000"
    using round_near [of "f * 10"] assms by auto
  then have "0 \<le> m + 1 / 2" "m + 1 / 2 \<le> 2000" using assms by auto
  then obtain s where "f64_round (m + 1 / 2) = Fin s" "m + 1 / 2 - 1 / 1000 \<le> s"
      "s \<le> m + 1 / 2 + 1 / 1000"
    using round_near by blast
  with m assms Amd64 show ?thesis by (auto simp: f64_muladd_def)
qed

lemma tenth_range:
  assumes "0 \<le> n" "n \<le> 1000"
  shows "\<exists>p. f64_div (f64_of_int n) (Fin 10) = Fin p \<and> 0 \<le> p \<and> p \<le> 100"
proof -
  have n: "f64_of_int n = Fin (of_int n)"
    using assms by (simp add: f64_of_int_def f64_round_int)
  consider "n = 0" | "n = 1000" | "1 \<le> n" "n \<le> 999" using assms by linarith
  then show ?thesis
  proof cases
    case 1
    then show ?thesis by (simp add: f64_of_int_def f64_round_def)
  next
    case 2
    then show ?thesis using f64_round_int [of 100] n by simp
  next
    case 3
    then have r: "1 \<le> rat_of_int n" "rat_of_int n \<le> 999" by simp_all
    then have "0 \<le> rat_of_int n / 10" "rat_of_int n / 10 \<le> 2000" by simp_all
    then obtain v where "f64_round (rat_of_int n / 10) = Fin v" "rat_of_int n / 10 - 1 / 1000 \<le> v"
        "v \<le> rat_of_int n / 10 + 1 / 1000"
      using round_near by blast
    with r show ?thesis by (auto simp: n)
  qed
qed

lemma round1_range:
  assumes "0 \<le> f" "f \<le> 100 + 1 / 50"
  shows "\<exists>p. round1 arch (Fin f) = Fin p \<and> 0 \<le> p \<and> p \<le> 100"
proof -
  obtain s where s: "f64_muladd arch (Fin f) (Fin 10) (Fin (1 / 2)) = Fin s" "0 \<le> s" "s < 1001"
    using muladd_range [OF assms] by blast
  have fl: "0 \<le> \<lfloor>s\<rfloor>" "\<lfloor>s\<rfloor> \<le> 1000" using s(2,3) by (auto simp: floor_less_iff floor_le_iff)
  moreover have "f64_to_int arch (Fin s) = \<lfloor>s\<rfloor>"
    using s(2) fl by (simp add: rat_trunc_def min_int64_def max_int64_def)
  ultimately show ?thesis
    using tenth_range [of "\<lfloor>s\<rfloor>"] by (simp add: round1_def s(1))
qed

section \<open>The percentages stay in range\<close>

lemma uint_conv:
  fixes w :: "64 word"
  shows "\<exists>v. f64_of_int (uint w) = Fin v \<and> \<bar>v\<bar> \<le> 2 ^ 66 \<and> (w \<noteq> 0 \<longrightarrow> 1 / 2 \<le> v) \<and> (w = 0 \<longrightarrow> v = 0)"
proof (cases "w = 0")
  case True
  then show ?thesis by (simp add: f64_of_int_def f64_round_def)
next
  case False
  have "uint w < 2 ^ 64" using uint_bounded [of w] by simp
  then have hi: "rat_of_int (uint w) \<le> 2 ^ 64" by (intro rat_le_power) simp
  have "uint w \<noteq> 0" using False by (simp add: unsigned_eq_0_iff)
  moreover have "0 \<le> uint w" by simp
  ultimately have "1 \<le> uint w" by linarith
  then have lo: "1 \<le> rat_of_int (uint w)" by (metis of_int_1 of_int_le_iff)
  note u = lo hi
  then obtain v where v: "f64_round (rat_of_int (uint w)) = Fin v"
      "rat_of_int (uint w) * (999999 / 1000000) \<le> v" "v \<le> rat_of_int (uint w) * (1000001 / 1000000)"
    using round_rel [of "rat_of_int (uint w)"] by auto
  then have "1 / 2 \<le> v" "v \<le> 2 ^ 66" using u by auto
  with v(1) False show ?thesis by (auto simp: f64_of_int_def)
qed

text \<open>The ratio of two differences is finite, and 0 time has no ratio.\<close>

lemma busy_ratio:
  fixes dt di :: "64 word"
  shows "f64_le (f64_of_int (uint dt)) (Fin 0) \<or>
    (\<exists>q. f64_div (f64_mul (f64_sub (f64_of_int (uint dt)) (f64_of_int (uint di))) (Fin 100))
            (f64_of_int (uint dt)) = Fin q)"
proof -
  obtain t where t: "f64_of_int (uint dt) = Fin t" "\<bar>t\<bar> \<le> 2 ^ 66"
      "dt \<noteq> 0 \<longrightarrow> 1 / 2 \<le> t" "dt = 0 \<longrightarrow> t = 0"
    using uint_conv by blast
  obtain i where i: "f64_of_int (uint di) = Fin i" "\<bar>i\<bar> \<le> 2 ^ 66"
    using uint_conv by blast
  show ?thesis
  proof (cases "t \<le> 0")
    case True
    then show ?thesis by (auto simp: t(1) f64_le_def)
  next
    case False
    then have t1: "1 / 2 \<le> t" using t(3,4) by auto
    have "\<bar>t + - i\<bar> \<le> 2 ^ 67" using t(2) i(2) by auto
    then obtain d where d: "f64_round (t + - i) = Fin d" "\<bar>d\<bar> \<le> 2 ^ 69"
      using round_finite [of "t + - i"] by auto
    then have "\<bar>d * 100\<bar> \<le> 2 ^ 76" by (simp add: abs_mult)
    then obtain m where m: "f64_round (d * 100) = Fin m" "\<bar>m\<bar> \<le> 2 ^ 78"
      using round_finite [of "d * 100"] by auto
    have "\<bar>m / t\<bar> = \<bar>m\<bar> / t" using t1 by (simp add: abs_divide)
    also have "\<dots> \<le> \<bar>m\<bar> / (1 / 2)" using t1 by (intro divide_left_mono) auto
    also have "\<dots> \<le> 2 ^ 80" using m(2) by simp
    finally obtain q where q: "f64_round (m / t) = Fin q" using round_finite by blast
    have "t \<noteq> 0" using t1 by auto
    then show ?thesis by (simp add: t(1) i(1) f64_sub_def d(1) [simplified] m(1) q)
  qed
qed

text \<open>The CPU percentage of a sample is a number between 0 and 100, for every pair of
  readings, also when a counter went backwards and the \<open>uint64\<close> difference wrapped.\<close>

lemma cpuPct_range:
  "\<exists>p. cpuPct arch prev cur = Fin p \<and> 0 \<le> p \<and> p \<le> 100"
proof -
  let ?dt = "f64_of_int (uint (cpu_total cur - cpu_total prev))"
  let ?di = "f64_of_int (uint (cpu_idle cur - cpu_idle prev))"
  consider "f64_le ?dt (Fin 0)"
    | q where "f64_div (f64_mul (f64_sub ?dt ?di) (Fin 100)) ?dt = Fin q" "\<not> f64_le ?dt (Fin 0)"
    using busy_ratio by blast
  then show ?thesis
  proof cases
    case 1
    then show ?thesis by (simp add: cpuPct_def Let_def)
  next
    case (2 q)
    then have "cpuPct arch prev cur =
        (if q < 0 then Fin 0 else if 100 < q then Fin 100 else round1 arch (Fin q))"
      by (simp add: cpuPct_def Let_def)
    then show ?thesis using round1_range [of q arch] by auto
  qed
qed

lemma ratio_bound:
  fixes m d y x t :: rat
  assumes "m \<le> d * 100 * (1000001 / 1000000)" "d \<le> y * (1000001 / 1000000)" "y \<le> x"
    and "x * (999999 / 1000000) \<le> t" "1 \<le> x"
  shows "m \<le> (100 + 1 / 100) * t"
proof -
  have d: "d \<le> x * (1000001 / 1000000)" using assms(2,3) by simp
  have "m \<le> x * (1000001 / 1000000) * 100 * (1000001 / 1000000)" using assms(1) d by simp
  also have "\<dots> \<le> (100 + 1 / 100) * (x * (999999 / 1000000))" using assms(5) by simp
  also have "\<dots> \<le> (100 + 1 / 100) * t" using assms(4) by simp
  finally show ?thesis .
qed

text \<open>When the kernel reports no more available memory than there is, the memory
  percentage is a number between 0 and 100, although the code does not clamp it.\<close>

lemma mem_pct_range:
  assumes "0 \<le> avail" "avail \<le> tot" "tot < 2 ^ 63"
  shows "\<exists>p. mem_pct arch tot avail = Fin p \<and> 0 \<le> p \<and> p \<le> 100"
proof (cases "tot \<le> 0")
  case True
  then show ?thesis by (simp add: mem_pct_def)
next
  case False
  have w: "wrap64 (tot - avail) = tot - avail" using assms by (intro wrap64_id) auto
  have tb: "1 \<le> rat_of_int tot" "rat_of_int tot \<le> 2 ^ 63"
    using False assms(3) rat_le_power [of tot 63] by auto
  then obtain t where t: "f64_round (rat_of_int tot) = Fin t" "rat_of_int tot * (999999 / 1000000) \<le> t"
    using round_rel [of "rat_of_int tot"] by auto
  have t0: "0 < t" using t(2) tb(1) by auto
  show ?thesis
  proof (cases "tot = avail")
    case True
    then have "mem_pct arch tot avail = round1 arch (Fin 0)"
      using False t0 w t(1) by (simp add: mem_pct_def f64_of_int_def)
    then show ?thesis using round1_range [of 0 arch] by simp
  next
    case neq: False
    let ?d = "rat_of_int (tot - avail)"
    have db: "1 \<le> ?d" "?d \<le> rat_of_int tot"
      using neq assms by simp_all
    then obtain d where d: "f64_round ?d = Fin d" "?d * (999999 / 1000000) \<le> d"
        "d \<le> ?d * (1000001 / 1000000)"
      using round_rel [of ?d] tb by auto
    have "1 \<le> d * 100" "d * 100 \<le> 2 ^ 80" using d(2,3) db tb by auto
    then obtain m where m: "f64_round (d * 100) = Fin m" "d * 100 * (999999 / 1000000) \<le> m"
        "m \<le> d * 100 * (1000001 / 1000000)"
      using round_rel by blast
    have "m \<le> (100 + 1 / 100) * t" by (rule ratio_bound [OF m(3) d(3) db(2) t(2) tb(1)])
    then have "0 \<le> m / t" "m / t \<le> 100 + 1 / 100"
      using t0 m(2) \<open>1 \<le> d * 100\<close> by (auto simp: pos_divide_le_eq)
    moreover have "m / t \<le> 2000" using \<open>m / t \<le> 100 + 1 / 100\<close> by linarith
    ultimately obtain q where q: "f64_round (m / t) = Fin q" "q \<le> m / t + 1 / 1000"
      using round_near [of "m / t"] by blast
    have "0 \<le> q" using f64_round_nonneg [OF \<open>0 \<le> m / t\<close> q(1)] .
    moreover have "mem_pct arch tot avail = round1 arch (Fin q)"
      using False t0 w t(1) d(1) m(1) q(1) by (simp add: mem_pct_def f64_of_int_def)
    ultimately show ?thesis
      using round1_range [of q arch] q(2) \<open>m / t \<le> 100 + 1 / 100\<close> by auto
  qed
qed

lemma mem_pct_range_witness:
  "\<exists>p. mem_pct Arm64 16384000 4096000 = Fin p \<and> 0 \<le> p \<and> p \<le> 100"
  using mem_pct_range [of 4096000 16384000 Arm64] by simp

section \<open>Reading back the kernel's CPU line\<close>

definition cpu_line :: "nat list \<Rightarrow> string" where
  "cpu_line vs = join_with '' '' (''cpu'' # map digits vs)"

definition word_sum :: "nat list \<Rightarrow> 64 word" where
  "word_sum vs = (\<Sum>v\<leftarrow>vs. of_nat v)"

lemma add_columns_late:
  "5 \<le> i \<Longrightarrow> (\<forall>v\<in>set vs. v < 2 ^ 64) \<Longrightarrow>
     add_columns i (map digits vs) s = s\<lparr>cpu_total := cpu_total s + word_sum vs\<rparr>"
  by (induction vs arbitrary: i s)
    (auto simp: word_sum_def parse_uint_digits Let_def add.assoc)

lemma add_columns_digits:
  assumes "\<forall>v\<in>set vs. v < 2 ^ 64"
  shows "add_columns 0 (map digits vs) \<lparr>cpu_total = 0, cpu_idle = 0\<rparr> =
    \<lparr>cpu_total = word_sum vs, cpu_idle = word_sum (take 2 (drop 3 vs))\<rparr>"
proof -
  consider "length vs \<le> 4" | a b c d e r where "vs = a # b # c # d # e # r"
    by (cases vs; cases "tl vs"; cases "tl (tl vs)"; cases "tl (tl (tl vs))";
        cases "tl (tl (tl (tl vs)))") auto
  then show ?thesis
  proof cases
    case 2
    then show ?thesis
      using assms by (simp add: parse_uint_digits Let_def add_columns_late word_sum_def add.assoc)
  next
    case 1
    then show ?thesis
      using assms by (cases vs; cases "tl vs"; cases "tl (tl vs)"; cases "tl (tl (tl vs))";
          cases "tl (tl (tl (tl vs)))"; simp add: parse_uint_digits Let_def word_sum_def)
  qed
qed

lemma cpu_plain: "plain_word ''cpu''"
  by (simp add: plain_word_def space_lead_def go_spaces_def)

lemma cpu_line_fields: "str_fields (cpu_line vs) = ''cpu'' # map digits vs"
  unfolding cpu_line_def by (rule fields_join) (auto simp: cpu_plain plain_digits)

lemma set_join_with: "set (join_with sep ws) \<subseteq> set sep \<union> \<Union> (set (map set ws))"
  by (induction sep ws rule: join_with.induct) auto

lemma split_on_line: "c \<notin> set l \<Longrightarrow> split_on c (l @ c # rest) = l # split_on c rest"
  by (induction l) auto

lemma cpu_line_no_newline: "CHR 0x0A \<notin> set (cpu_line vs)"
proof
  assume "CHR 0x0A \<in> set (cpu_line vs)"
  then consider "CHR 0x0A \<in> set '' ''" | "CHR 0x0A \<in> set ''cpu''"
    | v where "CHR 0x0A \<in> set (digits v)"
    using set_join_with [of "'' ''" "''cpu'' # map digits vs"] by (auto simp: cpu_line_def)
  then show False
  proof cases
    case (3 v)
    then have "is_digit CHR 0x0A" using digits_chars [of v] by blast
    then show False by (simp add: is_digit_def)
  qed simp_all
qed

lemma cpu_line_prefix: "vs \<noteq> [] \<Longrightarrow> has_prefix (cpu_line vs) ''cpu ''"
  by (cases vs) (simp_all add: cpu_line_def has_prefix_def)

text \<open>The sample read from a kernel CPU line is the sum of all its columns and the sum of
  the idle and iowait columns, as \<open>uint64\<close> values.\<close>

lemma readCPUSample_reads:
  assumes "vs \<noteq> []" "\<forall>v\<in>set vs. v < 2 ^ 64"
    and "fs_file fs ''/proc/stat'' = Inr (cpu_line vs @ CHR 0x0A # rest)"
  shows "readCPUSample fs =
    Inr \<lparr>cpu_total = word_sum vs, cpu_idle = word_sum (take 2 (drop 3 vs))\<rparr>"
  using assms cpu_line_prefix [OF assms(1)]
  by (simp add: readCPUSample_def split_on_line cpu_line_no_newline cpu_line_fields
      add_columns_digits)

lemma readCPUSample_reads_witness:
  "readCPUSample \<lparr>fs_dir = (\<lambda>_. DirNotExist),
     fs_file = (\<lambda>_. Inr (cpu_line [10, 0, 5, 80, 5, 0] @ CHR 0x0A # ''intr 0''))\<rparr> =
   Inr \<lparr>cpu_total = 100, cpu_idle = 85\<rparr>"
  using readCPUSample_reads [of "[10, 0, 5, 80, 5, 0]" "\<lparr>fs_dir = (\<lambda>_. DirNotExist),
     fs_file = (\<lambda>_. Inr (cpu_line [10, 0, 5, 80, 5, 0] @ CHR 0x0A # ''intr 0''))\<rparr>" "''intr 0''"]
  by (simp add: word_sum_def)

end
