(* ===== verification/Agent_Main.thy ===== *)
theory Agent_Main
  imports Agent_Config Release_Verify Live_Metrics
begin

text \<open>
  The process (cmd/agent/main.go): the command line, the start-up sequence with its exit codes,
  and the heartbeat loop whose ticker the server can retune.
\<close>

section \<open>The flag package\<close>

text \<open>What the agent uses of \<open>flag.FlagSet\<close> with \<open>ExitOnError\<close>: boolean and string flags.
  The result is the last value set for each flag and the remaining arguments.\<close>

datatype flag_kind = BoolFlag | StringFlag

datatype flag_result =
    FlagHelp
  | FlagError
  | FlagsParsed "(string \<times> string) list" "string list"

definition parse_bool :: "string \<Rightarrow> bool option" where
  "parse_bool s =
     (if s \<in> {''1'', ''t'', ''T'', ''TRUE'', ''true'', ''True''} then Some True
      else if s \<in> {''0'', ''f'', ''F'', ''FALSE'', ''false'', ''False''} then Some False
      else None)"

text \<open>The name and the value of an argument \<open>name=value\<close>; the first character is never a
  separator.\<close>

definition flag_split :: "string \<Rightarrow> string \<times> string option" where
  "flag_split s =
     (case s of
        [] \<Rightarrow> ([], None)
      | c # cs \<Rightarrow>
          if CHR ''='' \<in> set cs
          then (c # takeWhile (\<lambda>x. x \<noteq> CHR ''='') cs, Some (tl (dropWhile (\<lambda>x. x \<noteq> CHR ''='') cs)))
          else (s, None))"

fun parse_flags ::
  "(string \<Rightarrow> flag_kind option) \<Rightarrow> string list \<Rightarrow> (string \<times> string) list \<Rightarrow> flag_result" where
  "parse_flags kinds [] vals = FlagsParsed vals []"
| "parse_flags kinds (s # rest) vals =
     (if length s < 2 \<or> hd s \<noteq> CHR ''-'' then FlagsParsed vals (s # rest)
      else if s = ''--'' then FlagsParsed vals rest
      else
        let body = (if s ! 1 = CHR ''-'' then drop 2 s else drop 1 s) in
        if body = [] \<or> hd body = CHR ''-'' \<or> hd body = CHR ''='' then FlagError
        else
          let (name, val) = flag_split body in
          (case kinds name of
             None \<Rightarrow> if name = ''help'' \<or> name = ''h'' then FlagHelp else FlagError
           | Some BoolFlag \<Rightarrow>
               (case val of
                  None \<Rightarrow> parse_flags kinds rest (vals @ [(name, ''true'')])
                | Some v \<Rightarrow>
                    (case parse_bool v of
                       None \<Rightarrow> FlagError
                     | Some _ \<Rightarrow> parse_flags kinds rest (vals @ [(name, v)])))
           | Some StringFlag \<Rightarrow>
               (case val of
                  Some v \<Rightarrow> parse_flags kinds rest (vals @ [(name, v)])
                | None \<Rightarrow>
                    (case rest of
                       [] \<Rightarrow> FlagError
                     | v # rest' \<Rightarrow> parse_flags kinds rest' (vals @ [(name, v)])))))"

section \<open>The command line\<close>

definition exitOK :: int where "exitOK = 0"
definition exitUsage :: int where "exitUsage = 2"
definition exitConfig :: int where "exitConfig = 2"
definition exitInternal :: int where "exitInternal = 3"
definition exitAlreadyRunning :: int where "exitAlreadyRunning = 4"

lemmas exit_codes = exitOK_def exitUsage_def exitConfig_def exitInternal_def
  exitAlreadyRunning_def

definition verify_flags :: "string \<Rightarrow> flag_kind option" where
  "verify_flags n = (if n = ''sums'' \<or> n = ''sig'' then Some StringFlag else None)"

text \<open>The last value set for a flag, or the empty default.\<close>

definition flag_value :: "(string \<times> string) list \<Rightarrow> string \<Rightarrow> string" where
  "flag_value vals n = (case map_of (rev vals) n of None \<Rightarrow> [] | Some v \<Rightarrow> v)"

text \<open>\<open>runVerifyRelease\<close> never returns: its exit code. \<open>verify\<close> is \<open>release.Verify\<close>.\<close>

definition runVerifyRelease :: "(string \<Rightarrow> string \<Rightarrow> verify_error + unit) \<Rightarrow> string list \<Rightarrow> int" where
  "runVerifyRelease verify argv =
     (case parse_flags verify_flags argv [] of
        FlagHelp \<Rightarrow> 0
      | FlagError \<Rightarrow> 2
      | FlagsParsed vals rest \<Rightarrow>
          if flag_value vals ''sums'' = [] \<or> flag_value vals ''sig'' = [] then exitUsage
          else (case verify (flag_value vals ''sums'') (flag_value vals ''sig'') of
                  Inl e \<Rightarrow> exitInternal
                | Inr _ \<Rightarrow> exitOK))"

datatype cli = Exit int | Boot

definition agent_flags :: "string \<Rightarrow> flag_kind option" where
  "agent_flags n = (if n = ''version'' \<or> n = ''v'' then Some BoolFlag else None)"

text \<open>\<open>version\<close> and \<open>v\<close> set the same variable, so the last one of either decides.\<close>

definition version_flag :: "(string \<times> string) list \<Rightarrow> bool" where
  "version_flag vals = (vals \<noteq> [] \<and> parse_bool (snd (last vals)) = Some True)"

definition handleCLIArgs :: "(string \<Rightarrow> string \<Rightarrow> verify_error + unit) \<Rightarrow> string list \<Rightarrow> cli" where
  "handleCLIArgs verify args =
     (if args \<noteq> [] \<and> hd args = ''verify-release'' then Exit (runVerifyRelease verify (tl args))
      else (case parse_flags agent_flags args [] of
              FlagHelp \<Rightarrow> Exit 0
            | FlagError \<Rightarrow> Exit 2
            | FlagsParsed vals rest \<Rightarrow>
                if version_flag vals \<or> (rest \<noteq> [] \<and> hd rest = ''version'') then Exit exitOK
                else if rest \<noteq> [] then Exit exitUsage
                else Boot))"

section \<open>Start-up\<close>

definition defaultLockFile :: string where
  "defaultLockFile = ''/var/lib/iclic-host-agent/agent.lock''"

definition defaultCollectorDir :: string where
  "defaultCollectorDir = ''/etc/iclic-host-agent/collectors.d''"

definition defaultPprofAddr :: string where "defaultPprofAddr = ''127.0.0.1:6133''"

definition defaultGoMemLimitBytes :: int where "defaultGoMemLimitBytes = 384 * 1024 * 1024"

definition lock_path :: "(string \<Rightarrow> string) \<Rightarrow> string" where
  "lock_path env =
     (if env ''ICLIC_AGENT_LOCK_FILE'' = [] then defaultLockFile else env ''ICLIC_AGENT_LOCK_FILE'')"

text \<open>\<open>openable\<close> and \<open>flock\<close> say whether the lock file can be opened and locked; the kernel refuses
  the lock while another process holds it.\<close>

datatype lock_result = NoLock | Held string | AlreadyRunning

definition acquireSingleInstanceLock ::
  "(string \<Rightarrow> string) \<Rightarrow> (string \<Rightarrow> bool) \<Rightarrow> (string \<Rightarrow> bool) \<Rightarrow> lock_result" where
  "acquireSingleInstanceLock env openable flock =
     (let path = lock_path env
      in if \<not> openable path then NoLock
         else if \<not> flock path then AlreadyRunning else Held path)"

text \<open>The soft memory limit the agent sets itself, if any, and the address of the diagnostic
  listener, if any.\<close>

definition applyMemoryLimit :: "(string \<Rightarrow> string) \<Rightarrow> int option" where
  "applyMemoryLimit env =
     (if env ''GOMEMLIMIT'' = [] then Some defaultGoMemLimitBytes else None)"

definition startPprof :: "(string \<Rightarrow> string) \<Rightarrow> string option" where
  "startPprof env =
     (let addr = (if env ''ICLIC_AGENT_PPROF_ADDR'' = [] then defaultPprofAddr
                  else env ''ICLIC_AGENT_PPROF_ADDR'')
      in if addr = ''disabled'' \<or> addr = ''off'' then None else Some addr)"

record agent =
  ag_cfg :: Config
  ag_collectorDir :: string
  ag_lock :: lock_result
  ag_memLimit :: "int option"
  ag_pprof :: "string option"

text \<open>The sequence up to the heartbeat loop: an exit code, or the running agent.\<close>

definition start ::
  "(string \<Rightarrow> string) \<Rightarrow> filesys \<Rightarrow> (string \<Rightarrow> json option) \<Rightarrow> (string \<Rightarrow> bool) \<Rightarrow> (string \<Rightarrow> bool)
   \<Rightarrow> (string \<Rightarrow> string \<Rightarrow> verify_error + unit) \<Rightarrow> string list \<Rightarrow> int + agent" where
  "start env fs parse openable flock verify args =
     (case handleCLIArgs verify args of
        Exit code \<Rightarrow> Inl code
      | Boot \<Rightarrow>
          let lock = acquireSingleInstanceLock env openable flock in
          if lock = AlreadyRunning then Inl exitAlreadyRunning
          else (case Load env fs parse of
                  Inl e \<Rightarrow> Inl exitConfig
                | Inr cfg \<Rightarrow>
                    Inr \<lparr>ag_cfg = cfg,
                         ag_collectorDir =
                           (if env ''ICLIC_COLLECTOR_DIR'' = [] then defaultCollectorDir
                            else env ''ICLIC_COLLECTOR_DIR''),
                         ag_lock = lock, ag_memLimit = applyMemoryLimit env,
                         ag_pprof = startPprof env\<rparr>))"

section \<open>The ticker\<close>

text \<open>The interval in effect, in seconds, and the period of the ticker, in nanoseconds; a
  \<open>time.Duration\<close> is an \<open>int64\<close>, and a ticker panics on a period that is not positive.\<close>

record ticking =
  tk_interval :: int
  tk_period :: int

definition seconds :: "int \<Rightarrow> int" where
  "seconds n = wrap64 (n * 1000000000)"

definition start_ticker :: "int \<Rightarrow> ticking option" where
  "start_ticker interval =
     (if seconds interval \<le> 0 then None
      else Some \<lparr>tk_interval = interval, tk_period = seconds interval\<rparr>)"

definition applyInterval :: "int \<Rightarrow> ticking \<Rightarrow> ticking option" where
  "applyInterval desired t =
     (if desired \<le> 0 \<or> desired = tk_interval t then Some t
      else if seconds desired \<le> 0 then None
      else Some (t\<lparr>tk_interval := desired, tk_period := seconds desired\<rparr>))"

text \<open>The heartbeats of the loop, each with its result: an error leaves the ticker alone. The
  value is the state after the last of them, or \<open>None\<close> if the process panicked.\<close>

fun heartbeats :: "('e + int) list \<Rightarrow> ticking \<Rightarrow> ticking option" where
  "heartbeats [] t = Some t"
| "heartbeats (Inl e # rs) t = heartbeats rs t"
| "heartbeats (Inr desired # rs) t =
     (case applyInterval desired t of None \<Rightarrow> None | Some t' \<Rightarrow> heartbeats rs t')"

definition main_loop :: "Config \<Rightarrow> ('e + int) list \<Rightarrow> ticking option" where
  "main_loop cfg rs =
     (case start_ticker (HeartbeatIntervalSeconds cfg) of None \<Rightarrow> None | Some t \<Rightarrow> heartbeats rs t)"

section \<open>Facts about the flags\<close>

text \<open>Arguments that a run of the agent without subcommand accepts.\<close>

definition version_arg :: "string \<Rightarrow> bool" where
  "version_arg a = (a = ''--'' \<or>
     (\<exists>body. (a = CHR ''-'' # body \<or> a = ''--'' @ body) \<and> agent_flags (fst (flag_split body)) \<noteq> None))"

lemma parse_flags_accepted:
  "parse_flags agent_flags args vals = FlagsParsed vals' [] \<Longrightarrow> \<forall>a\<in>set args. version_arg a"
proof (induction args arbitrary: vals)
  case (Cons s rest)
  show ?case
  proof (cases "s = ''--''")
    case True
    with Cons.prems show ?thesis by (simp add: version_arg_def)
  next
    case False
    let ?body = "if s ! 1 = CHR ''-'' then drop 2 s else drop 1 s"
    have s: "2 \<le> length s" "hd s = CHR ''-''"
      using Cons.prems by (auto split: if_splits)
    then obtain c cs where sc: "s = CHR ''-'' # c # cs"
      by (cases s; cases "tl s") auto
    have body: "s = CHR ''-'' # ?body \<or> s = ''--'' @ ?body" using sc by auto
    obtain n v where nv: "flag_split ?body = (n, v)" by fastforce
    have "agent_flags n = Some BoolFlag"
      using Cons.prems False s nv by (auto simp: Let_def agent_flags_def split: if_splits)
    then have "version_arg s" using body nv unfolding version_arg_def by fastforce
    moreover have "\<exists>vals''. parse_flags agent_flags rest vals'' = FlagsParsed vals' []"
      using Cons.prems False s nv \<open>agent_flags n = Some BoolFlag\<close>
      by (auto simp: Let_def split: if_splits option.splits)
    then have "\<forall>a\<in>set rest. version_arg a" using Cons.IH by blast
    ultimately show ?thesis by simp
  qed
qed simp

section \<open>Properties\<close>

text \<open>C24: an agent boots only from arguments that are \<open>version\<close> flags or the terminator, and then with
  a complete configuration. It holds the lock on its lock file unless that file cannot be opened,
  in which case it runs without one; and as long as the kernel refuses the lock on that file to
  others, no start under the same lock file, with whatever environment, files and arguments, yields a second
  agent on a host where the file can be opened.\<close>

theorem start_only_if_ready:
  assumes "start env fs parse openable flock verify args = Inr ag"
  shows "(\<forall>a\<in>set args. version_arg a) \<and>
    Load env fs parse = Inr (ag_cfg ag) \<and> AgentSecret (ag_cfg ag) \<noteq> [] \<and>
    10 \<le> HeartbeatIntervalSeconds (ag_cfg ag) \<and>
    (if openable (lock_path env) then flock (lock_path env) \<and> ag_lock ag = Held (lock_path env)
     else ag_lock ag = NoLock) \<and>
    (\<forall>path env' fs' parse' openable' flock' verify' args'.
       ag_lock ag = Held path \<longrightarrow> lock_path env' = path \<longrightarrow> openable' path \<longrightarrow> \<not> flock' path \<longrightarrow>
       (\<exists>code. start env' fs' parse' openable' flock' verify' args' = Inl code))"
proof -
  have boot: "handleCLIArgs verify args = Boot"
    using assms by (simp add: start_def split: cli.splits)
  then obtain vals where "parse_flags agent_flags args [] = FlagsParsed vals []"
    by (auto simp: handleCLIArgs_def split: if_splits flag_result.splits)
  then have "\<forall>a\<in>set args. version_arg a" by (rule parse_flags_accepted)
  moreover have l: "Load env fs parse = Inr (ag_cfg ag)"
      "ag_lock ag = acquireSingleInstanceLock env openable flock" "ag_lock ag \<noteq> AlreadyRunning"
    using assms boot by (auto simp: start_def Let_def split: if_splits sum.splits)
  moreover have "AgentSecret (ag_cfg ag) \<noteq> [] \<and> 10 \<le> HeartbeatIntervalSeconds (ag_cfg ag)"
    using l(1) by (auto simp: Load_def Let_def result_bind_Inr_iff validate_None_iff [symmetric]
        split: option.splits) (auto simp: validate_None_iff)
  moreover have "if openable (lock_path env) then flock (lock_path env) \<and> ag_lock ag = Held (lock_path env)
      else ag_lock ag = NoLock"
    using l(2,3) by (auto simp: acquireSingleInstanceLock_def Let_def split: if_splits)
  ultimately show ?thesis
    by (auto simp: start_def acquireSingleInstanceLock_def Let_def split: cli.split)
qed

text \<open>The first agent holds the default lock file; a second one with its own environment does not start.\<close>

theorem start_only_if_ready_witness:
  "\<exists>ag code. start demo_env demo_config_fs demo_config_json (\<lambda>_. True) (\<lambda>_. True) (\<lambda>_ _. Inr ()) [''-v=false'']
     = Inr ag \<and> 10 \<le> HeartbeatIntervalSeconds (ag_cfg ag) \<and> version_arg ''-v=false'' \<and>
     ag_lock ag = Held defaultLockFile \<and>
     start (\<lambda>_. []) demo_config_fs demo_config_json (\<lambda>_. True) (\<lambda>p. p \<noteq> defaultLockFile) (\<lambda>_ _. Inr ()) [] = Inl code"
proof -
  have b: "handleCLIArgs (\<lambda>_ _. Inr ()) [''-v=false''] = Boot"
    by (simp add: handleCLIArgs_def flag_split_def agent_flags_def parse_bool_def version_flag_def)
  then obtain ag where ag: "start demo_env demo_config_fs demo_config_json (\<lambda>_. True) (\<lambda>_. True)
      (\<lambda>_ _. Inr ()) [''-v=false''] = Inr ag"
    by (simp add: start_def demo_Load Let_def acquireSingleInstanceLock_def)
  have p: "lock_path demo_env = defaultLockFile" "lock_path (\<lambda>_. []) = defaultLockFile"
    by (simp_all add: lock_path_def demo_env_def env_names)
  from start_only_if_ready [OF ag] have "ag_lock ag = Held defaultLockFile" by (simp add: p)
  with start_only_if_ready [OF ag] p ag show ?thesis by (intro exI [of _ ag]) force
qed

text \<open>\<open>verify-release\<close> exits with 0 only when it was asked for its usage, or when both
  files were named, could be read, and the signature verifies under the embedded key.\<close>

lemma verify_release_exit_0:
  "runVerifyRelease (Verify ed_verify fs) argv = 0 \<longleftrightarrow>
     parse_flags verify_flags argv [] = FlagHelp \<or>
     (\<exists>vals rest. parse_flags verify_flags argv [] = FlagsParsed vals rest \<and>
        flag_value vals ''sums'' \<noteq> [] \<and> flag_value vals ''sig'' \<noteq> [] \<and>
        (\<exists>pub msg sig. publicKey = Inr pub \<and> fs_file fs (flag_value vals ''sums'') = Inr msg \<and>
           fs_file fs (flag_value vals ''sig'') = Inr sig \<and> length sig = 64 \<and>
           ed_verify pub msg sig))"
proof -
  have v: "(\<exists>u. Verify ed_verify fs a b = Inr u) \<longleftrightarrow>
      (\<exists>pub msg sig. publicKey = Inr pub \<and> fs_file fs a = Inr msg \<and> fs_file fs b = Inr sig \<and>
         length sig = 64 \<and> ed_verify pub msg sig)" for a b
    unfolding Verify_Inr_iff by blast
  show ?thesis
    unfolding v [symmetric]
    by (auto simp: runVerifyRelease_def exit_codes split: flag_result.splits sum.splits)
qed

text \<open>\<open>verify-release --help\<close> exits with 0 although nothing was verified.\<close>

lemma verify_release_help_exits_0:
  assumes "verify_flags n = None" "n = ''help'' \<or> n = ''h''"
  shows "runVerifyRelease verify ((''--'' @ n) # rest) = 0 \<and> runVerifyRelease verify ((''-'' @ n) # rest) = 0"
  using assms(2) by (auto simp: runVerifyRelease_def flag_split_def verify_flags_def)

lemma verify_release_help_exits_0_witness:
  "runVerifyRelease (\<lambda>_ _. Inl SignatureInvalid) [''--help'', ''--sums'', ''a'', ''--sig'', ''b''] = 0"
  using verify_release_help_exits_0 [of "''help''" "\<lambda>_ _. Inl SignatureInvalid"
      "[''--sums'', ''a'', ''--sig'', ''b'']"]
  by (simp add: verify_flags_def)

text \<open>The interval the server asked for last.\<close>

definition last_asked :: "('e + int) list \<Rightarrow> int \<Rightarrow> int" where
  "last_asked rs i =
     foldl (\<lambda>i r. case r of Inl _ \<Rightarrow> i | Inr d \<Rightarrow> if d \<le> 0 then i else d) i rs"

lemma seconds_small: "- 9223372036 \<le> n \<Longrightarrow> n \<le> 9223372036 \<Longrightarrow> seconds n = n * 1000000000"
  unfolding seconds_def by (rule wrap64_id) auto

lemma heartbeats_track:
  assumes "\<forall>d. Inr d \<in> set rs \<longrightarrow> d \<le> 9223372036" "tk_period t = tk_interval t * 1000000000"
  shows "heartbeats rs t = Some \<lparr>tk_interval = last_asked rs (tk_interval t),
    tk_period = last_asked rs (tk_interval t) * 1000000000\<rparr>"
  using assms
proof (induction rs t rule: heartbeats.induct)
  case (1 t)
  then show ?case by (cases t) (simp add: last_asked_def)
next
  case (2 e rs t)
  then show ?case by (simp add: last_asked_def)
next
  case (3 desired rs t)
  show ?case
  proof (cases "desired \<le> 0 \<or> desired = tk_interval t")
    case True
    with 3 show ?thesis by (auto simp: applyInterval_def last_asked_def)
  next
    case False
    then have s: "seconds desired = desired * 1000000000" using 3(2) by (intro seconds_small) auto
    let ?t = "t\<lparr>tk_interval := desired, tk_period := seconds desired\<rparr>"
    have a: "applyInterval desired t = Some ?t" using False s by (simp add: applyInterval_def)
    have "tk_period ?t = tk_interval ?t * 1000000000" by (simp add: s)
    with 3(1) [OF a] 3(2) show ?thesis using a False by (simp add: last_asked_def)
  qed
qed

text \<open>As long as the configured and the requested intervals stay below 9223372037 seconds,
  the loop never panics, the interval in effect is the last positive one the server asked for
  (or the configured one), and the ticker runs at that interval.\<close>

lemma ticker_follows_server:
  assumes "10 \<le> HeartbeatIntervalSeconds cfg" "HeartbeatIntervalSeconds cfg \<le> 9223372036"
    and "\<forall>d. Inr d \<in> set rs \<longrightarrow> d \<le> 9223372036"
  shows "main_loop cfg rs = Some
    \<lparr>tk_interval = last_asked rs (HeartbeatIntervalSeconds cfg),
     tk_period = last_asked rs (HeartbeatIntervalSeconds cfg) * 1000000000\<rparr>"
  using assms seconds_small [of "HeartbeatIntervalSeconds cfg"]
  by (simp add: main_loop_def start_ticker_def heartbeats_track)

lemma ticker_follows_server_witness:
  "main_loop demo_config [Inr 0, Inl (), Inr 300, Inr (- 5)] =
     Some \<lparr>tk_interval = 300, tk_period = 300000000000\<rparr>"
  using ticker_follows_server [of demo_config "[Inr 0, Inl (), Inr 300, Inr (- 5)]"]
  by (simp add: demo_config_def last_asked_def)

text \<open>An interval between 9223372037 and 18446744073 seconds overflows the nanoseconds of
  the period to a negative number, and resetting or starting the ticker with it panics.\<close>

lemma interval_overflow_panics:
  assumes "9223372037 \<le> d" "d \<le> 18446744073"
  shows "start_ticker d = None \<and> (d \<noteq> tk_interval t \<longrightarrow> applyInterval d t = None)"
proof -
  have "(d * 1000000000 + 2 ^ 63) mod 2 ^ 64 = (d * 1000000000 + 2 ^ 63 - 2 ^ 64) mod (2 ^ 64 :: int)"
    by (metis minus_mod_self2)
  also have "\<dots> = d * 1000000000 + 2 ^ 63 - 2 ^ 64"
    using assms by (intro mod_pos_pos_trivial) auto
  finally have "seconds d = d * 1000000000 - 2 ^ 64" by (simp add: seconds_def wrap64_def)
  then have "seconds d \<le> 0" using assms by simp
  with assms show ?thesis by (simp add: start_ticker_def applyInterval_def)
qed

lemma interval_overflow_panics_witness:
  "main_loop demo_config [Inr 9999999999 :: unit + int] = None"
  using interval_overflow_panics [of 9999999999 "\<lparr>tk_interval = 30, tk_period = 30000000000\<rparr>"]
    seconds_small [of 30]
  by (simp add: main_loop_def start_ticker_def demo_config_def)

end
