(* ===== verification/Runner.thy ===== *)
theory Runner
  imports Collector_Config
begin

text \<open>
  The collector runner (collectors/runner.go): \<open>Run\<close> starts one goroutine per usable binding
  and merges the results, in the order in which the goroutines finish, into one map. The
  goroutines are the pending tasks of a run state and finishing one is a step, so a statement
  about every run that reaches the empty task list is a statement about every schedule.
\<close>

section \<open>Values, tasks and the merge\<close>

record runtimeSignal =
  rs_ProductCode :: string
  rs_ComponentCode :: string
  rs_InstanceKey :: string
  rs_Environment :: string
  rs_Status :: string
  rs_VersionSource :: string
  rs_RunningVersion :: string
  rs_BuildRef :: string
  rs_GitCommit :: string
  rs_Notes :: string
  rs_Payload :: gargs

text \<open>The value a primitive produces: a slice of runtime signals or any other value.\<close>

datatype any_val = AVal gval | ASignals "runtimeSignal list"

type_synonym metrics = "(string, any_val) gomap"
type_synonym PrimitiveFunc = "gargs \<Rightarrow> string + any_val"
type_synonym task = "Binding \<times> PrimitiveFunc"

definition mget :: "metrics \<Rightarrow> string \<Rightarrow> any_val" where
  "mget m k = (case map_of m k of None \<Rightarrow> AVal VNil | Some v \<Rightarrow> v)"

definition mergeBindingValue :: "any_val \<Rightarrow> any_val \<Rightarrow> any_val" where
  "mergeBindingValue existing incoming =
     (if existing = AVal VNil then incoming
      else (case existing of
              ASignals prev \<Rightarrow>
                (case incoming of ASignals nxt \<Rightarrow> ASignals (prev @ nxt) | AVal v \<Rightarrow> AVal v)
            | AVal _ \<Rightarrow> incoming))"

text \<open>The loop that starts the goroutines: a binding without a primitive or an output key and
  one that names an unknown primitive are skipped.\<close>

fun run_tasks :: "(string \<Rightarrow> PrimitiveFunc option) \<Rightarrow> Binding list \<Rightarrow> task list" where
  "run_tasks registry [] = []"
| "run_tasks registry (b # bs) =
     (if OutputKey b = [] \<or> Primitive b = [] then run_tasks registry bs
      else (case registry (Primitive b) of
              None \<Rightarrow> run_tasks registry bs
            | Some prim \<Rightarrow> (b, prim) # run_tasks registry bs))"

text \<open>One goroutine: run the primitive and, unless it fails, merge the result under the lock.\<close>

fun run_one :: "metrics \<Rightarrow> task \<Rightarrow> metrics" where
  "run_one out (b, prim) =
     (case prim (Args b) of
        Inl err \<Rightarrow> out
      | Inr v \<Rightarrow>
          AList.update (OutputKey b) (mergeBindingValue (mget out (OutputKey b)) v) out)"

record run_state =
  rst_pending :: "task list"
  rst_out :: metrics

inductive run_step :: "run_state \<Rightarrow> run_state \<Rightarrow> bool" where
  finish: "rst_pending s = xs @ t # ys \<Longrightarrow>
    run_step s (s\<lparr>rst_pending := xs @ ys, rst_out := run_one (rst_out s) t\<rparr>)"

inductive_cases run_stepE: "run_step s s'"

definition run_init :: "(string \<Rightarrow> PrimitiveFunc option) \<Rightarrow> Binding list \<Rightarrow> run_state" where
  "run_init registry bs = \<lparr>rst_pending = run_tasks registry bs, rst_out = []\<rparr>"

text \<open>\<open>Run registry bs m\<close>: a schedule of the goroutines makes \<open>collectors.Run\<close> return \<open>m\<close>
  (\<open>wg.Wait\<close> returns when no task is pending).\<close>

definition Run :: "(string \<Rightarrow> PrimitiveFunc option) \<Rightarrow> Binding list \<Rightarrow> metrics \<Rightarrow> bool" where
  "Run registry bs m =
     run_step\<^sup>*\<^sup>* (run_init registry bs) \<lparr>rst_pending = [], rst_out = m\<rparr>"

section \<open>Schedules are permutations\<close>

lemma run_steps_perm:
  assumes "run_step\<^sup>*\<^sup>* s s'"
  shows "\<exists>ts. mset (rst_pending s) = mset ts + mset (rst_pending s')
    \<and> rst_out s' = foldl run_one (rst_out s) ts"
  using assms
proof (induction rule: rtranclp_induct)
  case base
  show ?case by (intro exI [of _ "[]"]) simp
next
  case (step s1 s2)
  then obtain ts where ts: "mset (rst_pending s) = mset ts + mset (rst_pending s1)"
    "rst_out s1 = foldl run_one (rst_out s) ts" by blast
  from step.hyps(2) obtain xs t ys where "rst_pending s1 = xs @ t # ys"
    "s2 = s1\<lparr>rst_pending := xs @ ys, rst_out := run_one (rst_out s1) t\<rparr>"
    by (auto elim: run_stepE)
  with ts show ?case by (intro exI [of _ "ts @ [t]"]) simp
qed

lemma run_all_in_order:
  "run_step\<^sup>*\<^sup>* \<lparr>rst_pending = ts, rst_out = m\<rparr> \<lparr>rst_pending = [], rst_out = foldl run_one m ts\<rparr>"
proof (induction ts arbitrary: m)
  case (Cons t ts)
  have "run_step \<lparr>rst_pending = t # ts, rst_out = m\<rparr> \<lparr>rst_pending = ts, rst_out = run_one m t\<rparr>"
    using run_step.finish [of "\<lparr>rst_pending = t # ts, rst_out = m\<rparr>" "[]" t ts] by simp
  from converse_rtranclp_into_rtranclp [OF this Cons.IH] show ?case by simp
qed simp

lemma Run_permD:
  "Run registry bs m \<Longrightarrow>
     \<exists>ts. mset ts = mset (run_tasks registry bs) \<and> m = foldl run_one [] ts"
  unfolding Run_def run_init_def by (drule run_steps_perm) auto

lemma Run_returns: "Run registry bs (foldl run_one [] (run_tasks registry bs))"
  unfolding Run_def run_init_def by (rule run_all_in_order)

section \<open>What ends up under a key\<close>

fun task_result :: "task \<Rightarrow> (string \<times> any_val) option" where
  "task_result (b, prim) =
     (case prim (Args b) of Inl _ \<Rightarrow> None | Inr v \<Rightarrow> Some (OutputKey b, v))"

definition results_for :: "string \<Rightarrow> task list \<Rightarrow> any_val list" where
  "results_for k ts = map snd (filter (\<lambda>r. fst r = k) (List.map_filter task_result ts))"

lemma results_for_snoc:
  "results_for k (ts @ [t]) = results_for k ts @
     (case task_result t of Some (k', v) \<Rightarrow> if k' = k then [v] else [] | None \<Rightarrow> [])"
  by (auto simp: results_for_def List.map_filter_def split: option.splits)

lemma results_for_mset:
  "mset ts = mset ts' \<Longrightarrow> mset (results_for k ts) = mset (results_for k ts')"
  by (simp add: results_for_def List.map_filter_def)

lemma mergeBindingValue_nil [simp]: "mergeBindingValue (AVal VNil) v = v"
  by (simp add: mergeBindingValue_def)

lemma map_of_run:
  "map_of (foldl run_one [] ts) k =
     (if results_for k ts = [] then None
      else Some (foldl mergeBindingValue (AVal VNil) (results_for k ts)))"
proof (induction ts rule: rev_induct)
  case Nil
  show ?case by (simp add: results_for_def List.map_filter_def)
next
  case (snoc t ts)
  obtain b prim where t: "t = (b, prim)" by (cases t)
  show ?case
  proof (cases "prim (Args b)")
    case (Inl e)
    with snoc t show ?thesis by (simp add: results_for_snoc)
  next
    case (Inr v)
    with snoc t show ?thesis by (auto simp: results_for_snoc mget_def)
  qed
qed

section \<open>Merging that does not depend on the order\<close>

text \<open>The interface a merge must meet for the order of completion not to matter: on the values
  it is used for it adds up the contents.\<close>

locale commuting_merge =
  fixes merge :: "'v \<Rightarrow> 'v \<Rightarrow> 'v"
    and unit_val :: 'v
    and additive :: "'v \<Rightarrow> bool"
    and contents :: "'v \<Rightarrow> 'c multiset"
  assumes merge_unit: "merge unit_val v = v"
    and merge_additive: "additive a \<Longrightarrow> additive b \<Longrightarrow> additive (merge a b)"
    and merge_contents: "additive a \<Longrightarrow> additive b \<Longrightarrow>
      contents (merge a b) = contents a + contents b"
begin

lemma foldl_additive:
  assumes "additive a" and "\<forall>v \<in> set vs. additive v"
  shows "additive (foldl merge a vs)
    \<and> contents (foldl merge a vs) = contents a + (\<Sum>v \<in># mset vs. contents v)"
  using assms
  by (induction vs arbitrary: a) (auto simp: merge_additive merge_contents)

lemma fold_additive:
  assumes "vs \<noteq> []" and "\<forall>v \<in> set vs. additive v"
  shows "additive (foldl merge unit_val vs)
    \<and> contents (foldl merge unit_val vs) = (\<Sum>v \<in># mset vs. contents v)"
proof -
  obtain v ws where "vs = v # ws" using assms(1) by (cases vs) auto
  with foldl_additive [of v ws] assms(2) show ?thesis by (simp add: merge_unit)
qed

lemma fold_order_free:
  assumes "vs \<noteq> []" and "\<forall>v \<in> set vs. additive v" and "mset ws = mset vs"
  shows "contents (foldl merge unit_val ws) = contents (foldl merge unit_val vs)"
proof -
  have "set ws = set vs" "ws \<noteq> []"
    using assms(1,3) by (auto dest: mset_eq_setD)
  then show ?thesis
    using fold_additive [of vs] fold_additive [of ws] assms by simp
qed

end

fun is_signals :: "any_val \<Rightarrow> bool" where
  "is_signals (ASignals _) = True"
| "is_signals (AVal _) = False"

fun signals_of :: "any_val \<Rightarrow> runtimeSignal list" where
  "signals_of (ASignals xs) = xs"
| "signals_of (AVal _) = []"

interpretation signal_merge: commuting_merge mergeBindingValue "AVal VNil" is_signals
  "\<lambda>v. mset (signals_of v)"
proof
  fix a b :: any_val
  assume "is_signals a" "is_signals b"
  then show "is_signals (mergeBindingValue a b)"
    "mset (signals_of (mergeBindingValue a b)) = mset (signals_of a) + mset (signals_of b)"
    by (cases a; cases b; simp add: mergeBindingValue_def)+
qed simp

section \<open>Properties\<close>

text \<open>Whatever the order in which the collectors finish, the metrics hold a key exactly when
  some usable binding for that key succeeded; a failed, unknown or incomplete binding adds
  nothing and never removes another binding's metric.\<close>

lemma Run_keys:
  assumes "Run registry bs m"
  shows "k \<in> set (gomap_keys m) \<longleftrightarrow> results_for k (run_tasks registry bs) \<noteq> []"
proof -
  from Run_permD [OF assms] obtain ts where ts: "mset ts = mset (run_tasks registry bs)"
    and m: "m = foldl run_one [] ts" by blast
  from results_for_mset [OF ts, of k] have "results_for k ts = [] \<longleftrightarrow>
    results_for k (run_tasks registry bs) = []"
    by (metis mset_zero_iff)
  then show ?thesis
    using map_of_run [of ts k] unfolding keys_map_of m by (auto split: if_splits)
qed

text \<open>A key written by one binding only has that binding's value after every schedule.\<close>

lemma Run_single_writer:
  assumes "Run registry bs m" and "results_for k (run_tasks registry bs) = [v]"
  shows "map_of m k = Some v"
proof -
  from Run_permD [OF assms(1)] obtain ts where ts: "mset ts = mset (run_tasks registry bs)"
    and m: "m = foldl run_one [] ts" by blast
  from results_for_mset [OF ts, of k] assms(2) have "results_for k ts = [v]"
    by simp
  then show ?thesis by (simp add: m map_of_run)
qed

text \<open>C14: Bindings that share a key and all produce runtime signals lose none of them: after
  every schedule the key holds one slice with the signals of all of them.\<close>

theorem Run_signals_concatenated:
  assumes "Run registry bs m"
    and "results_for k (run_tasks registry bs) \<noteq> []"
    and "\<forall>v \<in> set (results_for k (run_tasks registry bs)). is_signals v"
  shows "\<exists>sigs. map_of m k = Some (ASignals sigs)
    \<and> mset sigs = (\<Sum>v \<in># mset (results_for k (run_tasks registry bs)). mset (signals_of v))"
proof -
  let ?vs = "results_for k (run_tasks registry bs)"
  from Run_permD [OF assms(1)] obtain ts where ts: "mset ts = mset (run_tasks registry bs)"
    and m: "m = foldl run_one [] ts" by blast
  note same = results_for_mset [OF ts, of k]
  then have ws: "results_for k ts \<noteq> []" "\<forall>v \<in> set (results_for k ts). is_signals v"
    using assms(2,3) by (auto dest: mset_eq_setD)
  from signal_merge.fold_additive [OF this] obtain sigs where
    "foldl mergeBindingValue (AVal VNil) (results_for k ts) = ASignals sigs"
    "mset sigs = (\<Sum>v \<in># mset ?vs. mset (signals_of v))"
    by (cases "foldl mergeBindingValue (AVal VNil) (results_for k ts)") (auto simp: same)
  with ws(1) show ?thesis by (simp add: m map_of_run)
qed

definition demo_signal :: "string \<Rightarrow> runtimeSignal" where
  "demo_signal c =
     \<lparr>rs_ProductCode = ''ICOSYS'', rs_ComponentCode = c, rs_InstanceKey = [],
      rs_Environment = [], rs_Status = ''HEALTHY'', rs_VersionSource = ''HOST_AGENT'',
      rs_RunningVersion = [], rs_BuildRef = [], rs_GitCommit = [], rs_Notes = [],
      rs_Payload = []\<rparr>"

fun demo_registry :: "string \<Rightarrow> PrimitiveFunc option" where
  "demo_registry p =
     (if p = ''runtime.services'' then
        Some (\<lambda>args. case gget args ''code'' of VStr c \<Rightarrow> Inr (ASignals [demo_signal c])
                     | _ \<Rightarrow> Inl ''services: required list'')
      else if p = ''os.arch'' then Some (\<lambda>_. Inr (AVal (VStr ''amd64'')))
      else if p = ''http.get_json'' then Some (\<lambda>_. Inr (AVal VNil))
      else None)"

definition demo_bindings :: "Binding list" where
  "demo_bindings =
     [\<lparr>ID = ''icosys'', Primitive = ''runtime.services'',
       Args = [(''code'', VStr ''icglb'')], OutputKey = ''runtime_instances''\<rparr>,
      \<lparr>ID = ''arch'', Primitive = ''os.arch'', Args = [], OutputKey = ''arch''\<rparr>,
      \<lparr>ID = ''bad'', Primitive = ''nosuch'', Args = [], OutputKey = ''bad''\<rparr>,
      \<lparr>ID = ''aigw'', Primitive = ''runtime.services'',
       Args = [(''code'', VStr ''aigateway'')], OutputKey = ''runtime_instances''\<rparr>]"

lemma demo_results:
  "results_for ''arch'' (run_tasks demo_registry demo_bindings) = [AVal (VStr ''amd64'')]"
  "results_for ''bad'' (run_tasks demo_registry demo_bindings) = []"
  "results_for ''runtime_instances'' (run_tasks demo_registry demo_bindings) =
     [ASignals [demo_signal ''icglb''], ASignals [demo_signal ''aigateway'']]"
  by (simp_all add: demo_bindings_def results_for_def List.map_filter_def gget_def)

lemma Run_keys_witness:
  "''arch'' \<in> set (gomap_keys (foldl run_one [] (run_tasks demo_registry demo_bindings)))
   \<and> ''bad'' \<notin> set (gomap_keys (foldl run_one [] (run_tasks demo_registry demo_bindings)))"
  using Run_keys [OF Run_returns [of demo_registry demo_bindings], of "''arch''"]
    Run_keys [OF Run_returns [of demo_registry demo_bindings], of "''bad''"]
  unfolding demo_results by blast

lemma Run_single_writer_witness:
  "map_of (foldl run_one [] (run_tasks demo_registry demo_bindings)) ''arch'' =
     Some (AVal (VStr ''amd64''))"
  by (rule Run_single_writer [OF Run_returns demo_results(1)])

theorem Run_signals_concatenated_witness:
  "\<exists>sigs. map_of (foldl run_one [] (run_tasks demo_registry demo_bindings)) ''runtime_instances'' =
       Some (ASignals sigs)
    \<and> mset sigs = {# demo_signal ''icglb'', demo_signal ''aigateway'' #}"
  using Run_signals_concatenated
      [OF Run_returns [of demo_registry demo_bindings], of "''runtime_instances''"]
  unfolding demo_results by (simp add: add_mset_commute)

text \<open>A primitive that returns nil without an error (a JSON path that is missing, a security
  snapshot without sources) does not drop its metric: after every schedule the key is in the
  map with the value nil, so the heartbeat carries it as null.\<close>

lemma Run_keeps_nil:
  assumes "Run registry [b] m" and "OutputKey b \<noteq> []" and "Primitive b \<noteq> []"
    and "registry (Primitive b) = Some prim" and "prim (Args b) = Inr (AVal VNil)"
  shows "map_of m (OutputKey b) = Some (AVal VNil)"
proof -
  from Run_permD [OF assms(1)] assms(2-4) have "m = foldl run_one [] [(b, prim)]"
    by auto
  then show ?thesis using assms(5) by (simp add: mget_def)
qed

lemma Run_keeps_nil_witness:
  "\<exists>m. Run demo_registry
         [\<lparr>ID = ''h'', Primitive = ''http.get_json'', Args = [], OutputKey = ''h''\<rparr>] m
    \<and> map_of m ''h'' = Some (AVal VNil)"
  using Run_keeps_nil [OF Run_returns [of demo_registry
        "[\<lparr>ID = ''h'', Primitive = ''http.get_json'', Args = [], OutputKey = ''h''\<rparr>]"]]
    Run_returns [of demo_registry
        "[\<lparr>ID = ''h'', Primitive = ''http.get_json'', Args = [], OutputKey = ''h''\<rparr>]"]
  by auto

end
