(* ===== verification/Heartbeat_Signals.thy ===== *)
theory Heartbeat_Signals
  imports Runner
begin

text \<open>
  Runtime signals on their way from the collectors to the server (heartbeat/heartbeat.go):
  \<open>runtimeSignals\<close> prints the collected value as JSON and reads it back into the wire type,
  \<open>sendRuntimeSignals\<close> fills in the defaults.
\<close>

section \<open>Printing values\<close>

text \<open>Printed strings are valid UTF-8: each byte that does not belong to a valid sequence is
  replaced by U+FFFD.\<close>

definition cont :: "nat \<Rightarrow> nat \<Rightarrow> string \<Rightarrow> bool" where
  "cont lo hi s = (s \<noteq> [] \<and> lo \<le> of_char (hd s) \<and> of_char (hd s) \<le> hi)"

definition utf8_len :: "string \<Rightarrow> nat" where
  "utf8_len s =
     (case s of
        [] \<Rightarrow> 0
      | c # t \<Rightarrow>
          let b = (of_char c :: nat);
              two = (\<lambda>lo hi. cont lo hi t \<and> cont 0x80 0xBF (tl t));
              three = (\<lambda>lo hi. two lo hi \<and> cont 0x80 0xBF (tl (tl t)))
          in if b < 0x80 then 1
             else if 0xC2 \<le> b \<and> b \<le> 0xDF then (if cont 0x80 0xBF t then 2 else 0)
             else if b = 0xE0 then (if two 0xA0 0xBF then 3 else 0)
             else if b = 0xED then (if two 0x80 0x9F then 3 else 0)
             else if 0xE1 \<le> b \<and> b \<le> 0xEF then (if two 0x80 0xBF then 3 else 0)
             else if b = 0xF0 then (if three 0x90 0xBF then 4 else 0)
             else if b = 0xF4 then (if three 0x80 0x8F then 4 else 0)
             else if 0xF1 \<le> b \<and> b \<le> 0xF3 then (if three 0x80 0xBF then 4 else 0)
             else 0)"

function utf8_fix :: "string \<Rightarrow> string" where
  "utf8_fix [] = []"
| "utf8_fix (c # cs) =
     (if utf8_len (c # cs) = 0 then [CHR 0xEF, CHR 0xBF, CHR 0xBD] @ utf8_fix cs
      else take (utf8_len (c # cs)) (c # cs) @ utf8_fix (drop (utf8_len (c # cs)) (c # cs)))"
  by pat_completeness auto
termination by (relation "measure length") auto

text \<open>\<open>json.Marshal\<close> of a dynamic value: \<open>None\<close> for a number that is not finite. A double
  without a fraction and below \<open>10^21\<close> is printed without an exponent.\<close>

definition number_json :: "rat \<Rightarrow> json" where
  "number_json r =
     (if r = of_int \<lfloor>r\<rfloor> \<and> \<bar>r\<bar> < 10 ^ 21 then JInt \<lfloor>r\<rfloor> else JNum (Fin r))"

definition sorted_members :: "(string \<times> json) list \<Rightarrow> (string \<times> json) list" where
  "sorted_members es = map (\<lambda>e. (utf8_fix (fst e), snd e)) (sort_key fst es)"

fun to_json :: "gval \<Rightarrow> json option" where
  "to_json VNil = Some JNull"
| "to_json (VBool b) = Some (JBool b)"
| "to_json (VInt i) = Some (JInt i)"
| "to_json (VInt64 i) = Some (JInt i)"
| "to_json (VFloat x) = (case x of Fin r \<Rightarrow> Some (number_json r) | _ \<Rightarrow> None)"
| "to_json (VStr s) = Some (JStr (utf8_fix s))"
| "to_json (VStrs ss) = Some (JArr (map (\<lambda>s. JStr (utf8_fix s)) ss))"
| "to_json (VList vs) = map_option JArr (those (map to_json vs))"
| "to_json (VMap es) =
     map_option (\<lambda>ms. JObj (sorted_members ms))
       (those (map (\<lambda>e. map_option (Pair (fst e)) (to_json (snd e))) es))"

text \<open>A string member with \<open>omitempty\<close>, and a collected runtime signal.\<close>

definition str_member :: "string \<Rightarrow> string \<Rightarrow> (string \<times> json) list" where
  "str_member name s = (if s = [] then [] else [(name, JStr (utf8_fix s))])"

definition signal_json :: "runtimeSignal \<Rightarrow> json option" where
  "signal_json s =
     map_option (\<lambda>pl. JObj
       (str_member ''productCode'' (rs_ProductCode s) @
        str_member ''componentCode'' (rs_ComponentCode s) @
        str_member ''instanceKey'' (rs_InstanceKey s) @
        str_member ''environment'' (rs_Environment s) @
        str_member ''status'' (rs_Status s) @
        str_member ''versionSource'' (rs_VersionSource s) @
        str_member ''runningVersion'' (rs_RunningVersion s) @
        str_member ''buildRef'' (rs_BuildRef s) @
        str_member ''gitCommit'' (rs_GitCommit s) @
        str_member ''notes'' (rs_Notes s) @
        (if rs_Payload s = [] then [] else [(''payload'', pl)])))
       (to_json (VMap (rs_Payload s)))"

definition any_json :: "any_val \<Rightarrow> json option" where
  "any_json v =
     (case v of AVal g \<Rightarrow> to_json g | ASignals ss \<Rightarrow> map_option JArr (those (map signal_json ss)))"

section \<open>Reading signals back\<close>

record RuntimeSignal =
  hs_RuntimeComponentID :: "int option"
  hs_ProductCode :: string
  hs_ComponentCode :: string
  hs_InstallationID :: "int option"
  hs_NodeID :: "int option"
  hs_InstanceKey :: string
  hs_Environment :: string
  hs_Status :: string
  hs_VersionSource :: string
  hs_RunningVersion :: string
  hs_BuildRef :: string
  hs_GitCommit :: string
  hs_BuildTime :: string
  hs_Notes :: string
  hs_Payload :: "gargs option"

definition zero_signal :: RuntimeSignal where
  "zero_signal = \<lparr>hs_RuntimeComponentID = None, hs_ProductCode = [], hs_ComponentCode = [],
     hs_InstallationID = None, hs_NodeID = None, hs_InstanceKey = [], hs_Environment = [],
     hs_Status = [], hs_VersionSource = [], hs_RunningVersion = [], hs_BuildRef = [],
     hs_GitCommit = [], hs_BuildTime = [], hs_Notes = [], hs_Payload = None\<rparr>"

definition signal_fields :: "string list" where
  "signal_fields = [''runtimeComponentId'', ''productCode'', ''componentCode'', ''installationId'',
     ''nodeId'', ''instanceKey'', ''environment'', ''status'', ''versionSource'',
     ''runningVersion'', ''buildRef'', ''gitCommit'', ''buildTime'', ''notes'', ''payload'']"

type_synonym sig_dec = "RuntimeSignal \<times> bool"

definition sig_string :: "json \<Rightarrow> (string \<Rightarrow> RuntimeSignal \<Rightarrow> RuntimeSignal) \<Rightarrow> sig_dec \<Rightarrow> sig_dec" where
  "sig_string j upd d =
     (case j of JStr s \<Rightarrow> (upd s (fst d), snd d) | JNull \<Rightarrow> d | _ \<Rightarrow> (fst d, False))"

definition sig_int :: "json \<Rightarrow> (int option \<Rightarrow> RuntimeSignal \<Rightarrow> RuntimeSignal) \<Rightarrow> sig_dec \<Rightarrow> sig_dec" where
  "sig_int j upd d =
     (case j of
        JInt i \<Rightarrow> if min_int64 \<le> i \<and> i \<le> max_int64 then (upd (Some i) (fst d), snd d)
                  else (fst d, False)
      | JNull \<Rightarrow> (upd None (fst d), snd d)
      | _ \<Rightarrow> (fst d, False))"

definition sig_payload :: "json \<Rightarrow> sig_dec \<Rightarrow> sig_dec" where
  "sig_payload j d =
     (case j of
        JNull \<Rightarrow> ((fst d)\<lparr>hs_Payload := None\<rparr>, snd d)
      | JObj es \<Rightarrow>
          ((fst d)\<lparr>hs_Payload :=
             Some (foldl (\<lambda>m e. AList.update (fst e) (json_any (snd e)) m)
                     (case hs_Payload (fst d) of None \<Rightarrow> [] | Some m \<Rightarrow> m) es)\<rparr>, snd d)
      | _ \<Rightarrow> (fst d, False))"

definition sig_member :: "sig_dec \<Rightarrow> string \<times> json \<Rightarrow> sig_dec" where
  "sig_member d m =
     (case json_field signal_fields (fst m) of
        None \<Rightarrow> d
      | Some n \<Rightarrow>
          if n = ''runtimeComponentId'' then sig_int (snd m) (\<lambda>x r. r\<lparr>hs_RuntimeComponentID := x\<rparr>) d
          else if n = ''productCode'' then sig_string (snd m) (\<lambda>s r. r\<lparr>hs_ProductCode := s\<rparr>) d
          else if n = ''componentCode'' then sig_string (snd m) (\<lambda>s r. r\<lparr>hs_ComponentCode := s\<rparr>) d
          else if n = ''installationId'' then sig_int (snd m) (\<lambda>x r. r\<lparr>hs_InstallationID := x\<rparr>) d
          else if n = ''nodeId'' then sig_int (snd m) (\<lambda>x r. r\<lparr>hs_NodeID := x\<rparr>) d
          else if n = ''instanceKey'' then sig_string (snd m) (\<lambda>s r. r\<lparr>hs_InstanceKey := s\<rparr>) d
          else if n = ''environment'' then sig_string (snd m) (\<lambda>s r. r\<lparr>hs_Environment := s\<rparr>) d
          else if n = ''status'' then sig_string (snd m) (\<lambda>s r. r\<lparr>hs_Status := s\<rparr>) d
          else if n = ''versionSource'' then sig_string (snd m) (\<lambda>s r. r\<lparr>hs_VersionSource := s\<rparr>) d
          else if n = ''runningVersion'' then sig_string (snd m) (\<lambda>s r. r\<lparr>hs_RunningVersion := s\<rparr>) d
          else if n = ''buildRef'' then sig_string (snd m) (\<lambda>s r. r\<lparr>hs_BuildRef := s\<rparr>) d
          else if n = ''gitCommit'' then sig_string (snd m) (\<lambda>s r. r\<lparr>hs_GitCommit := s\<rparr>) d
          else if n = ''buildTime'' then sig_string (snd m) (\<lambda>s r. r\<lparr>hs_BuildTime := s\<rparr>) d
          else if n = ''notes'' then sig_string (snd m) (\<lambda>s r. r\<lparr>hs_Notes := s\<rparr>) d
          else sig_payload (snd m) d)"

definition decode_signal :: "json \<Rightarrow> RuntimeSignal option" where
  "decode_signal j =
     (case j of
        JNull \<Rightarrow> Some zero_signal
      | JObj es \<Rightarrow>
          (let d = foldl sig_member (zero_signal, True) es in if snd d then Some (fst d) else None)
      | _ \<Rightarrow> None)"

definition decode_signals :: "json \<Rightarrow> RuntimeSignal list option" where
  "decode_signals j =
     (case j of JNull \<Rightarrow> Some [] | JArr js \<Rightarrow> those (map decode_signal js) | _ \<Rightarrow> None)"

text \<open>A value that cannot be printed, or whose text is not a list of signals, gives none.\<close>

definition runtimeSignals :: "any_val \<Rightarrow> RuntimeSignal list" where
  "runtimeSignals value =
     (if value = AVal VNil then []
      else (case any_json value of
              None \<Rightarrow> []
            | Some j \<Rightarrow> (case decode_signals j of None \<Rightarrow> [] | Some ss \<Rightarrow> ss)))"

section \<open>Sending\<close>

definition with_defaults :: "RuntimeSignal \<Rightarrow> RuntimeSignal" where
  "with_defaults s0 =
     (let s1 = (if hs_VersionSource s0 = [] then s0\<lparr>hs_VersionSource := ''HOST_AGENT''\<rparr> else s0)
      in if hs_Status s1 = [] then s1\<lparr>hs_Status := ''HEALTHY''\<rparr> else s1)"

text \<open>\<open>sendRuntimeSignals\<close>: the signals that are posted, in order, and their number. A rejected
  post is logged and the loop goes on.\<close>

definition sendRuntimeSignals :: "any_val \<Rightarrow> RuntimeSignal list \<times> nat" where
  "sendRuntimeSignals value =
     (let signals = runtimeSignals value in (map with_defaults signals, length signals))"

section \<open>Reading back what was printed\<close>

text \<open>The wire signal of a collected one.\<close>

definition wire_signal :: "runtimeSignal \<Rightarrow> RuntimeSignal" where
  "wire_signal s = zero_signal
     \<lparr>hs_ProductCode := utf8_fix (rs_ProductCode s),
      hs_ComponentCode := utf8_fix (rs_ComponentCode s),
      hs_InstanceKey := utf8_fix (rs_InstanceKey s),
      hs_Environment := utf8_fix (rs_Environment s),
      hs_Status := utf8_fix (rs_Status s),
      hs_VersionSource := utf8_fix (rs_VersionSource s),
      hs_RunningVersion := utf8_fix (rs_RunningVersion s),
      hs_BuildRef := utf8_fix (rs_BuildRef s),
      hs_GitCommit := utf8_fix (rs_GitCommit s),
      hs_Notes := utf8_fix (rs_Notes s),
      hs_Payload :=
        (if rs_Payload s = [] then None
         else map_option (\<lambda>j. case json_any j of VMap m \<Rightarrow> m | _ \<Rightarrow> []) (to_json (VMap (rs_Payload s))))\<rparr>"

lemma sig_member_str:
  "hs_ProductCode c = [] \<Longrightarrow> foldl sig_member (c, b) (str_member ''productCode'' s) =
     (c\<lparr>hs_ProductCode := utf8_fix s\<rparr>, b)"
  "hs_ComponentCode c = [] \<Longrightarrow> foldl sig_member (c, b) (str_member ''componentCode'' s) =
     (c\<lparr>hs_ComponentCode := utf8_fix s\<rparr>, b)"
  "hs_InstanceKey c = [] \<Longrightarrow> foldl sig_member (c, b) (str_member ''instanceKey'' s) =
     (c\<lparr>hs_InstanceKey := utf8_fix s\<rparr>, b)"
  "hs_Environment c = [] \<Longrightarrow> foldl sig_member (c, b) (str_member ''environment'' s) =
     (c\<lparr>hs_Environment := utf8_fix s\<rparr>, b)"
  "hs_Status c = [] \<Longrightarrow> foldl sig_member (c, b) (str_member ''status'' s) =
     (c\<lparr>hs_Status := utf8_fix s\<rparr>, b)"
  "hs_VersionSource c = [] \<Longrightarrow> foldl sig_member (c, b) (str_member ''versionSource'' s) =
     (c\<lparr>hs_VersionSource := utf8_fix s\<rparr>, b)"
  "hs_RunningVersion c = [] \<Longrightarrow> foldl sig_member (c, b) (str_member ''runningVersion'' s) =
     (c\<lparr>hs_RunningVersion := utf8_fix s\<rparr>, b)"
  "hs_BuildRef c = [] \<Longrightarrow> foldl sig_member (c, b) (str_member ''buildRef'' s) =
     (c\<lparr>hs_BuildRef := utf8_fix s\<rparr>, b)"
  "hs_GitCommit c = [] \<Longrightarrow> foldl sig_member (c, b) (str_member ''gitCommit'' s) =
     (c\<lparr>hs_GitCommit := utf8_fix s\<rparr>, b)"
  "hs_Notes c = [] \<Longrightarrow> foldl sig_member (c, b) (str_member ''notes'' s) =
     (c\<lparr>hs_Notes := utf8_fix s\<rparr>, b)"
  by (simp_all add: str_member_def sig_member_def signal_fields_def sig_string_def)

lemma payload_fold:
  "json_any (JObj es) = VMap (foldl (\<lambda>m e. AList.update (fst e) (json_any (snd e)) m) [] es)"
  by (simp add: go_map_of_members_def foldl_map)

lemma to_json_map: "to_json (VMap p) = Some j \<Longrightarrow> \<exists>es. j = JObj es"
  by auto

lemma decode_signal_wire:
  assumes "to_json (VMap (rs_Payload s)) \<noteq> None"
  shows "\<exists>j. signal_json s = Some j \<and> decode_signal j = Some (wire_signal s)"
proof -
  obtain es where es: "to_json (VMap (rs_Payload s)) = Some (JObj es)"
    using assms to_json_map by blast
  have pl: "foldl sig_member (c, b) (if rs_Payload s = [] then [] else [(''payload'', JObj es)]) =
      (c\<lparr>hs_Payload := hs_Payload (wire_signal s)\<rparr>, b)" if "hs_Payload c = None" for c b
    using that es
    by (simp add: sig_member_def signal_fields_def sig_payload_def wire_signal_def payload_fold
        del: to_json.simps json_any.simps)
  show ?thesis
    unfolding signal_json_def es
    by (simp add: decode_signal_def sig_member_str pl zero_signal_def del: to_json.simps)
      (simp add: wire_signal_def zero_signal_def del: to_json.simps)
qed

lemma those_map_Some: "(\<And>x. x \<in> set xs \<Longrightarrow> f x = Some (g x)) \<Longrightarrow> those (map f xs) = Some (map g xs)"
  by (induction xs) auto

lemma runtimeSignals_wire:
  assumes "\<forall>s\<in>set ss. to_json (VMap (rs_Payload s)) \<noteq> None"
  shows "runtimeSignals (ASignals ss) = map wire_signal ss"
proof -
  let ?g = "\<lambda>s. the (signal_json s)"
  have g: "signal_json s = Some (?g s) \<and> decode_signal (?g s) = Some (wire_signal s)"
    if "s \<in> set ss" for s
    using decode_signal_wire [of s] assms that by fastforce
  have "those (map signal_json ss) = Some (map ?g ss)"
    using g by (intro those_map_Some) blast
  moreover have "those (map decode_signal (map ?g ss)) = Some (map wire_signal ss)"
    unfolding map_map comp_def
    using those_map_Some [of ss "\<lambda>s. decode_signal (?g s)" wire_signal] g by simp
  ultimately show ?thesis
    by (simp add: runtimeSignals_def any_json_def decode_signals_def)
qed

lemma with_defaults_set: "hs_Status (with_defaults s) \<noteq> [] \<and> hs_VersionSource (with_defaults s) \<noteq> []"
  by (simp add: with_defaults_def Let_def)

section \<open>Properties\<close>

text \<open>C20: every runtime signal that the collectors produced is posted, in order and with all its
  fields, and none goes out without a status or a version source: the round trip through JSON
  loses nothing but invalid UTF-8. A payload that cannot be printed is the only exception.\<close>

theorem signals_all_posted:
  assumes "\<forall>s\<in>set ss. to_json (VMap (rs_Payload s)) \<noteq> None"
  shows "sendRuntimeSignals (ASignals ss) =
      (map (\<lambda>s. with_defaults (wire_signal s)) ss, length ss) \<and>
    (\<forall>s\<in>set (fst (sendRuntimeSignals (ASignals ss))). hs_Status s \<noteq> [] \<and> hs_VersionSource s \<noteq> [])"
  by (auto simp: sendRuntimeSignals_def runtimeSignals_wire [OF assms] with_defaults_set)

theorem signals_all_posted_witness:
  "fst (sendRuntimeSignals (ASignals [demo_signal ''a'', demo_signal ''b''])) =
     map (\<lambda>s. with_defaults (wire_signal s)) [demo_signal ''a'', demo_signal ''b'']"
  using signals_all_posted [of "[demo_signal ''a'', demo_signal ''b'']"]
  by (simp add: demo_signal_def)

end
