(* ===== verification/Heartbeat.thy ===== *)
theory Heartbeat
  imports Heartbeat_Signals Agent_Config
begin

text \<open>
  The heartbeat (heartbeat/heartbeat.go): the payload that the collectors and the agent make,
  the exchange with the server and the file that records the version the server wants.
\<close>

section \<open>The sender\<close>

definition AgentVersion :: string where "AgentVersion = ''0.26.0''"
definition ProtocolVersion :: int where "ProtocolVersion = 1"

record Sender =
  snd_cfg :: Config
  snd_bearer :: string
  snd_collectorDir :: string
  snd_servicesDir :: string
  snd_registry :: "string \<Rightarrow> PrimitiveFunc option"

definition NewSender ::
  "(string \<Rightarrow> PrimitiveFunc option) \<Rightarrow> Config \<Rightarrow> string \<Rightarrow> Sender" where
  "NewSender registry cfg collectorDir =
     \<lparr>snd_cfg = cfg, snd_bearer = AgentKid cfg @ ''.'' @ AgentSecret cfg,
      snd_collectorDir = collectorDir,
      snd_servicesDir = path_join (path_dir collectorDir) ''services.d'',
      snd_registry = registry\<rparr>"

section \<open>The payload\<close>

text \<open>A metric is what a collector returned, or the summaries of the services.\<close>

datatype metric = Collected any_val | Services "ServiceSummary list"

record Payload =
  pl_AgentVersion :: string
  pl_ProtocolVersion :: int
  pl_Metrics :: "(string, metric) gomap"

definition metricCount :: "Payload \<Rightarrow> nat" where
  "metricCount p = length (pl_Metrics p)"

definition withoutMetric :: "string \<Rightarrow> Payload \<Rightarrow> Payload" where
  "withoutMetric key p =
     (if map_of (pl_Metrics p) key = None then p
      else p\<lparr>pl_Metrics := filter (\<lambda>e. fst e \<noteq> key) (pl_Metrics p)\<rparr>)"

text \<open>The bindings of a tick: a configuration that cannot be loaded contributes none. The file
  system and the decoded files are those of the tick.\<close>

record tick_input =
  ti_fs :: filesys
  ti_bindings :: "string \<Rightarrow> Binding list option"
  ti_services :: "string \<Rightarrow> serviceDef option"
  ti_now :: string

definition tick_bindings :: "Sender \<Rightarrow> tick_input \<Rightarrow> Binding list" where
  "tick_bindings s ti =
     (case LoadDir (ti_fs ti) (ti_bindings ti) (snd_collectorDir s) of Inl _ \<Rightarrow> [] | Inr bs \<Rightarrow> bs) @
     (case LoadServiceDir (ti_fs ti) (ti_services ti) (snd_servicesDir s) of
        Inl _ \<Rightarrow> [] | Inr svc \<Rightarrow> svc)"

definition tick_summaries :: "Sender \<Rightarrow> tick_input \<Rightarrow> load_error + ServiceSummary list" where
  "tick_summaries s ti = LoadServiceSummaries (ti_fs ti) (ti_services ti) (snd_servicesDir s)"

text \<open>What \<open>buildPayload\<close> makes of the collected metrics; \<open>now\<close> is the formatted time.\<close>

definition finish_payload ::
  "metrics \<Rightarrow> load_error + ServiceSummary list \<Rightarrow> string \<Rightarrow> Payload" where
  "finish_payload collected summaries now =
     (let m0 = map (\<lambda>e. (fst e, Collected (snd e))) collected;
          m1 = (case summaries of
                  Inl _ \<Rightarrow> m0
                | Inr ss \<Rightarrow> if ss = [] then m0 else AList.update ''services'' (Services ss) m0);
          m2 = AList.update ''reported_at'' (Collected (AVal (VStr now))) m1;
          m3 = (if map_of m2 ''status'' = None
                then AList.update ''status'' (Collected (AVal (VStr ''UP''))) m2 else m2)
      in \<lparr>pl_AgentVersion = AgentVersion, pl_ProtocolVersion = ProtocolVersion, pl_Metrics = m3\<rparr>)"

text \<open>\<open>buildPayload\<close>: a payload of some schedule of the collectors.\<close>

definition buildPayload :: "Sender \<Rightarrow> tick_input \<Rightarrow> Payload \<Rightarrow> bool" where
  "buildPayload s ti p =
     (\<exists>m. Run (snd_registry s) (tick_bindings s ti) m \<and>
        p = finish_payload m (tick_summaries s ti) (ti_now ti))"

section \<open>The exchange\<close>

text \<open>Whether \<open>json.Marshal\<close> accepts a payload.\<close>

definition printable :: "metric \<Rightarrow> bool" where
  "printable m = (case m of Collected v \<Rightarrow> any_json v \<noteq> None | Services _ \<Rightarrow> True)"

definition marshals :: "Payload \<Rightarrow> bool" where
  "marshals p = list_all (\<lambda>e. printable (snd e)) (pl_Metrics p)"

record heartbeatResponse =
  NextHeartbeatAfterSeconds :: int
  DesiredAgentVersion :: string

definition response_member :: "heartbeatResponse \<times> bool \<Rightarrow> string \<times> json \<Rightarrow> heartbeatResponse \<times> bool" where
  "response_member d m =
     (case json_field [''nextHeartbeatAfterSeconds'', ''desiredAgentVersion''] (fst m) of
        None \<Rightarrow> d
      | Some n \<Rightarrow>
          (case snd m of
             JNull \<Rightarrow> d
           | JInt i \<Rightarrow>
               if n = ''nextHeartbeatAfterSeconds'' \<and> min_int64 \<le> i \<and> i \<le> max_int64
               then ((fst d)\<lparr>NextHeartbeatAfterSeconds := i\<rparr>, snd d) else (fst d, False)
           | JStr s \<Rightarrow>
               if n = ''desiredAgentVersion'' then ((fst d)\<lparr>DesiredAgentVersion := s\<rparr>, snd d)
               else (fst d, False)
           | _ \<Rightarrow> (fst d, False)))"

definition unmarshal_response :: "(string \<Rightarrow> json option) \<Rightarrow> string \<Rightarrow> heartbeatResponse option" where
  "unmarshal_response parse body =
     (let zero = \<lparr>NextHeartbeatAfterSeconds = 0, DesiredAgentVersion = []\<rparr>
      in case parse body of
           None \<Rightarrow> None
         | Some JNull \<Rightarrow> Some zero
         | Some (JObj es) \<Rightarrow>
             (let d = foldl response_member (zero, True) es in if snd d then Some (fst d) else None)
         | Some _ \<Rightarrow> None)"

text \<open>What becomes of a request: it cannot be built, there is no response, or there is one with
  a status, the bytes of its body and whether they end in a clean end of file. Reading at most
  \<open>n\<close> bytes succeeds when the limit is reached before the error.\<close>

datatype reply = NoRequest | NoReply | Reply int string bool

definition read_limited :: "nat \<Rightarrow> string \<Rightarrow> bool \<Rightarrow> string option" where
  "read_limited n body clean = (if clean \<or> n \<le> length body then Some (take n body) else None)"

datatype send_error = MarshalFailed | BuildFailed | PostFailed | Rejected int string

text \<open>The interval and the version the server asks for; a body that cannot be read or decoded
  asks for nothing.\<close>

definition wishes :: "(string \<Rightarrow> json option) \<Rightarrow> string option \<Rightarrow> int \<times> string" where
  "wishes parse body =
     (case body of
        None \<Rightarrow> (0, [])
      | Some b \<Rightarrow>
          (case unmarshal_response parse b of
             None \<Rightarrow> (0, [])
           | Some r \<Rightarrow> (NextHeartbeatAfterSeconds r, trim_space (DesiredAgentVersion r))))"

text \<open>The requests a tick makes.\<close>

datatype wire_body = HostBody Payload | SignalBody RuntimeSignal

record http_request =
  rq_url :: string
  rq_headers :: "(string \<times> string) list"
  rq_body :: wire_body

definition post_headers :: "Sender \<Rightarrow> (string \<times> string) list" where
  "post_headers s =
     [(''Content-Type'', ''application/json''),
      (''User-Agent'', ''iclic-host-agent/'' @ AgentVersion),
      (''Authorization'', ''Bearer '' @ snd_bearer s)]"

definition heartbeat_request :: "Sender \<Rightarrow> Payload \<Rightarrow> http_request" where
  "heartbeat_request s p =
     \<lparr>rq_url = ICLICUrl (snd_cfg s) @ ''/api/v1/server/'' @ ServerID (snd_cfg s) @ ''/heartbeat'',
      rq_headers = post_headers s, rq_body = HostBody p\<rparr>"

definition runtime_request :: "Sender \<Rightarrow> RuntimeSignal \<Rightarrow> http_request" where
  "runtime_request s g =
     \<lparr>rq_url = ICLICUrl (snd_cfg s) @ ''/api/v1/server/runtime-instances/heartbeat'',
      rq_headers = post_headers s, rq_body = SignalBody g\<rparr>"

definition postRuntimeSignal ::
  "Sender \<Rightarrow> reply \<Rightarrow> RuntimeSignal \<Rightarrow> send_error option \<times> http_request list" where
  "postRuntimeSignal s r g =
     (case r of
        NoRequest \<Rightarrow> (Some BuildFailed, [])
      | NoReply \<Rightarrow> (Some PostFailed, [runtime_request s g])
      | Reply status body clean \<Rightarrow>
          (if status \<ge> 400 then Some (Rejected status (take 512 body)) else None,
           [runtime_request s g]))"

definition post_signals ::
  "Sender \<Rightarrow> (nat \<Rightarrow> reply) \<Rightarrow> RuntimeSignal list \<Rightarrow> http_request list" where
  "post_signals s rs gs =
     concat (map (\<lambda>(i, g). snd (postRuntimeSignal s (rs i) g)) (enumerate 0 gs))"

definition runtime_metric :: "Payload \<Rightarrow> any_val" where
  "runtime_metric p =
     (case map_of (pl_Metrics p) ''runtime_instances'' of
        Some (Collected v) \<Rightarrow> v | _ \<Rightarrow> AVal VNil)"

section \<open>The desired version\<close>

definition defaultDesiredVersionFile :: string where
  "defaultDesiredVersionFile = ''/var/lib/iclic-host-agent/desired-version''"

text \<open>The outcomes of the file operations: whether the present file can be read, whether
  \<open>os.WriteFile\<close> succeeds (a failed one may leave a partial file), whether \<open>os.Rename\<close> does and
  whether the temporary file can then be removed.\<close>

datatype write_outcome = Written | WriteFails "string option"
datatype rename_outcome = Renamed | RenameFails bool

record file_outcomes =
  fo_readable :: bool
  fo_write :: write_outcome
  fo_rename :: rename_outcome

type_synonym disk = "string \<Rightarrow> string option"

definition desired_path :: "(string \<Rightarrow> string) \<Rightarrow> string" where
  "desired_path env =
     (if env ''ICLIC_AGENT_DESIRED_VERSION_FILE'' = [] then defaultDesiredVersionFile
      else env ''ICLIC_AGENT_DESIRED_VERSION_FILE'')"

definition recordDesiredVersion ::
  "(string \<Rightarrow> string) \<Rightarrow> file_outcomes \<Rightarrow> string \<Rightarrow> disk \<Rightarrow> disk" where
  "recordDesiredVersion env fo desired d =
     (if desired = [] then d
      else
        let path = desired_path env; tmp = path @ ''.tmp'' in
        if fo_readable fo \<and>
           (case d path of Some existing \<Rightarrow> trim_space existing = desired | None \<Rightarrow> False) then d
        else (case fo_write fo of
                WriteFails None \<Rightarrow> d
              | WriteFails (Some part) \<Rightarrow> d(tmp := Some part)
              | Written \<Rightarrow>
                  let d1 = d(tmp := Some (desired @ [CHR 0x0A]))
                  in (case fo_rename fo of
                        Renamed \<Rightarrow> d1(path := d1 tmp, tmp := None)
                      | RenameFails removed \<Rightarrow> if removed then d1(tmp := None) else d1)))"

text \<open>What the updater (installer/iclic-host-agent-updater.sh) makes of the file: \<open>tr -d '[:space:]'\<close> deletes
  every white-space byte, also inside, and the shell drops the bytes 0 of a command substitution.\<close>

definition updater_keeps :: "char \<Rightarrow> bool" where
  "updater_keeps c = (c \<notin> {CHR 0x00, CHR 0x09, CHR 0x0A, CHR 0x0B, CHR 0x0C, CHR 0x0D, CHR '' ''})"

definition updater_reads :: "string \<Rightarrow> string" where
  "updater_reads content = filter updater_keeps content"

section \<open>One heartbeat\<close>

text \<open>What the world around a heartbeat does, and what the heartbeat did to it.\<close>

record outside =
  out_reply :: reply
  out_signal_replies :: "nat \<Rightarrow> reply"
  out_env :: "string \<Rightarrow> string"
  out_files :: file_outcomes

record effects =
  eff_requests :: "http_request list"
  eff_disk :: disk

definition send_payload ::
  "(string \<Rightarrow> json option) \<Rightarrow> outside \<Rightarrow> Sender \<Rightarrow> Payload \<Rightarrow> disk \<Rightarrow> (send_error + int) \<times> effects" where
  "send_payload parse w s payload d =
     (let hostPayload = withoutMetric ''runtime_instances'' payload;
          nothing = \<lparr>eff_requests = [], eff_disk = d\<rparr>;
          posted = nothing\<lparr>eff_requests := [heartbeat_request s hostPayload]\<rparr>
      in if \<not> marshals hostPayload then (Inl MarshalFailed, nothing)
         else (case out_reply w of
                 NoRequest \<Rightarrow> (Inl BuildFailed, nothing)
               | NoReply \<Rightarrow> (Inl PostFailed, posted)
               | Reply status body clean \<Rightarrow>
                   if status \<ge> 400 then (Inl (Rejected status (take 512 body)), posted)
                   else
                     let asked = wishes parse (read_limited 4096 body clean);
                         signals = fst (sendRuntimeSignals (runtime_metric payload))
                     in (Inr (fst asked),
                         \<lparr>eff_requests = eff_requests posted @ post_signals s (out_signal_replies w) signals,
                          eff_disk = recordDesiredVersion (out_env w) (out_files w) (snd asked) d\<rparr>)))"

text \<open>\<open>SendOnce\<close>: a payload of some schedule of the collectors is built and sent.\<close>

definition SendOnce ::
  "(string \<Rightarrow> json option) \<Rightarrow> tick_input \<Rightarrow> outside \<Rightarrow> Sender \<Rightarrow> disk
   \<Rightarrow> (send_error + int) \<times> effects \<Rightarrow> bool" where
  "SendOnce parse ti w s d r = (\<exists>p. buildPayload s ti p \<and> r = send_payload parse w s p d)"

section \<open>Facts\<close>

lemma map_of_Collected:
  "map_of (map (\<lambda>e. (fst e, Collected (snd e))) m) k = map_option Collected (map_of m k)"
  by (induction m) auto

lemma finish_payload_metrics:
  "map_of (pl_Metrics (finish_payload m summaries now)) k =
     (if k = ''reported_at'' then Some (Collected (AVal (VStr now)))
      else if k = ''services'' \<and> (\<exists>ss. summaries = Inr ss \<and> ss \<noteq> [])
        then Some (Services (projr summaries))
      else if k = ''status'' \<and> map_of m ''status'' = None then Some (Collected (AVal (VStr ''UP'')))
      else map_option Collected (map_of m k))"
  by (cases summaries) (auto simp: finish_payload_def Let_def map_of_Collected)

lemma map_of_withoutMetric:
  "map_of (pl_Metrics (withoutMetric key p)) k = (if k = key then None else map_of (pl_Metrics p) k)"
  by (auto simp: withoutMetric_def map_of_filter_key)

lemma trimmed_ends:
  assumes "trim_space v = v"
  shows "lead_len go_spaces v = 0" "lead_len (map rev go_spaces) (rev v) = 0"
proof -
  have "prefix v (strip go_spaces v)"
    by (metis assms rev_rev_ident strip_suffix suffix_to_prefix trim_space_def)
  then show "lead_len go_spaces v = 0"
    using go_spaces_nonempty(1) lead_len_prefix_0 strip_done by blast
  show "lead_len (map rev go_spaces) (rev v) = 0"
    by (metis assms rev_rev_ident strip_done trim_space_def)
qed

lemma trim_space_newline:
  assumes "trim_space v = v" "v \<noteq> []"
  shows "trim_space (v @ [CHR 0x0A]) = v"
proof -
  have "\<not> prefix p (v @ [CHR 0x0A])" if "p \<in> set go_spaces" for p
  proof
    assume "prefix p (v @ [CHR 0x0A])"
    then consider "prefix p v" | "p = v @ [CHR 0x0A]" by auto
    then show False
    proof cases
      case 1
      with that trimmed_ends(1) [OF assms(1)] lead_len_0_iff [OF go_spaces_nonempty(1)]
      show False by blast
    next
      case 2
      then have "last p = CHR 0x0A" "length p \<noteq> 1" using assms(2) by auto
      moreover have "\<forall>p \<in> set go_spaces. last p = CHR 0x0A \<longrightarrow> length p = 1"
        by (simp add: go_spaces_def)
      ultimately show False using that by blast
    qed
  qed
  then have l: "strip go_spaces (v @ [CHR 0x0A]) = v @ [CHR 0x0A]"
    using lead_len_0_iff [OF go_spaces_nonempty(1)] by (simp add: strip_fix)
  have "lead_len (map rev go_spaces) (CHR 0x0A # rev v) = 1"
    by (simp add: lead_len_def go_spaces_def has_prefix_def)
  then have "strip (map rev go_spaces) (CHR 0x0A # rev v) = rev v"
    using trimmed_ends(2) [OF assms(1)] strip_fix by (simp add: strip.simps [of _ "CHR 0x0A # rev v"])
  with l show ?thesis by (simp add: trim_space_def)
qed

lemma wishes_trimmed: "trim_space (snd (wishes parse body)) = snd (wishes parse body)"
proof -
  have "trim_space [] = []" by code_simp
  then show ?thesis by (simp add: wishes_def split: option.splits)
qed

lemma post_signals_bodies:
  assumes "\<forall>i. rs i \<noteq> NoRequest"
  shows "post_signals s rs gs = map (runtime_request s) gs"
proof -
  have one: "snd (postRuntimeSignal s (rs i) g) = [runtime_request s g]" for i g
    using assms by (auto simp: postRuntimeSignal_def split: reply.splits)
  have "concat (map (\<lambda>(i, g). snd (postRuntimeSignal s (rs i) g)) (enumerate n gs)) =
      map (runtime_request s) gs" for n
    by (induction gs arbitrary: n) (simp_all add: one)
  then show ?thesis by (simp add: post_signals_def)
qed

lemma post_signals_set:
  "rq \<in> set (post_signals s rs gs) \<Longrightarrow> \<exists>g\<in>set gs. rq = runtime_request s g"
proof -
  assume "rq \<in> set (post_signals s rs gs)"
  then obtain i g where "(i, g) \<in> set (enumerate 0 gs)" "rq \<in> set (snd (postRuntimeSignal s (rs i) g))"
    by (auto simp: post_signals_def)
  moreover from this(1) have "g \<in> set gs" by (auto simp: in_set_enumerate_eq)
  ultimately show ?thesis by (auto simp: postRuntimeSignal_def split: reply.splits)
qed

lemma send_payload_cases:
  assumes "send_payload parse w s p d = (r, e)"
  obtains (failed) x where "r = Inl x" "eff_disk e = d"
      "eff_requests e = [] \<or> eff_requests e = [heartbeat_request s (withoutMetric ''runtime_instances'' p)]"
  | (accepted) status body clean where "out_reply w = Reply status body clean" "status < 400"
      "marshals (withoutMetric ''runtime_instances'' p)"
      "r = Inr (fst (wishes parse (read_limited 4096 body clean)))"
      "eff_requests e = heartbeat_request s (withoutMetric ''runtime_instances'' p) #
         post_signals s (out_signal_replies w) (fst (sendRuntimeSignals (runtime_metric p)))"
      "eff_disk e = recordDesiredVersion (out_env w) (out_files w)
         (snd (wishes parse (read_limited 4096 body clean))) d"
  using assms by (auto simp: send_payload_def Let_def split: if_splits reply.splits)

lemma finish_payload_intrinsic:
  "pl_AgentVersion (finish_payload m summaries now) = AgentVersion"
  "pl_ProtocolVersion (finish_payload m summaries now) = ProtocolVersion"
  by (simp_all add: finish_payload_def Let_def)

lemma payload_versions:
  assumes "buildPayload s ti p"
  shows "pl_AgentVersion p = AgentVersion" "pl_ProtocolVersion p = ProtocolVersion"
  using assms by (auto simp: buildPayload_def finish_payload_intrinsic)

lemma not_marshals:
  assumes "map_of (pl_Metrics p) k = Some (Collected v)" "k \<noteq> key" "any_json v = None"
  shows "\<not> marshals (withoutMetric key p)"
proof -
  have "(k, Collected v) \<in> set (pl_Metrics (withoutMetric key p))"
    using map_of_SomeD [OF assms(1)] assms(2) by (simp add: withoutMetric_def)
  with assms(3) show ?thesis by (force simp: marshals_def printable_def list_all_iff)
qed

section \<open>Properties\<close>

text \<open>The agent's own fields are in every payload and a binding cannot replace them: the
  versions and the time of the sample. A binding keeps the key \<open>status\<close> when it wrote one, the
  services of the host replace a binding's key \<open>services\<close>, and every other key holds what the
  collectors made of it.\<close>

lemma payload_intrinsic:
  assumes "buildPayload s ti p"
  shows "pl_AgentVersion p = AgentVersion \<and> pl_ProtocolVersion p = ProtocolVersion \<and>
    map_of (pl_Metrics p) ''reported_at'' = Some (Collected (AVal (VStr (ti_now ti)))) \<and>
    (\<exists>m. Run (snd_registry s) (tick_bindings s ti) m \<and>
       map_of (pl_Metrics p) ''status'' =
         Some (Collected (case map_of m ''status'' of None \<Rightarrow> AVal (VStr ''UP'') | Some v \<Rightarrow> v)) \<and>
       map_of (pl_Metrics p) ''services'' =
         (case tick_summaries s ti of
            Inr (x # xs) \<Rightarrow> Some (Services (x # xs))
          | _ \<Rightarrow> map_option Collected (map_of m ''services'')) \<and>
       (\<forall>k. k \<notin> {''reported_at'', ''status'', ''services''} \<longrightarrow>
          map_of (pl_Metrics p) k = map_option Collected (map_of m k)))"
proof -
  from assms obtain m where m: "Run (snd_registry s) (tick_bindings s ti) m"
    and p: "p = finish_payload m (tick_summaries s ti) (ti_now ti)"
    unfolding buildPayload_def by blast
  show ?thesis
    unfolding p
    by (intro conjI exI [of _ m] m; simp add: finish_payload_metrics finish_payload_intrinsic
        split: option.splits sum.splits list.splits)
qed

text \<open>C19: an accepted heartbeat carries every metric of the host under its key, except the
  runtime signals, which follow one by one in requests of their own.\<close>

theorem heartbeat_carries_metrics:
  assumes "SendOnce parse ti w s d (Inr n, e)" "\<forall>i. out_signal_replies w i \<noteq> NoRequest"
  shows "\<exists>p host. buildPayload s ti p \<and>
    eff_requests e = heartbeat_request s host #
      map (\<lambda>g. runtime_request s (with_defaults g)) (runtimeSignals (runtime_metric p)) \<and>
    pl_AgentVersion host = AgentVersion \<and> pl_ProtocolVersion host = ProtocolVersion \<and>
    (\<forall>k. map_of (pl_Metrics host) k =
       (if k = ''runtime_instances'' then None else map_of (pl_Metrics p) k))"
proof -
  from assms(1) obtain p where p: "buildPayload s ti p"
    and e: "send_payload parse w s p d = (Inr n, e)"
    unfolding SendOnce_def by auto
  let ?host = "withoutMetric ''runtime_instances'' p"
  have v: "pl_AgentVersion ?host = AgentVersion" "pl_ProtocolVersion ?host = ProtocolVersion"
    using payload_versions [OF p] by (simp_all add: withoutMetric_def)
  from e show ?thesis
  proof (cases rule: send_payload_cases)
    case accepted
    then have "eff_requests e = heartbeat_request s ?host #
        map (\<lambda>g. runtime_request s (with_defaults g)) (runtimeSignals (runtime_metric p))"
      using post_signals_bodies [OF assms(2)] by (simp add: sendRuntimeSignals_def Let_def comp_def)
    with p v map_of_withoutMetric show ?thesis by blast
  qed simp
qed

text \<open>A heartbeat that is not accepted changes nothing on the host and sends no runtime
  signal: at most the heartbeat itself went out, and the file of the desired version is as
  before.\<close>

lemma failed_heartbeat_harmless:
  assumes "SendOnce parse ti w s d (Inl err, e)"
  shows "eff_disk e = d \<and> length (eff_requests e) \<le> 1 \<and>
    (\<forall>rq\<in>set (eff_requests e). \<exists>p. rq_body rq = HostBody p)"
proof -
  from assms obtain p where "send_payload parse w s p d = (Inl err, e)"
    unfolding SendOnce_def by auto
  then show ?thesis
    by (cases rule: send_payload_cases) (auto simp: heartbeat_request_def)
qed

text \<open>The credential goes to the configured server only: every request of a tick has a URL
  that starts with the configured one, and carries the bearer made of the key id and the
  secret.\<close>

lemma requests_authorised:
  assumes "SendOnce parse ti w (NewSender registry cfg dir) d (r, e)" "rq \<in> set (eff_requests e)"
  shows "prefix (ICLICUrl cfg @ ''/api/v1/server/'') (rq_url rq) \<and>
    map_of (rq_headers rq) ''Authorization'' =
      Some (''Bearer '' @ AgentKid cfg @ ''.'' @ AgentSecret cfg)"
proof -
  let ?s = "NewSender registry cfg dir"
  from assms(1) obtain p where "send_payload parse w ?s p d = (r, e)"
    unfolding SendOnce_def by auto
  then have "(\<exists>p. rq = heartbeat_request ?s p) \<or> (\<exists>g. rq = runtime_request ?s g)"
    using assms(2) by (cases rule: send_payload_cases) (auto dest: post_signals_set)
  then show ?thesis
    by (auto simp: heartbeat_request_def runtime_request_def post_headers_def NewSender_def)
qed

text \<open>One metric that cannot be printed, such as a number that is not finite, stops the whole
  heartbeat: nothing is sent and the server's wishes are not heard.\<close>

lemma unprintable_metric_silences:
  assumes "map_of (pl_Metrics p) k = Some (Collected v)" "k \<noteq> ''runtime_instances''"
    and "any_json v = None"
  shows "send_payload parse w s p d = (Inl MarshalFailed, \<lparr>eff_requests = [], eff_disk = d\<rparr>)"
  using not_marshals [OF assms] by (simp add: send_payload_def)

text \<open>C21: recording the desired version is atomic. Whatever fails, the file holds its old content
  or the complete new line, and no file but the temporary one beside it is touched.\<close>

theorem desired_version_atomic:
  "recordDesiredVersion env fo desired d (desired_path env)
     \<in> {d (desired_path env), Some (desired @ [CHR 0x0A])} \<and>
   (\<forall>f. f \<notin> {desired_path env, desired_path env @ ''.tmp''} \<longrightarrow>
      recordDesiredVersion env fo desired d f = d f)"
  by (auto simp: recordDesiredVersion_def Let_def split: option.splits write_outcome.splits
      rename_outcome.splits)

text \<open>C22: when the write and the rename succeed, the file holds a text that trims to the version the
  server asked for: the version and a line feed, or what it held when that was already so. The updater
  reads the wish of the server from that line if and only if the wish has no white space inside and no byte 0.
  The same wish on the next heartbeat does not write the file again.\<close>

theorem desired_version_roundtrip:
  assumes "desired = snd (wishes parse body)" "desired \<noteq> []"
    and "fo_write fo = Written" "fo_rename fo = Renamed"
    and "fo_readable fo'"
  shows "(\<exists>content. recordDesiredVersion env fo desired d (desired_path env) = Some content \<and>
      trim_space content = desired \<and>
      (content = desired @ [CHR 0x0A] \<or> d (desired_path env) = Some content)) \<and>
    (updater_reads (desired @ [CHR 0x0A]) = desired \<longleftrightarrow> list_all updater_keeps desired) \<and>
    recordDesiredVersion env fo' desired (recordDesiredVersion env fo desired d) =
      recordDesiredVersion env fo desired d"
proof -
  have t: "trim_space (desired @ [CHR 0x0A]) = desired"
    using trim_space_newline [OF _ assms(2)] wishes_trimmed assms(1) by blast
  have c: "\<exists>content. recordDesiredVersion env fo desired d (desired_path env) = Some content \<and>
      trim_space content = desired \<and> (content = desired @ [CHR 0x0A] \<or> d (desired_path env) = Some content)"
    using assms(2-4) t by (auto simp: recordDesiredVersion_def Let_def split: option.splits)
  then have "recordDesiredVersion env fo' desired (recordDesiredVersion env fo desired d) =
      recordDesiredVersion env fo desired d"
    using assms(2,5) by (auto simp: recordDesiredVersion_def [of env fo'])
  moreover have "updater_reads (desired @ [CHR 0x0A]) = desired \<longleftrightarrow> list_all updater_keeps desired"
    by (simp add: updater_reads_def updater_keeps_def filter_id_conv list_all_iff)
  ultimately show ?thesis using c by blast
qed

section \<open>A concrete host\<close>

definition demo_tick :: tick_input where
  "demo_tick =
     \<lparr>ti_fs = \<lparr>fs_dir = (\<lambda>p. if p = ''/c/collectors.d'' then DirOk [demo_entry ''a.yaml''] else DirNotExist),
              fs_file = (\<lambda>p. Inr p)\<rparr>,
      ti_bindings = (\<lambda>_. Some demo_bindings), ti_services = (\<lambda>_. None),
      ti_now = ''2026-01-01T00:00:00Z''\<rparr>"

definition demo_sender :: Sender where
  "demo_sender = NewSender demo_registry demo_config ''/c/collectors.d''"

definition demo_outside :: outside where
  "demo_outside =
     \<lparr>out_reply = Reply 200 ''wish'' True, out_signal_replies = (\<lambda>_. Reply 404 [] True),
      out_env = (\<lambda>_. []), out_files = \<lparr>fo_readable = True, fo_write = Written, fo_rename = Renamed\<rparr>\<rparr>"

definition demo_reply :: "string \<Rightarrow> json option" where
  "demo_reply b =
     Some (JObj [(''nextHeartbeatAfterSeconds'', JInt 120), (''desiredAgentVersion'', JStr '' v0.27.0 '')])"

definition demo_metrics :: metrics where
  "demo_metrics = foldl run_one [] (run_tasks demo_registry demo_bindings)"

definition demo_payload :: Payload where
  "demo_payload = finish_payload demo_metrics (Inr []) ''2026-01-01T00:00:00Z''"

lemma demo_tick_input:
  "tick_bindings demo_sender demo_tick = demo_bindings"
  "tick_summaries demo_sender demo_tick = Inr []"
proof -
  have p: "path_join (path_dir ''/c/collectors.d'') ''services.d'' = ''/c/services.d''"
    by code_simp
  show "tick_bindings demo_sender demo_tick = demo_bindings"
    unfolding tick_bindings_def demo_sender_def NewSender_def demo_tick_def Sender.simps
      tick_input.simps p
    by code_simp
  show "tick_summaries demo_sender demo_tick = Inr []"
    unfolding tick_summaries_def demo_sender_def NewSender_def demo_tick_def Sender.simps
      tick_input.simps p
    by code_simp
qed

lemma demo_buildPayload: "buildPayload demo_sender demo_tick demo_payload"
  unfolding buildPayload_def demo_tick_input
  using Run_returns [of demo_registry demo_bindings]
  by (auto simp: demo_payload_def demo_metrics_def demo_sender_def NewSender_def demo_tick_def)

lemma demo_wishes: "wishes demo_reply (Some b) = (120, ''v0.27.0'')"
proof -
  have "trim_space '' v0.27.0 '' = ''v0.27.0''" by code_simp
  then show ?thesis
    by (simp add: wishes_def demo_reply_def unmarshal_response_def response_member_def
        min_int64_def max_int64_def)
qed

lemma demo_metrics_eq:
  "demo_metrics = [(''runtime_instances'', ASignals [demo_signal ''icglb'', demo_signal ''aigateway'']),
     (''arch'', AVal (VStr ''amd64''))]"
  by (simp add: demo_metrics_def demo_bindings_def gget_def mget_def mergeBindingValue_def)

lemma demo_marshals: "marshals (withoutMetric ''runtime_instances'' demo_payload)"
  unfolding demo_payload_def demo_metrics_eq
  by (simp add: finish_payload_def withoutMetric_def marshals_def printable_def any_json_def)

lemma demo_sent:
  "SendOnce demo_reply demo_tick demo_outside demo_sender Map.empty
     (send_payload demo_reply demo_outside demo_sender demo_payload Map.empty)"
  using demo_buildPayload by (auto simp: SendOnce_def)

lemma demo_accepted:
  "fst (send_payload demo_reply demo_outside demo_sender demo_payload d) = Inr 120"
  using demo_marshals by (simp add: send_payload_def demo_outside_def read_limited_def demo_wishes)

section \<open>The properties at that host\<close>

lemma payload_intrinsic_witness:
  "map_of (pl_Metrics demo_payload) ''reported_at'' =
     Some (Collected (AVal (VStr ''2026-01-01T00:00:00Z''))) \<and>
   map_of (pl_Metrics demo_payload) ''arch'' = Some (Collected (AVal (VStr ''amd64'')))"
  using payload_intrinsic [OF demo_buildPayload]
  by (simp add: demo_tick_def) (simp add: demo_payload_def demo_metrics_eq finish_payload_metrics)

theorem heartbeat_carries_metrics_witness:
  "\<exists>e p host gs. SendOnce demo_reply demo_tick demo_outside demo_sender Map.empty (Inr 120, e) \<and>
     buildPayload demo_sender demo_tick p \<and>
     eff_requests e = heartbeat_request demo_sender host # gs \<and>
     map_of (pl_Metrics host) ''arch'' = map_of (pl_Metrics p) ''arch''"
proof -
  obtain e where e: "SendOnce demo_reply demo_tick demo_outside demo_sender Map.empty (Inr 120, e)"
    using demo_sent demo_accepted by (metis prod.collapse)
  have "\<forall>i. out_signal_replies demo_outside i \<noteq> NoRequest" by (simp add: demo_outside_def)
  from heartbeat_carries_metrics [OF e this] obtain p host gs where
    "buildPayload demo_sender demo_tick p" "eff_requests e = heartbeat_request demo_sender host # gs"
    "\<forall>k. map_of (pl_Metrics host) k =
      (if k = ''runtime_instances'' then None else map_of (pl_Metrics p) k)"
    by blast
  then have "map_of (pl_Metrics host) ''arch'' = map_of (pl_Metrics p) ''arch''" by simp
  with e \<open>buildPayload demo_sender demo_tick p\<close> \<open>eff_requests e = _\<close> show ?thesis by blast
qed

lemma failed_heartbeat_harmless_witness:
  "eff_disk (snd (send_payload demo_reply (demo_outside\<lparr>out_reply := Reply 500 ''no'' True\<rparr>)
     demo_sender demo_payload Map.empty)) = Map.empty"
proof -
  let ?w = "demo_outside\<lparr>out_reply := Reply 500 ''no'' True\<rparr>"
  let ?r = "send_payload demo_reply ?w demo_sender demo_payload Map.empty"
  have "?r = (Inl (Rejected 500 ''no''), snd ?r)"
    using demo_marshals by (simp add: send_payload_def)
  then have "SendOnce demo_reply demo_tick ?w demo_sender Map.empty (Inl (Rejected 500 ''no''), snd ?r)"
    using demo_buildPayload by (auto simp: SendOnce_def)
  from failed_heartbeat_harmless [OF this] show ?thesis by simp
qed

lemma requests_authorised_witness:
  "map_of (rq_headers (heartbeat_request demo_sender (withoutMetric ''runtime_instances'' demo_payload)))
     ''Authorization'' = Some ''Bearer kid.sec''"
proof -
  let ?rq = "heartbeat_request demo_sender (withoutMetric ''runtime_instances'' demo_payload)"
  let ?r = "send_payload demo_reply demo_outside demo_sender demo_payload Map.empty"
  have "SendOnce demo_reply demo_tick demo_outside (NewSender demo_registry demo_config ''/c/collectors.d'')
      Map.empty (fst ?r, snd ?r)"
    using demo_sent by (simp add: demo_sender_def)
  moreover have "?rq \<in> set (eff_requests (snd ?r))"
    using demo_marshals by (simp add: send_payload_def demo_outside_def Let_def)
  ultimately show ?thesis
    using requests_authorised [of demo_reply demo_tick demo_outside demo_registry demo_config
        "''/c/collectors.d''" Map.empty "fst ?r" "snd ?r" ?rq]
    by (simp add: demo_config_def)
qed

lemma unprintable_metric_silences_witness:
  "send_payload demo_reply demo_outside demo_sender
     (finish_payload [(''load'', AVal (VFloat NaN))] (Inr []) ''now'') Map.empty =
   (Inl MarshalFailed, \<lparr>eff_requests = [], eff_disk = Map.empty\<rparr>)"
  by (rule unprintable_metric_silences [where k = "''load''" and v = "AVal (VFloat NaN)"])
    (simp_all add: finish_payload_metrics any_json_def)

theorem desired_version_atomic_witness:
  "recordDesiredVersion (\<lambda>_. []) \<lparr>fo_readable = True, fo_write = Written, fo_rename = RenameFails True\<rparr>
     ''v1'' (\<lambda>_. Some ''x'') ''/etc/passwd'' = Some ''x''"
  using desired_version_atomic [of "\<lambda>_. []"
      "\<lparr>fo_readable = True, fo_write = Written, fo_rename = RenameFails True\<rparr>" "''v1''"
      "\<lambda>_. Some ''x''"]
  by (simp add: desired_path_def defaultDesiredVersionFile_def)

theorem desired_version_roundtrip_witness:
  "\<exists>content. recordDesiredVersion (\<lambda>_. []) (out_files demo_outside) ''v0.27.0'' Map.empty
     (desired_path (\<lambda>_. [])) = Some content \<and> trim_space content = ''v0.27.0'' \<and>
     updater_reads content = ''v0.27.0''"
  using desired_version_roundtrip [of "''v0.27.0''" demo_reply "Some ''wish''" "out_files demo_outside"
      "out_files demo_outside" "\<lambda>_. []" Map.empty] demo_wishes [of "''wish''"]
  by (simp add: demo_outside_def updater_keeps_def)

end
