(* ===== verification/Primitive_Args.thy ===== *)
theory Primitive_Args
  imports Runner Live_Metrics
begin

text \<open>
  What the primitives of the collectors share (collectors/primitives_*.go): the typed reads of
  a binding's arguments, JSON paths, rounding, and the record of what the host answers during a
  tick.
\<close>

section \<open>Strings\<close>

text \<open>\<open>strings.Contains\<close>, \<open>strings.Trim\<close> for one ASCII character, the part before and after the
  first separator (\<open>strings.IndexByte\<close>), and the lines of a \<open>bufio.Scanner\<close>: \<open>None\<close> when a line
  does not fit into its buffer.\<close>

fun str_contains :: "string \<Rightarrow> string \<Rightarrow> bool" where
  "str_contains [] t = (t = [])"
| "str_contains (c # cs) t = (has_prefix (c # cs) t \<or> str_contains cs t)"

definition trim_char :: "char \<Rightarrow> string \<Rightarrow> string" where
  "trim_char c s = trim_right (dropWhile (\<lambda>x. x = c) s) [c]"

definition cut_at :: "char \<Rightarrow> string \<Rightarrow> (string \<times> string) option" where
  "cut_at c s =
     (if c \<in> set s then Some (takeWhile (\<lambda>x. x \<noteq> c) s, tl (dropWhile (\<lambda>x. x \<noteq> c) s)) else None)"

definition drop_cr :: "string \<Rightarrow> string" where
  "drop_cr s = (if s \<noteq> [] \<and> last s = CHR 0x0D then butlast s else s)"

definition scan_lines :: "string \<Rightarrow> string list option" where
  "scan_lines data =
     (let ls = split_on CHR 0x0A data; ls' = (if last ls = [] then butlast ls else ls)
      in if \<exists>l\<in>set ls'. 65536 \<le> length l then None else Some (map drop_cr ls'))"

section \<open>Arguments\<close>

definition argString :: "gargs \<Rightarrow> string \<Rightarrow> string \<Rightarrow> string" where
  "argString args key dflt =
     (case gget args key of VStr v \<Rightarrow> if v \<noteq> [] then v else dflt | _ \<Rightarrow> dflt)"

text \<open>\<open>s, _ := args[key].(string)\<close>\<close>

definition str_arg :: "gargs \<Rightarrow> string \<Rightarrow> string" where
  "str_arg args key = (case gget args key of VStr v \<Rightarrow> v | _ \<Rightarrow> [])"

definition bool_arg :: "gargs \<Rightarrow> string \<Rightarrow> bool \<Rightarrow> bool" where
  "bool_arg args key dflt = (case gget args key of VBool b \<Rightarrow> b | _ \<Rightarrow> dflt)"

definition argFloat :: "gargs \<Rightarrow> string \<Rightarrow> f64 \<Rightarrow> f64" where
  "argFloat args key dflt =
     (case gget args key of
        VFloat x \<Rightarrow> x | VInt i \<Rightarrow> f64_of_int i | VInt64 i \<Rightarrow> f64_of_int i | _ \<Rightarrow> dflt)"

definition argStringSlice :: "gargs \<Rightarrow> string \<Rightarrow> string + string list" where
  "argStringSlice args key =
     (case map_of args key of
        None \<Rightarrow> Inl (key @ '': required'')
      | Some (VStrs ss) \<Rightarrow> Inr ss
      | Some (VList vs) \<Rightarrow>
          (case those (map (\<lambda>v. case v of VStr s \<Rightarrow> Some s | _ \<Rightarrow> None) vs) of
             None \<Rightarrow> Inl (key @ '': must be string'') | Some ss \<Rightarrow> Inr ss)
      | Some _ \<Rightarrow> Inl (key @ '': must be string list''))"

text \<open>\<open>time.Duration(x * float64(time.Second))\<close>, in nanoseconds.\<close>

definition duration_s :: "goarch \<Rightarrow> f64 \<Rightarrow> int" where
  "duration_s arch x = f64_to_int arch (f64_mul x (Fin 1000000000))"

text \<open>\<open>math.Round\<close> rounds half away from zero; \<open>roundTo\<close> is only called with at most two
  digits, for which \<open>math.Pow(10, digits)\<close> is exact.\<close>

fun math_round :: "f64 \<Rightarrow> f64" where
  "math_round (Fin r) = Fin (if 0 \<le> r then of_int \<lfloor>r + 1 / 2\<rfloor> else - of_int \<lfloor>- r + 1 / 2\<rfloor>)"
| "math_round x = x"

definition roundTo :: "f64 \<Rightarrow> nat \<Rightarrow> f64" where
  "roundTo f digs = f64_div (math_round (f64_mul f (Fin (10 ^ digs)))) (Fin (10 ^ digs))"

section \<open>JSON paths\<close>

fun json_walk :: "gval \<Rightarrow> string list \<Rightarrow> gval" where
  "json_walk cur [] = cur"
| "json_walk cur (seg # segs) =
     (let nxt = (case cur of
                   VMap m \<Rightarrow> gget m seg
                 | VList vs \<Rightarrow>
                     (case parse_int seg of
                        None \<Rightarrow> VNil
                      | Some i \<Rightarrow> if i < 0 \<or> int (length vs) \<le> i then VNil else vs ! nat i)
                 | _ \<Rightarrow> VNil)
      in if nxt = VNil then VNil else json_walk nxt segs)"

definition jsonPath :: "gval \<Rightarrow> string \<Rightarrow> gval" where
  "jsonPath doc path = (if path = [] then doc else json_walk doc (split_on CHR ''.'' path))"

section \<open>The host\<close>

text \<open>An HTTP exchange: no request, no response, or a status with the body and whether the body
  ends in a clean end of file.\<close>

datatype http_reply = BadRequest string | NoResponse string | Response int string bool

definition read_body :: "nat \<Rightarrow> string \<Rightarrow> bool \<Rightarrow> string option" where
  "read_body n body clean = (if clean \<or> n \<le> length body then Some (take n body) else None)"

text \<open>What the host and its surroundings answer during a tick: files (now and after a wait),
  commands (by argument vector; an error or the output), \<open>dockerd\<close> (by socket and path), web
  servers (by URL), the clock (nanoseconds since the epoch, and as RFC 3339 text) and the local
  time zone. The lexical layer of JSON is given too: decoding the first document of a stream that
  ends cleanly or not and decoding a text that is one document (a document, or the text of the
  error), \<open>ho_type_error\<close> is the text for a document of the wrong shape, \<open>ho_print\<close> prints a
  document; \<open>ho_float\<close> and \<open>ho_fmt_float\<close> read and print a double, and
  \<open>ho_cancelled\<close> says whether the context ends during a wait.\<close>

record host =
  ho_arch :: goarch
  ho_fs :: filesys
  ho_fs_later :: filesys
  ho_cmd :: "string list \<Rightarrow> string + string"
  ho_docker :: "string \<Rightarrow> string \<Rightarrow> http_reply"
  ho_get :: "string \<Rightarrow> http_reply"
  ho_json :: "string \<Rightarrow> bool \<Rightarrow> string + json"
  ho_unmarshal :: "string \<Rightarrow> string + json"
  ho_print :: "json \<Rightarrow> string"
  ho_fmt_float :: "f64 \<Rightarrow> string"
  ho_type_error :: "json \<Rightarrow> string"
  ho_float :: "string \<Rightarrow> f64 option"
  ho_now :: int
  ho_now_text :: string
  ho_local :: "int \<Rightarrow> int"
  ho_cancelled :: bool

text \<open>The text of a file error.\<close>

definition io_text :: "io_err \<Rightarrow> string" where
  "io_text e = (case e of NotExist \<Rightarrow> ''no such file or directory'' | IoErr s \<Rightarrow> s)"

section \<open>Facts\<close>

lemma str_contains_iff: "str_contains s t \<longleftrightarrow> (\<exists>a b. s = a @ t @ b)"
proof (induction s)
  case Nil
  then show ?case by auto
next
  case (Cons c cs)
  have "(\<exists>a b. c # cs = a @ t @ b) \<longleftrightarrow> prefix t (c # cs) \<or> (\<exists>a b. cs = a @ t @ b)"
    by (auto simp: prefix_def Cons_eq_append_conv)
  with Cons show ?case by (simp add: has_prefix_iff)
qed

lemma roundTo_zero [simp]: "roundTo (Fin 0) d = Fin 0"
proof -
  have "\<lfloor>1 / 2 :: rat\<rfloor> = 0" by (simp add: floor_eq_iff)
  then show ?thesis by (simp add: roundTo_def)
qed

lemma split_on_no: "c \<notin> set s \<Longrightarrow> split_on c s = [s]"
  by (induction s) auto

lemma split_on_append: "c \<notin> set s \<Longrightarrow> split_on c (s @ c # t) = s # split_on c t"
  by (induction s) auto

lemma split_join:
  "ws \<noteq> [] \<Longrightarrow> \<forall>w\<in>set ws. c \<notin> set w \<Longrightarrow> split_on c (join_with [c] ws) = ws"
  by (induction ws rule: induct_list012) (simp_all add: split_on_no split_on_append)

section \<open>Finite results\<close>

lemma f64_round_finite:
  assumes "\<bar>r\<bar> \<le> 2 ^ 1000"
  shows "\<exists>v. f64_round r = Fin v \<and> \<bar>v\<bar> \<le> 2 * \<bar>r\<bar> + 1"
proof (cases "r = 0")
  case True
  then show ?thesis by simp
next
  case False
  let ?v = "of_int (round_half_even (r / ulp r)) * ulp r"
  have "ulp r \<le> max \<bar>r\<bar> tiny * pow2 (- 52)" using ulp_le [OF False] .
  also have "\<dots> \<le> (\<bar>r\<bar> + 1) * 1"
    using tiny_le_1 by (intro mult_mono) (auto simp: pow2_def)
  finally have "ulp r / 2 \<le> \<bar>r\<bar> + 1" by simp
  with rounded_near [of r] have "\<bar>?v - r\<bar> \<le> \<bar>r\<bar> + 1" by (rule order_trans)
  then have v: "\<bar>?v\<bar> \<le> 2 * \<bar>r\<bar> + 1" by linarith
  also have "\<dots> \<le> 2 * 2 ^ 1000 + 1" using assms by simp
  also have "\<dots> < pow2 1024" unfolding pow2_def by simp
  finally have "\<not> pow2 1024 \<le> \<bar>?v\<bar>" by simp
  with v False show ?thesis by (simp add: f64_round_def Let_def)
qed

lemma f64_of_int_finite:
  assumes "\<bar>i\<bar> \<le> 2 ^ 64"
  shows "\<exists>v. f64_of_int i = Fin v \<and> \<bar>v\<bar> \<le> 2 ^ 66"
proof -
  have i: "\<bar>rat_of_int i\<bar> \<le> 2 ^ 64" using rat_le_power [of "\<bar>i\<bar>" 64] assms by simp
  then have "\<bar>rat_of_int i\<bar> \<le> 2 ^ 1000" by (rule order_trans) simp
  from f64_round_finite [OF this] obtain v where
    "f64_round (rat_of_int i) = Fin v" "\<bar>v\<bar> \<le> 2 * \<bar>rat_of_int i\<bar> + 1" by blast
  with i show ?thesis by (auto simp: f64_of_int_def intro!: exI [of _ v])
qed

lemma f64_of_int_near:
  assumes "\<bar>i\<bar> \<le> 2 ^ 64"
  shows "\<exists>v. f64_of_int i = Fin v \<and> \<bar>v - of_int i\<bar> \<le> \<bar>of_int i\<bar> / 2"
proof (cases "i = 0")
  case False
  have "\<bar>rat_of_int i\<bar> \<le> 2 ^ 64" using rat_le_power [of "\<bar>i\<bar>" 64] assms by simp
  then have "\<bar>rat_of_int i\<bar> \<le> 2 ^ 80" by (rule order_trans) simp
  from f64_round_near [OF this] obtain v where v: "f64_round (rat_of_int i) = Fin v"
    "\<bar>v - rat_of_int i\<bar> \<le> max \<bar>rat_of_int i\<bar> tiny * pow2 (- 53)" by blast
  have "1 \<le> \<bar>rat_of_int i\<bar>" using False by (simp flip: of_int_abs)
  then have "max \<bar>rat_of_int i\<bar> tiny = \<bar>rat_of_int i\<bar>" using tiny_le_1 by auto
  moreover have "\<bar>rat_of_int i\<bar> * pow2 (- 53) \<le> \<bar>rat_of_int i\<bar> * (1 / 2)"
    by (intro mult_left_mono) (auto simp: pow2_def)
  ultimately show ?thesis using v by (simp add: f64_of_int_def)
qed simp

lemma f64_of_int_pos:
  assumes "\<bar>i\<bar> \<le> 2 ^ 64" "\<not> f64_le (f64_of_int i) (Fin 0)"
  shows "\<exists>v. f64_of_int i = Fin v \<and> 1 / 2 \<le> v \<and> v \<le> 2 ^ 66"
proof -
  obtain v where v: "f64_of_int i = Fin v" "\<bar>v - of_int i\<bar> \<le> \<bar>of_int i\<bar> / 2"
    using f64_of_int_near [OF assms(1)] by blast
  have "0 < v" using assms(2) by (auto simp: v(1) f64_le_def)
  then have "0 < rat_of_int i" using v(2) by linarith
  then have "1 \<le> rat_of_int i" by simp
  then have "1 / 2 \<le> v" using v(2) by linarith
  with v(1) f64_of_int_finite [OF assms(1)] show ?thesis by auto
qed

lemma abs_div_half:
  assumes "1 / 2 \<le> (y :: rat)" "\<bar>x\<bar> \<le> b"
  shows "\<bar>x / y\<bar> \<le> 2 * b"
proof -
  have "0 \<le> b" using assms(2) by linarith
  then have "b * 1 \<le> b * (2 * y)" using assms(1) by (intro mult_left_mono) auto
  then have "\<bar>x\<bar> \<le> 2 * b * y" using assms(2) by (simp add: algebra_simps)
  then show ?thesis using assms(1) by (simp add: abs_divide pos_divide_le_eq)
qed

lemma wrap64_range: "- (2 ^ 63) \<le> wrap64 i \<and> wrap64 i < 2 ^ 63"
  unfolding wrap64_def using pos_mod_bound [of "2 ^ 64" "i + 2 ^ 63"] by simp

lemma math_round_finite: "\<exists>v. math_round (Fin r) = Fin v \<and> \<bar>v\<bar> \<le> \<bar>r\<bar> + 1"
proof -
  have "\<bar>rat_of_int \<lfloor>x + 1 / 2\<rfloor>\<bar> \<le> x + 1" if "0 \<le> x" for x :: rat
  proof -
    have "rat_of_int \<lfloor>x + 1 / 2\<rfloor> \<le> x + 1" by (rule order_trans [OF of_int_floor_le]) simp
    then show ?thesis using that by simp
  qed
  from this [of r] this [of "- r"] show ?thesis by auto
qed

text \<open>A product, quotient or rounding of doubles of moderate size is finite.\<close>

lemma f64_mul_finite: "\<bar>a * b\<bar> \<le> 2 ^ 1000 \<Longrightarrow> \<exists>v. f64_mul (Fin a) (Fin b) = Fin v \<and> \<bar>v\<bar> \<le> 2 * \<bar>a * b\<bar> + 1"
  using f64_round_finite [of "a * b"] by simp

lemma f64_div_finite:
  "b \<noteq> 0 \<Longrightarrow> \<bar>a / b\<bar> \<le> 2 ^ 1000 \<Longrightarrow> \<exists>v. f64_div (Fin a) (Fin b) = Fin v \<and> \<bar>v\<bar> \<le> 2 * \<bar>a / b\<bar> + 1"
  using f64_round_finite [of "a / b"] by simp

lemma roundTo_bounded:
  assumes "\<bar>r\<bar> \<le> 2 ^ 900" "d \<le> 2"
  shows "\<exists>v. roundTo (Fin r) d = Fin v \<and> \<bar>v\<bar> \<le> 400 * \<bar>r\<bar> + 5"
proof -
  have p: "(1 :: rat) \<le> 10 ^ d" "(10 :: rat) ^ d \<le> 100"
    using assms(2) power_increasing [of d 2 "10 :: rat"] by auto
  have r: "\<bar>r * 10 ^ d\<bar> \<le> \<bar>r\<bar> * 100"
    unfolding abs_mult using p by (intro mult_left_mono) auto
  then have "\<bar>r * 10 ^ d\<bar> \<le> 2 ^ 1000" using assms(1) by simp
  then obtain m where m: "f64_mul (Fin r) (Fin (10 ^ d)) = Fin m" "\<bar>m\<bar> \<le> 2 * (\<bar>r\<bar> * 100) + 1"
    using f64_mul_finite [of r "10 ^ d"] r by fastforce
  then obtain q where q: "math_round (Fin m) = Fin q" "\<bar>q\<bar> \<le> 2 * (\<bar>r\<bar> * 100) + 2"
    using math_round_finite [of m] by fastforce
  have d: "\<bar>q / 10 ^ d\<bar> \<le> \<bar>q\<bar>"
    using p mult_left_mono [OF p(1), of "\<bar>q\<bar>"] by (simp add: abs_divide divide_le_eq)
  then have "\<bar>q / 10 ^ d\<bar> \<le> 2 ^ 1000" using q(2) assms(1) by simp
  then obtain v where "f64_div (Fin q) (Fin (10 ^ d)) = Fin v" "\<bar>v\<bar> \<le> 2 * \<bar>q / 10 ^ d\<bar> + 1"
    using f64_div_finite [of "10 ^ d" q] p by fastforce
  with m q d show ?thesis by (simp add: roundTo_def) 
qed

lemma roundTo_finite:
  "\<bar>r\<bar> \<le> 2 ^ 900 \<Longrightarrow> d \<le> 2 \<Longrightarrow> \<exists>v. roundTo (Fin r) d = Fin v"
  using roundTo_bounded by blast

section \<open>A concrete host\<close>

text \<open>A host with the given clock and files on which nothing else answers.\<close>

definition demo_host :: "int \<Rightarrow> (string \<Rightarrow> io_err + string) \<Rightarrow> host" where
  "demo_host now files =
     \<lparr>ho_arch = Amd64, ho_fs = \<lparr>fs_dir = (\<lambda>_. DirNotExist), fs_file = files\<rparr>,
      ho_fs_later = \<lparr>fs_dir = (\<lambda>_. DirNotExist), fs_file = files\<rparr>,
      ho_cmd = (\<lambda>_. Inl ''not found''), ho_docker = (\<lambda>_ _. NoResponse ''no socket''),
      ho_get = (\<lambda>_. NoResponse ''refused''), ho_json = (\<lambda>_ _. Inl ''bad''), ho_unmarshal = (\<lambda>_. Inl ''bad''),
      ho_print = (\<lambda>_. []), ho_fmt_float = (\<lambda>_. []), ho_type_error = (\<lambda>_. ''type''),
      ho_float = (\<lambda>_. None), ho_now = now, ho_now_text = ''now'', ho_local = (\<lambda>_. 0), ho_cancelled = False\<rparr>"

end
