(* ===== verification/Docker_Primitives.thy ===== *)
theory Docker_Primitives
  imports Primitive_Args Heartbeat_Signals
begin

text \<open>
  The Docker collectors (collectors/primitives_docker.go): one request to \<open>dockerd\<close>, decoding the
  answer into a struct, the container list with its state counts, and the resource use.
\<close>

section \<open>Decoding into structs\<close>

text \<open>A decoder takes the document and the present value of its target, and says whether the
  document had the right shape; \<open>null\<close> leaves the target alone.\<close>

type_synonym 'a decoder = "json \<Rightarrow> 'a \<Rightarrow> 'a \<times> bool"

definition dec_str :: "string decoder" where
  "dec_str j old = (case j of JNull \<Rightarrow> (old, True) | JStr s \<Rightarrow> (s, True) | _ \<Rightarrow> (old, False))"

definition dec_int :: "int decoder" where
  "dec_int j old =
     (case j of
        JNull \<Rightarrow> (old, True)
      | JInt i \<Rightarrow> if min_int64 \<le> i \<and> i \<le> max_int64 then (i, True) else (old, False)
      | _ \<Rightarrow> (old, False))"

definition dec_arr :: "'a \<Rightarrow> 'a decoder \<Rightarrow> 'a list decoder" where
  "dec_arr zero d j old =
     (case j of
        JNull \<Rightarrow> ([], True)
      | JArr js \<Rightarrow> (map (\<lambda>j. fst (d j zero)) js, list_all (\<lambda>j. snd (d j zero)) js)
      | _ \<Rightarrow> (old, False))"

definition dec_obj :: "string list \<Rightarrow> (string \<Rightarrow> 'a decoder) \<Rightarrow> 'a decoder" where
  "dec_obj names member j old =
     (case j of
        JNull \<Rightarrow> (old, True)
      | JObj ms \<Rightarrow>
          foldl (\<lambda>(v, ok) m.
            case json_field names (fst m) of
              None \<Rightarrow> (v, ok)
            | Some n \<Rightarrow> (case member n (snd m) v of (v', ok') \<Rightarrow> (v', ok \<and> ok'))) (old, True) ms
      | _ \<Rightarrow> (old, False))"

text \<open>A decoder for a field, given how to read and write it.\<close>

definition dec_field :: "('a \<Rightarrow> 'b) \<Rightarrow> ('b \<Rightarrow> 'a \<Rightarrow> 'a) \<Rightarrow> 'b decoder \<Rightarrow> 'a decoder" where
  "dec_field get put d j v = (case d j (get v) of (x, ok) \<Rightarrow> (put x v, ok))"

definition dec_labels :: "(string, string) gomap decoder" where
  "dec_labels j old =
     (case j of
        JNull \<Rightarrow> ([], True)
      | JObj ms \<Rightarrow> (foldl (\<lambda>m e. AList.update (fst e) (fst (dec_str (snd e) [])) m) old ms,
                    list_all (\<lambda>e. snd (dec_str (snd e) [])) ms)
      | _ \<Rightarrow> (old, False))"

section \<open>Requests\<close>

definition dockerDefaultSocket :: string where "dockerDefaultSocket = ''/var/run/docker.sock''"

definition dockerGet :: "host \<Rightarrow> string \<Rightarrow> string \<Rightarrow> 'a decoder \<Rightarrow> 'a \<Rightarrow> string + 'a" where
  "dockerGet h socket path d zero =
     (case ho_docker h socket path of
        BadRequest e \<Rightarrow> Inl e
      | NoResponse e \<Rightarrow> Inl (''docker socket '' @ socket @ '': '' @ e)
      | Response status body clean \<Rightarrow>
          if status \<ge> 400
          then Inl (''docker '' @ path @ '': HTTP '' @ itoa status @ '': '' @ trim_space (take 512 body))
          else result_bind (ho_json h body clean)
                 (\<lambda>j. case d j zero of (v, ok) \<Rightarrow> if ok then Inr v else Inl (ho_type_error h j)))"

section \<open>Containers\<close>

record rawPort =
  rp_PrivatePort :: int
  rp_PublicPort :: int
  rp_Type :: string

record rawContainer =
  rc_ID :: string
  rc_Names :: "string list"
  rc_Image :: string
  rc_State :: string
  rc_Status :: string
  rc_Created :: int
  rc_Ports :: "rawPort list"

definition zero_port :: rawPort where
  "zero_port = \<lparr>rp_PrivatePort = 0, rp_PublicPort = 0, rp_Type = []\<rparr>"

definition zero_container :: rawContainer where
  "zero_container = \<lparr>rc_ID = [], rc_Names = [], rc_Image = [], rc_State = [], rc_Status = [],
     rc_Created = 0, rc_Ports = []\<rparr>"

definition dec_port :: "rawPort decoder" where
  "dec_port =
     dec_obj [''PrivatePort'', ''PublicPort'', ''Type'']
       (\<lambda>n. if n = ''PrivatePort'' then dec_field rp_PrivatePort (\<lambda>x v. v\<lparr>rp_PrivatePort := x\<rparr>) dec_int
            else if n = ''PublicPort'' then dec_field rp_PublicPort (\<lambda>x v. v\<lparr>rp_PublicPort := x\<rparr>) dec_int
            else dec_field rp_Type (\<lambda>x v. v\<lparr>rp_Type := x\<rparr>) dec_str)"

definition container_fields :: "string list" where
  "container_fields = [''Id'', ''Names'', ''Image'', ''State'', ''Status'', ''Created'', ''Ports'']"

text \<open>The struct of \<open>dockerStats\<close> has the first four fields only.\<close>

definition dec_container :: "string list \<Rightarrow> rawContainer decoder" where
  "dec_container names =
     dec_obj names
       (\<lambda>n. if n = ''Id'' then dec_field rc_ID (\<lambda>x v. v\<lparr>rc_ID := x\<rparr>) dec_str
            else if n = ''Names'' then dec_field rc_Names (\<lambda>x v. v\<lparr>rc_Names := x\<rparr>) (dec_arr [] dec_str)
            else if n = ''Image'' then dec_field rc_Image (\<lambda>x v. v\<lparr>rc_Image := x\<rparr>) dec_str
            else if n = ''State'' then dec_field rc_State (\<lambda>x v. v\<lparr>rc_State := x\<rparr>) dec_str
            else if n = ''Status'' then dec_field rc_Status (\<lambda>x v. v\<lparr>rc_Status := x\<rparr>) dec_str
            else if n = ''Created'' then dec_field rc_Created (\<lambda>x v. v\<lparr>rc_Created := x\<rparr>) dec_int
            else dec_field rc_Ports (\<lambda>x v. v\<lparr>rc_Ports := x\<rparr>) (dec_arr zero_port dec_port))"

definition dec_restarts :: "int decoder" where
  "dec_restarts = dec_obj [''RestartCount''] (\<lambda>_. dec_int)"

definition container_path :: "string \<Rightarrow> string \<Rightarrow> string" where
  "container_path cid rest = ''/containers/'' @ cid @ rest"

definition dockerRestartCount :: "host \<Rightarrow> string \<Rightarrow> string \<Rightarrow> int" where
  "dockerRestartCount h socket cid =
     (case dockerGet h socket (container_path cid ''/json'') dec_restarts 0 of
        Inl _ \<Rightarrow> 0 | Inr n \<Rightarrow> n)"

definition container_name :: "rawContainer \<Rightarrow> string" where
  "container_name c = (case rc_Names c of [] \<Rightarrow> ''?'' | n # _ \<Rightarrow> trim_prefix n ''/'')"

definition port_entry :: "rawPort \<Rightarrow> string" where
  "port_entry p =
     (if rp_PublicPort p \<noteq> 0
      then itoa (rp_PublicPort p) @ ''->'' @ itoa (rp_PrivatePort p) @ ''/'' @ rp_Type p
      else itoa (rp_PrivatePort p) @ ''/'' @ rp_Type p)"

text \<open>The loop over the ports keeps the first of each entry.\<close>

definition add_port :: "string list \<Rightarrow> rawPort \<Rightarrow> string list" where
  "add_port l p = (if port_entry p \<in> set l then l else l @ [port_entry p])"

definition port_list :: "rawPort list \<Rightarrow> string list" where
  "port_list ps = sort (foldl add_port [] ps)"

record containerRow =
  cr_Name :: string
  cr_Image :: string
  cr_State :: string
  cr_Status :: string
  cr_RestartCount :: int
  cr_Ports :: string

definition container_row :: "host \<Rightarrow> string \<Rightarrow> rawContainer \<Rightarrow> containerRow" where
  "container_row h socket c =
     \<lparr>cr_Name = container_name c, cr_Image = rc_Image c, cr_State = rc_State c,
      cr_Status = rc_Status c,
      cr_RestartCount = (if rc_State c = ''restarting'' \<or> rc_State c = ''running''
                         then dockerRestartCount h socket (rc_ID c) else 0),
      cr_Ports = join_with '', '' (port_list (rc_Ports c))\<rparr>"

definition row_val :: "containerRow \<Rightarrow> gval" where
  "row_val r = VMap [(''name'', VStr (cr_Name r)), (''image'', VStr (cr_Image r)),
     (''state'', VStr (cr_State r)), (''status'', VStr (cr_Status r)),
     (''restart_count'', VInt (cr_RestartCount r)), (''ports'', VStr (cr_Ports r))]"

definition state_buckets :: "string list" where
  "state_buckets = [''running'', ''exited'', ''restarting'', ''paused'', ''dead'', ''created'', ''removing'']"

definition count_state :: "rawContainer list \<Rightarrow> string \<Rightarrow> nat" where
  "count_state cs s = length (filter (\<lambda>c. rc_State c = s) cs)"

definition container_report :: "host \<Rightarrow> string \<Rightarrow> rawContainer list \<Rightarrow> gargs" where
  "container_report h socket cs =
     (''total'', VInt (int (length cs))) #
     map (\<lambda>s. (s, VInt (int (count_state cs s)))) state_buckets @
     [(''list'', VList (map (\<lambda>c. row_val (container_row h socket c)) cs))]"

definition dockerContainers :: "host \<Rightarrow> gargs \<Rightarrow> string + gval" where
  "dockerContainers h args =
     (let socket = argString args ''socket'' dockerDefaultSocket;
          path = (if bool_arg args ''all'' True then ''/containers/json?all=true'' else ''/containers/json'')
      in result_bind
           (dockerGet h socket path (dec_arr zero_container (dec_container container_fields)) [])
           (\<lambda>cs. Inr (VMap (container_report h socket cs))))"

section \<open>Resource use\<close>

record cpuStats =
  cs_TotalUsage :: int
  cs_PercpuUsage :: "int list"
  cs_SystemUsage :: int
  cs_OnlineCPUs :: int

record dockerStatsResponse =
  st_CPUStats :: cpuStats
  st_PreCPUStats :: cpuStats
  st_MemUsage :: int
  st_MemLimit :: int
  st_MemCache :: int
  st_MemInactiveFile :: int

definition zero_cpu :: cpuStats where
  "zero_cpu = \<lparr>cs_TotalUsage = 0, cs_PercpuUsage = [], cs_SystemUsage = 0, cs_OnlineCPUs = 0\<rparr>"

definition zero_stats :: dockerStatsResponse where
  "zero_stats = \<lparr>st_CPUStats = zero_cpu, st_PreCPUStats = zero_cpu, st_MemUsage = 0, st_MemLimit = 0,
     st_MemCache = 0, st_MemInactiveFile = 0\<rparr>"

definition dec_cpu_usage :: "cpuStats decoder" where
  "dec_cpu_usage =
     dec_obj [''total_usage'', ''percpu_usage'']
       (\<lambda>n. if n = ''total_usage'' then dec_field cs_TotalUsage (\<lambda>x v. v\<lparr>cs_TotalUsage := x\<rparr>) dec_int
            else dec_field cs_PercpuUsage (\<lambda>x v. v\<lparr>cs_PercpuUsage := x\<rparr>) (dec_arr 0 dec_int))"

definition dec_cpu :: "cpuStats decoder" where
  "dec_cpu =
     dec_obj [''cpu_usage'', ''system_cpu_usage'', ''online_cpus'']
       (\<lambda>n. if n = ''cpu_usage'' then dec_cpu_usage
            else if n = ''system_cpu_usage''
            then dec_field cs_SystemUsage (\<lambda>x v. v\<lparr>cs_SystemUsage := x\<rparr>) dec_int
            else dec_field cs_OnlineCPUs (\<lambda>x v. v\<lparr>cs_OnlineCPUs := x\<rparr>) dec_int)"

definition dec_memory :: "dockerStatsResponse decoder" where
  "dec_memory =
     dec_obj [''usage'', ''limit'', ''stats'']
       (\<lambda>n. if n = ''usage'' then dec_field st_MemUsage (\<lambda>x v. v\<lparr>st_MemUsage := x\<rparr>) dec_int
            else if n = ''limit'' then dec_field st_MemLimit (\<lambda>x v. v\<lparr>st_MemLimit := x\<rparr>) dec_int
            else dec_obj [''cache'', ''inactive_file'']
              (\<lambda>m. if m = ''cache'' then dec_field st_MemCache (\<lambda>x v. v\<lparr>st_MemCache := x\<rparr>) dec_int
                   else dec_field st_MemInactiveFile (\<lambda>x v. v\<lparr>st_MemInactiveFile := x\<rparr>) dec_int))"

definition dec_stats :: "dockerStatsResponse decoder" where
  "dec_stats =
     dec_obj [''cpu_stats'', ''precpu_stats'', ''memory_stats'']
       (\<lambda>n. if n = ''cpu_stats'' then dec_field st_CPUStats (\<lambda>x v. v\<lparr>st_CPUStats := x\<rparr>) dec_cpu
            else if n = ''precpu_stats''
            then dec_field st_PreCPUStats (\<lambda>x v. v\<lparr>st_PreCPUStats := x\<rparr>) dec_cpu
            else dec_memory)"

text \<open>Integer division truncates towards zero.\<close>

definition go_div :: "int \<Rightarrow> int \<Rightarrow> int" where
  "go_div a b = (if 0 \<le> a then a div b else - ((- a) div b))"

text \<open>\<open>len\<close> is an \<open>int\<close>.\<close>

definition online_cpus :: "cpuStats \<Rightarrow> int" where
  "online_cpus c =
     (let n = (if cs_OnlineCPUs c = 0 then wrap64 (int (length (cs_PercpuUsage c))) else cs_OnlineCPUs c)
      in if n = 0 then 1 else n)"

definition calcCPUPct :: "dockerStatsResponse \<Rightarrow> f64" where
  "calcCPUPct s =
     (let cpuDelta = f64_of_int (wrap64 (cs_TotalUsage (st_CPUStats s) - cs_TotalUsage (st_PreCPUStats s)));
          sysDelta = f64_of_int (wrap64 (cs_SystemUsage (st_CPUStats s) - cs_SystemUsage (st_PreCPUStats s)));
          online = online_cpus (st_CPUStats s)
      in if f64_le sysDelta (Fin 0) \<or> f64_le cpuDelta (Fin 0) then Fin 0
         else f64_mul (f64_mul (f64_div cpuDelta sysDelta) (f64_of_int online)) (Fin 100))"

record statsRow =
  sr_Name :: string
  sr_Image :: string
  sr_State :: string
  sr_CPUPct :: f64
  sr_MemUsedMB :: int
  sr_MemLimitMB :: int
  sr_MemPct :: f64
  sr_RestartCount :: int

definition mem_ratio :: "dockerStatsResponse \<Rightarrow> f64" where
  "mem_ratio s =
     (if st_MemLimit s > 0
      then roundTo (f64_div (f64_mul (f64_of_int (st_MemUsage s)) (Fin 100)) (f64_of_int (st_MemLimit s))) 2
      else Fin 0)"

definition stats_row :: "host \<Rightarrow> string \<Rightarrow> rawContainer \<Rightarrow> statsRow" where
  "stats_row h socket c =
     (let row = \<lparr>sr_Name = container_name c, sr_Image = rc_Image c, sr_State = rc_State c,
                 sr_CPUPct = Fin 0, sr_MemUsedMB = 0, sr_MemLimitMB = 0, sr_MemPct = Fin 0,
                 sr_RestartCount = dockerRestartCount h socket (rc_ID c)\<rparr>
      in case dockerGet h socket (container_path (rc_ID c) ''/stats?stream=false'') dec_stats zero_stats of
           Inl _ \<Rightarrow> row
         | Inr s \<Rightarrow> row\<lparr>sr_CPUPct := roundTo (calcCPUPct s) 2,
                        sr_MemUsedMB := go_div (st_MemUsage s) (1024 * 1024),
                        sr_MemLimitMB := go_div (st_MemLimit s) (1024 * 1024),
                        sr_MemPct := mem_ratio s\<rparr>)"

definition stats_val :: "statsRow \<Rightarrow> gval" where
  "stats_val r = VMap [(''name'', VStr (sr_Name r)), (''image'', VStr (sr_Image r)),
     (''state'', VStr (sr_State r)), (''cpu_pct'', VFloat (sr_CPUPct r)),
     (''mem_used_mb'', VInt64 (sr_MemUsedMB r)), (''mem_limit_mb'', VInt64 (sr_MemLimitMB r)),
     (''mem_pct'', VFloat (sr_MemPct r)), (''restart_count'', VInt (sr_RestartCount r))]"

text \<open>Each goroutine writes its own slot, so the order in which they finish does not matter.\<close>

definition dockerStats :: "host \<Rightarrow> gargs \<Rightarrow> string + gval" where
  "dockerStats h args =
     (let socket = argString args ''socket'' dockerDefaultSocket
      in result_bind
           (dockerGet h socket ''/containers/json''
              (dec_arr zero_container (dec_container (take 4 container_fields))) [])
           (\<lambda>cs. Inr (VList (map (\<lambda>c. stats_val (stats_row h socket c)) cs))))"

section \<open>Facts\<close>

text \<open>Values that \<open>json.Marshal\<close> accepts.\<close>

definition gval_prints :: "gval \<Rightarrow> bool" where
  "gval_prints v = (to_json v \<noteq> None)"

lemma those_not_None: "those xs \<noteq> None \<longleftrightarrow> (\<forall>x\<in>set xs. x \<noteq> None)"
  by (induction xs) (auto split: option.splits)

lemma gval_prints_simps [simp]:
  "gval_prints VNil" "gval_prints (VBool b)" "gval_prints (VInt i)" "gval_prints (VInt64 i)"
  "gval_prints (VStr s)" "gval_prints (VStrs ss)" "gval_prints (VFloat (Fin r))"
  "gval_prints (VList vs) \<longleftrightarrow> (\<forall>v\<in>set vs. gval_prints v)"
  "gval_prints (VMap es) \<longleftrightarrow> (\<forall>e\<in>set es. gval_prints (snd e))"
  using those_not_None [of "map to_json vs"]
    those_not_None [of "map (\<lambda>e. map_option (Pair (fst e)) (to_json (snd e))) es"]
  by (auto simp: gval_prints_def simp del: not_None_eq)

lemma gval_prints_VFloat: "gval_prints (VFloat x) \<longleftrightarrow> (\<exists>r. x = Fin r)"
  by (cases x) (auto simp: gval_prints_def)

lemma add_port_fold:
  "distinct l \<Longrightarrow> distinct (foldl add_port l ps) \<and> set (foldl add_port l ps) = set l \<union> port_entry ` set ps"
  by (induction ps arbitrary: l) (auto simp: add_port_def)

lemma port_list_set:
  "sorted (port_list ps)" "distinct (port_list ps)" "set (port_list ps) = port_entry ` set ps"
  using add_port_fold [of "[]" ps] by (auto simp: port_list_def)

text \<open>The states partition the containers.\<close>

lemma count_states_sum:
  assumes "distinct ss"
  shows "sum_list (map (count_state cs) ss) = length (filter (\<lambda>c. rc_State c \<in> set ss) cs)"
  using assms
proof (induction ss)
  case (Cons s ss)
  have "length (filter (\<lambda>c. rc_State c \<in> set (s # ss)) cs) =
      length (filter (\<lambda>c. rc_State c = s) cs) + length (filter (\<lambda>c. rc_State c \<in> set ss) cs)"
    using Cons.prems by (induction cs) auto
  with Cons show ?case by (simp add: count_state_def)
qed simp

lemma wrap64_abs: "\<bar>wrap64 i\<bar> \<le> 2 ^ 64"
  using wrap64_range [of i] by auto

text \<open>The percentages are finite for all counters, reset and wrapped ones included.\<close>

lemma calcCPUPct_finite:
  assumes "\<bar>online_cpus (st_CPUStats s)\<bar> \<le> 2 ^ 64"
  shows "\<exists>v. calcCPUPct s = Fin v \<and> \<bar>v\<bar> \<le> 2 ^ 300"
proof -
  let ?c = "f64_of_int (wrap64 (cs_TotalUsage (st_CPUStats s) - cs_TotalUsage (st_PreCPUStats s)))"
  let ?y = "f64_of_int (wrap64 (cs_SystemUsage (st_CPUStats s) - cs_SystemUsage (st_PreCPUStats s)))"
  show ?thesis
  proof (cases "f64_le ?y (Fin 0) \<or> f64_le ?c (Fin 0)")
    case True
    then show ?thesis by (simp add: calcCPUPct_def Let_def)
  next
    case False
    obtain c where c: "?c = Fin c" "1 / 2 \<le> c" "c \<le> 2 ^ 66"
      using False f64_of_int_pos [OF wrap64_abs] by blast
    obtain y where y: "?y = Fin y" "1 / 2 \<le> y" "y \<le> 2 ^ 66"
      using False f64_of_int_pos [OF wrap64_abs] by blast
    obtain n where n: "f64_of_int (online_cpus (st_CPUStats s)) = Fin n" "\<bar>n\<bar> \<le> 2 ^ 66"
      using f64_of_int_finite [OF assms] by blast
    have "\<bar>c / y\<bar> \<le> 2 * 2 ^ 66" using c y by (intro abs_div_half) auto
    then obtain q where q: "f64_div (Fin c) (Fin y) = Fin q" "\<bar>q\<bar> \<le> 2 ^ 69"
      using f64_div_finite [of y c] y(2) by fastforce
    have "\<bar>q * n\<bar> \<le> 2 ^ 69 * 2 ^ 66" unfolding abs_mult using q n by (intro mult_mono) auto
    then obtain m where m: "f64_mul (Fin q) (Fin n) = Fin m" "\<bar>m\<bar> \<le> 2 ^ 140"
      using f64_mul_finite [of q n] by fastforce
    have "\<bar>m * 100\<bar> \<le> 2 ^ 150" using m(2) by (simp add: abs_mult)
    then obtain v where "f64_mul (Fin m) (Fin 100) = Fin v" "\<bar>v\<bar> \<le> 2 ^ 300"
      using f64_mul_finite [of m 100] by fastforce
    with False c y n q m show ?thesis by (simp add: calcCPUPct_def Let_def)
  qed
qed

lemma mem_ratio_finite:
  assumes "\<bar>st_MemUsage s\<bar> \<le> 2 ^ 64" "\<bar>st_MemLimit s\<bar> \<le> 2 ^ 64"
  shows "\<exists>v. mem_ratio s = Fin v"
proof (cases "st_MemLimit s > 0")
  case True
  obtain u where u: "f64_of_int (st_MemUsage s) = Fin u" "\<bar>u\<bar> \<le> 2 ^ 66"
    using f64_of_int_finite [OF assms(1)] by blast
  obtain l where l: "f64_of_int (st_MemLimit s) = Fin l" "\<bar>l - of_int (st_MemLimit s)\<bar> \<le> \<bar>of_int (st_MemLimit s)\<bar> / 2"
    using f64_of_int_near [OF assms(2)] by blast
  have "1 \<le> rat_of_int (st_MemLimit s)" using True by simp
  then have l2: "1 / 2 \<le> l" using l(2) by linarith
  have "\<bar>u * 100\<bar> \<le> 2 ^ 100" using u(2) by (simp add: abs_mult)
  then obtain m where m: "f64_mul (Fin u) (Fin 100) = Fin m" "\<bar>m\<bar> \<le> 2 ^ 102"
    using f64_mul_finite [of u 100] by fastforce
  have "\<bar>m / l\<bar> \<le> 2 * 2 ^ 102" using m l2 by (intro abs_div_half) auto
  then obtain q where q: "f64_div (Fin m) (Fin l) = Fin q" "\<bar>q\<bar> \<le> 2 ^ 900"
    using f64_div_finite [of l m] l2 by fastforce
  with True u l m roundTo_finite [OF q(2), of 2] show ?thesis by (simp add: mem_ratio_def)
qed (simp add: mem_ratio_def)

text \<open>A property of a struct that every field decoder keeps is kept by the struct decoder.\<close>

lemma dec_obj_invariant:
  assumes "P old" "\<And>n j v. P v \<Longrightarrow> P (fst (member n j v))"
  shows "P (fst (dec_obj names member j old))"
proof (cases j)
  case (JObj ms)
  let ?step = "\<lambda>(v, ok) m.
    case json_field names (fst m) of
      None \<Rightarrow> (v, ok)
    | Some n \<Rightarrow> (case member n (snd m) v of (v', ok') \<Rightarrow> (v', ok \<and> ok'))"
  have "P (fst (?step s m))" if "P (fst s)" for s m
    using that assms(2) [of "fst s"] by (auto split: option.splits prod.splits) (metis fst_conv)
  then have "P (fst (foldl ?step (old, True) ms))"
    using assms(1) foldl_invariant [of "\<lambda>s. P (fst s)" "(old, True)" ms ?step] by simp
  with JObj show ?thesis by (simp add: dec_obj_def)
qed (simp_all add: dec_obj_def assms(1))

lemma fst_dec_field: "fst (dec_field get put d j v) = put (fst (d j (get v))) v"
  by (simp add: dec_field_def split: prod.splits)

definition int64 :: "int \<Rightarrow> bool" where "int64 i = (\<bar>i\<bar> \<le> 2 ^ 63)"

lemma dec_int_int64: "int64 old \<Longrightarrow> int64 (fst (dec_int j old))"
  by (auto simp: dec_int_def int64_def min_int64_def max_int64_def split: json.splits)

definition cpu_ok :: "cpuStats \<Rightarrow> bool" where
  "cpu_ok c = int64 (cs_OnlineCPUs c)"

definition stats_ok :: "dockerStatsResponse \<Rightarrow> bool" where
  "stats_ok s = (cpu_ok (st_CPUStats s) \<and> int64 (st_MemUsage s) \<and> int64 (st_MemLimit s))"

lemma dec_cpu_usage_ok: "cpu_ok c \<Longrightarrow> cpu_ok (fst (dec_cpu_usage j c))"
  unfolding dec_cpu_usage_def
  by (rule dec_obj_invariant) (auto simp: fst_dec_field cpu_ok_def)

lemma dec_cpu_ok: "cpu_ok c \<Longrightarrow> cpu_ok (fst (dec_cpu j c))"
  unfolding dec_cpu_def
  by (rule dec_obj_invariant)
    (simp_all add: fst_dec_field dec_cpu_usage_ok, simp_all add: cpu_ok_def dec_int_int64)

lemma dec_memory_ok: "stats_ok s \<Longrightarrow> stats_ok (fst (dec_memory j s))"
  unfolding dec_memory_def
proof (rule dec_obj_invariant, assumption)
  fix n j v
  assume v: "stats_ok v"
  have "stats_ok (fst (dec_obj [''cache'', ''inactive_file'']
      (\<lambda>m. if m = ''cache'' then dec_field st_MemCache (\<lambda>x v. v\<lparr>st_MemCache := x\<rparr>) dec_int
           else dec_field st_MemInactiveFile (\<lambda>x v. v\<lparr>st_MemInactiveFile := x\<rparr>) dec_int) j v))"
    using v by (rule dec_obj_invariant) (simp_all add: fst_dec_field, simp_all add: stats_ok_def)
  with v show "stats_ok (fst ((if n = ''usage'' then dec_field st_MemUsage (\<lambda>x v. v\<lparr>st_MemUsage := x\<rparr>) dec_int
            else if n = ''limit'' then dec_field st_MemLimit (\<lambda>x v. v\<lparr>st_MemLimit := x\<rparr>) dec_int
            else dec_obj [''cache'', ''inactive_file'']
              (\<lambda>m. if m = ''cache'' then dec_field st_MemCache (\<lambda>x v. v\<lparr>st_MemCache := x\<rparr>) dec_int
                   else dec_field st_MemInactiveFile (\<lambda>x v. v\<lparr>st_MemInactiveFile := x\<rparr>) dec_int)) j v))"
    by (simp add: fst_dec_field) (simp add: stats_ok_def dec_int_int64)
qed

lemma dec_stats_ok: "stats_ok s \<Longrightarrow> stats_ok (fst (dec_stats j s))"
  unfolding dec_stats_def
  by (rule dec_obj_invariant)
    (simp_all add: fst_dec_field dec_memory_ok, simp_all add: stats_ok_def dec_cpu_ok)

lemma dockerGet_fst:
  "dockerGet h socket path d zero = Inr v \<Longrightarrow> \<exists>j. v = fst (d j zero)"
  unfolding dockerGet_def result_bind_Inr_iff case_prod_beta
  by (auto simp: result_bind_Inr_iff split: http_reply.splits if_splits)

lemma stats_row_prints: "gval_prints (stats_val (stats_row h socket c))"
proof (cases "dockerGet h socket (container_path (rc_ID c) ''/stats?stream=false'') dec_stats zero_stats")
  case (Inl e)
  then show ?thesis by (simp add: stats_row_def stats_val_def)
next
  case (Inr s)
  have "stats_ok zero_stats" by (simp add: stats_ok_def cpu_ok_def int64_def zero_stats_def zero_cpu_def)
  then have ok: "stats_ok s" using dec_stats_ok dockerGet_fst [OF Inr] by auto
  have "\<bar>online_cpus (st_CPUStats s)\<bar> \<le> 2 ^ 64"
    using ok wrap64_abs [of "int (length (cs_PercpuUsage (st_CPUStats s)))"]
    by (auto simp: online_cpus_def stats_ok_def cpu_ok_def int64_def Let_def)
  from calcCPUPct_finite [OF this] obtain v where v: "calcCPUPct s = Fin v" "\<bar>v\<bar> \<le> 2 ^ 300" by blast
  have "\<bar>v\<bar> \<le> 2 ^ 900" using v(2) by simp
  from roundTo_finite [OF this, of 2] obtain a where a: "roundTo (Fin v) 2 = Fin a" by auto
  obtain b where b: "mem_ratio s = Fin b"
    using mem_ratio_finite [of s] ok by (auto simp: stats_ok_def int64_def)
  show ?thesis by (simp add: stats_row_def stats_val_def Inr Let_def v(1) a b)
qed

section \<open>Properties\<close>

text \<open>Whatever \<open>dockerd\<close> answers, the resource report can be printed: no counter, reset,
  missing, wrapped or negative, makes a percentage that is not a finite number.\<close>

lemma docker_stats_prints:
  assumes "dockerStats h args = Inr v"
  shows "to_json v \<noteq> None"
  using assms stats_row_prints unfolding dockerStats_def gval_prints_def [symmetric]
  by (auto simp: result_bind_Inr_iff Let_def)

text \<open>The container report is consistent: one row per container in \<open>dockerd\<close>'s order, the
  buckets count the containers in their state and together all those whose state is known, and
  each row lists its ports once, sorted.\<close>

lemma container_report_consistent:
  "(\<forall>s\<in>set state_buckets.
      map_of (container_report h socket cs) s = Some (VInt (int (count_state cs s)))) \<and>
   sum_list (map (count_state cs) state_buckets) =
     length (filter (\<lambda>c. rc_State c \<in> set state_buckets) cs) \<and>
   map_of (container_report h socket cs) ''list'' =
     Some (VList (map (\<lambda>c. row_val (container_row h socket c)) cs)) \<and>
   (\<forall>c\<in>set cs. \<exists>ps. cr_Ports (container_row h socket c) = join_with '', '' ps \<and>
      sorted ps \<and> distinct ps \<and> set ps = port_entry ` set (rc_Ports c))"
proof -
  have "distinct state_buckets" by (simp add: state_buckets_def)
  then show ?thesis
    using count_states_sum [of state_buckets cs] port_list_set
    by (intro conjI) (auto simp: container_report_def state_buckets_def container_row_def)
qed

section \<open>A concrete Docker host\<close>

definition demo_stats_doc :: json where
  "demo_stats_doc = JObj
     [(''cpu_stats'', JObj [(''cpu_usage'', JObj [(''total_usage'', JInt 300)]),
                            (''system_cpu_usage'', JInt 2000), (''online_cpus'', JInt 2)]),
      (''precpu_stats'', JObj [(''cpu_usage'', JObj [(''total_usage'', JInt 100)]),
                               (''system_cpu_usage'', JInt 1000)]),
      (''memory_stats'', JObj [(''usage'', JInt 1048576), (''limit'', JInt 4194304)])]"

definition docker_host :: host where
  "docker_host = (demo_host 0 (\<lambda>_. Inl NotExist))
     \<lparr>ho_docker := (\<lambda>_ path. Response 200 path True),
      ho_json := (\<lambda>path _.
        if path = ''/containers/json'' \<or> path = ''/containers/json?all=true''
        then Inr (JArr [JObj [(''Id'', JStr ''a1''), (''Names'', JArr [JStr ''/web'']),
                              (''State'', JStr ''running''),
                              (''Ports'', JArr [JObj [(''PrivatePort'', JInt 80), (''PublicPort'', JInt 8080),
                                                      (''Type'', JStr ''tcp'')]])]])
        else Inr demo_stats_doc)\<rparr>"

definition demo_container :: rawContainer where
  "demo_container = zero_container\<lparr>rc_ID := ''a1'', rc_Names := [''/web''], rc_State := ''running''\<rparr>"

lemma docker_host_get:
  "dockerGet docker_host dockerDefaultSocket ''/containers/json''
     (dec_arr zero_container (dec_container (take 4 container_fields))) [] = Inr [demo_container]"
proof -
  have n: "json_field (take 4 container_fields) ''Ports'' = None" by code_simp
  have m: "take 4 container_fields = [''Id'', ''Names'', ''Image'', ''State'']"
    by (simp add: container_fields_def)
  show ?thesis
    using n unfolding m
    by (simp add: dockerGet_def docker_host_def demo_host_def dec_arr_def
        dec_container_def dec_obj_def dec_field_def dec_str_def demo_container_def
        zero_container_def)
qed

lemma docker_host_list:
  "dockerStats docker_host [] = Inr (VList [stats_val (stats_row docker_host dockerDefaultSocket demo_container)])"
proof -
  have "argString [] ''socket'' dockerDefaultSocket = dockerDefaultSocket" by (simp add: argString_def)
  then show ?thesis by (simp only: dockerStats_def Let_def docker_host_get) simp
qed

lemma docker_stats_prints_witness:
  "to_json (VList [stats_val (stats_row docker_host dockerDefaultSocket demo_container)]) \<noteq> None"
  by (rule docker_stats_prints [OF docker_host_list])

lemma container_report_consistent_witness:
  "map_of (container_report docker_host dockerDefaultSocket [demo_container]) ''running'' = Some (VInt 1)"
  using container_report_consistent [of docker_host dockerDefaultSocket "[demo_container]"]
  by (simp add: state_buckets_def count_state_def demo_container_def)

end
