(* ===== verification/Procfs_Primitives.thy ===== *)
theory Procfs_Primitives
  imports Docker_Primitives
begin

text \<open>
  The collectors that read \<open>/proc\<close> (collectors/primitives_procfs.go, primitives_procfs_io.go): load,
  uptime, memory, swap, the CPU percentage since the previous call, and the disk and network
  rates between two samples.
\<close>

section \<open>Lenient numbers\<close>

text \<open>\<open>n, _ := strconv.ParseInt(s, 10, 64)\<close>: without a number the value is 0, out of range it is
  the nearest bound. The first character that is not a digit or overflows decides.\<close>

datatype uint_scan = NoNumber | TooBig | Number nat

fun scan_uint :: "nat \<Rightarrow> string \<Rightarrow> uint_scan" where
  "scan_uint acc [] = Number acc"
| "scan_uint acc (c # cs) =
     (if \<not> is_digit c then NoNumber
      else if 10 * acc + (of_char c - 48) \<ge> 2 ^ 64 then TooBig
      else scan_uint (10 * acc + (of_char c - 48)) cs)"

definition parse_int_lenient :: "string \<Rightarrow> int" where
  "parse_int_lenient s =
     (let neg = (s \<noteq> [] \<and> hd s = CHR ''-'');
          u = (if s \<noteq> [] \<and> (hd s = CHR ''-'' \<or> hd s = CHR ''+'') then tl s else s)
      in if u = [] then 0
         else (case scan_uint 0 u of
                 NoNumber \<Rightarrow> 0
               | TooBig \<Rightarrow> if neg then min_int64 else max_int64
               | Number n \<Rightarrow>
                   if neg then (if n > 2 ^ 63 then min_int64 else - int n)
                   else (if n \<ge> 2 ^ 63 then max_int64 else int n)))"

section \<open>Load, uptime, memory\<close>

definition read_proc :: "host \<Rightarrow> string \<Rightarrow> string + string" where
  "read_proc h path = (case fs_file (ho_fs h) path of Inl e \<Rightarrow> Inl (io_text e) | Inr d \<Rightarrow> Inr d)"

definition parse_float_val :: "host \<Rightarrow> string \<Rightarrow> string + f64" where
  "parse_float_val h s = (case ho_float h s of None \<Rightarrow> Inl ''parse float'' | Some x \<Rightarrow> Inr x)"

definition procfsLoadavg :: "host \<Rightarrow> gargs \<Rightarrow> string + gval" where
  "procfsLoadavg h args =
     result_bind (read_proc h ''/proc/loadavg'') (\<lambda>data.
       let parts = str_fields data; window = str_arg args ''window'' in
       if length parts < 3 then Inl ''malformed /proc/loadavg''
       else if window = [] \<or> window = ''1m''
         then result_bind (parse_float_val h (parts ! 0)) (\<lambda>x. Inr (VFloat x))
       else if window = ''5m'' then result_bind (parse_float_val h (parts ! 1)) (\<lambda>x. Inr (VFloat x))
       else if window = ''15m'' then result_bind (parse_float_val h (parts ! 2)) (\<lambda>x. Inr (VFloat x))
       else Inl ''unknown window'')"

definition procfsUptime :: "host \<Rightarrow> gargs \<Rightarrow> string + gval" where
  "procfsUptime h args =
     result_bind (read_proc h ''/proc/uptime'') (\<lambda>data.
       case str_fields data of
         [] \<Rightarrow> Inl ''malformed /proc/uptime''
       | p # _ \<Rightarrow> result_bind (parse_float_val h p) (\<lambda>x. Inr (VInt64 (f64_to_int (ho_arch h) x))))"

text \<open>The fields of \<open>/proc/meminfo\<close>; a missing one reads as 0.\<close>

definition meminfo_entry :: "(string, int) gomap \<Rightarrow> string \<Rightarrow> (string, int) gomap" where
  "meminfo_entry m line =
     (case cut_at CHR '':'' line of
        None \<Rightarrow> m
      | Some (name, rest) \<Rightarrow>
          (case parse_int (trim_space (trim_suffix (trim_space rest) '' kB'')) of
             None \<Rightarrow> m | Some n \<Rightarrow> AList.update name n m))"

definition readMeminfoKB :: "host \<Rightarrow> string + (string, int) gomap" where
  "readMeminfoKB h =
     result_bind (read_proc h ''/proc/meminfo'') (\<lambda>data.
       case scan_lines data of
         None \<Rightarrow> Inl ''token too long''
       | Some ls \<Rightarrow> Inr (foldl meminfo_entry [] ls))"

definition kb :: "(string, int) gomap \<Rightarrow> string \<Rightarrow> int" where
  "kb m k = (case map_of m k of None \<Rightarrow> 0 | Some n \<Rightarrow> n)"

definition used_pct :: "int \<Rightarrow> int \<Rightarrow> f64" where
  "used_pct used tot =
     (if tot = 0 then Fin 0
      else roundTo (f64_div (f64_mul (f64_of_int used) (Fin 100)) (f64_of_int tot)) 1)"

definition procfsMemory :: "host \<Rightarrow> gargs \<Rightarrow> string + gval" where
  "procfsMemory h args =
     result_bind (readMeminfoKB h) (\<lambda>m.
       let field = str_arg args ''field''; tot = kb m ''MemTotal''; avail = kb m ''MemAvailable'';
           used = wrap64 (tot - avail) in
       if field = [] \<or> field = ''used_pct'' then Inr (VFloat (used_pct used tot))
       else if field = ''total_mb'' then Inr (VInt64 (go_div tot 1024))
       else if field = ''used_mb'' then Inr (VInt64 (go_div used 1024))
       else if field = ''free_mb'' then Inr (VInt64 (go_div (kb m ''MemFree'') 1024))
       else if field = ''available_mb'' then Inr (VInt64 (go_div avail 1024))
       else Inl ''unknown field'')"

definition procfsSwap :: "host \<Rightarrow> gargs \<Rightarrow> string + gval" where
  "procfsSwap h args =
     result_bind (readMeminfoKB h) (\<lambda>m.
       let field = str_arg args ''field''; tot = kb m ''SwapTotal'';
           used = wrap64 (tot - kb m ''SwapFree'') in
       if field = [] \<or> field = ''used_pct'' then Inr (VFloat (used_pct used tot))
       else if field = ''total_mb'' then Inr (VInt64 (go_div tot 1024))
       else if field = ''used_mb'' then Inr (VInt64 (go_div used 1024))
       else Inl ''unknown field'')"

definition procfsCPUCount :: "host \<Rightarrow> gargs \<Rightarrow> string + gval" where
  "procfsCPUCount h args =
     result_bind (read_proc h ''/proc/cpuinfo'') (\<lambda>data.
       case scan_lines data of
         None \<Rightarrow> Inl ''token too long''
       | Some ls \<Rightarrow> Inr (VInt (int (length (filter (\<lambda>l. has_prefix l ''processor'') ls)))))"

section \<open>CPU since the previous call\<close>

text \<open>The reader is the one of the live metrics, written out again in the collectors.\<close>

definition readProcStatCPU :: "host \<Rightarrow> string + cpuSample" where
  "readProcStatCPU h =
     (case readCPUSample (ho_fs h) of
        Inl (StatUnreadable e) \<Rightarrow> Inl (io_text e)
      | Inl NoCpuLine \<Rightarrow> Inl ''no aggregate cpu line in /proc/stat''
      | Inr s \<Rightarrow> Inr s)"

definition busy_pct :: "cpuSample \<Rightarrow> cpuSample \<Rightarrow> f64" where
  "busy_pct prev cur =
     (let dt = f64_of_int (uint (cpu_total cur - cpu_total prev));
          di = f64_of_int (uint (cpu_idle cur - cpu_idle prev))
      in if f64_le dt (Fin 0) then Fin 0
         else let pct = f64_div (f64_mul (f64_sub dt di) (Fin 100)) dt;
                  p1 = (if f64_less pct (Fin 0) then Fin 0 else pct);
                  p2 = (if f64_less (Fin 100) p1 then Fin 100 else p1)
              in roundTo p2 1)"

text \<open>The process-wide previous sample is the state.\<close>

definition procfsCPUUsedPct ::
  "host \<Rightarrow> cpuSample option \<Rightarrow> cpuSample option \<times> (string + gval)" where
  "procfsCPUUsedPct h prev =
     (case readProcStatCPU h of
        Inl e \<Rightarrow> (prev, Inl e)
      | Inr cur \<Rightarrow>
          (Some cur, Inr (VFloat (case prev of None \<Rightarrow> Fin 0 | Some p \<Rightarrow> busy_pct p cur))))"

section \<open>Two samples\<close>

definition maxSampleSec :: rat where "maxSampleSec = 5"
definition minSampleSec :: rat where "minSampleSec = 1 / 5"

definition sample_interval :: "gargs \<Rightarrow> f64" where
  "sample_interval args =
     (let i0 = argFloat args ''sample_sec'' (Fin 1);
          i1 = (if f64_less (Fin maxSampleSec) i0 then Fin maxSampleSec else i0);
          lo = f64_round minSampleSec
      in if f64_less i1 lo then lo else i1)"

definition sampleProc :: "host \<Rightarrow> string \<Rightarrow> gargs \<Rightarrow> string + (string \<times> f64)" where
  "sampleProc h path args =
     result_bind (read_proc h path) (\<lambda>d.
       if ho_cancelled h then Inl ''context done'' else Inr (d, sample_interval args))"

definition read_later :: "host \<Rightarrow> string \<Rightarrow> string + string" where
  "read_later h path =
     (case fs_file (ho_fs_later h) path of Inl e \<Rightarrow> Inl (io_text e) | Inr d \<Rightarrow> Inr d)"

text \<open>The growth of a counter: none when it went backwards.\<close>

definition growth :: "int \<Rightarrow> int \<Rightarrow> int" where
  "growth cur prev = (let d = wrap64 (cur - prev) in if d > 0 then d else 0)"

text \<open>The sum of the growth over the entries of a map that count, wrapping.\<close>

definition total_growth :: "('k \<Rightarrow> bool) \<Rightarrow> ('c \<Rightarrow> int) \<Rightarrow> ('k, 'c) gomap \<Rightarrow> ('k, 'c) gomap \<Rightarrow> int" where
  "total_growth counts get prev cur =
     foldl (\<lambda>a (k, c).
       if \<not> counts k then a
       else (case map_of prev k of None \<Rightarrow> a | Some p \<Rightarrow> wrap64 (a + growth (get c) (get p)))) 0 cur"

definition per_second :: "int \<Rightarrow> f64 \<Rightarrow> f64" where
  "per_second n interval = roundTo (f64_div (f64_div (f64_of_int n) interval) (Fin 1000000)) 2"

definition positive_interval :: "f64 \<Rightarrow> f64" where
  "positive_interval i = (if f64_le i (Fin 0) then Fin 1 else i)"

section \<open>Disks\<close>

record diskCounters =
  dc_sectorsRead :: int
  dc_sectorsWritten :: int
  dc_ios :: int

definition disk_line :: "(string, diskCounters) gomap \<Rightarrow> string \<Rightarrow> (string, diskCounters) gomap" where
  "disk_line m line =
     (let f = str_fields line in
      if length f < 10 then m
      else AList.update (f ! 2)
             \<lparr>dc_sectorsRead = parse_int_lenient (f ! 5), dc_sectorsWritten = parse_int_lenient (f ! 9),
              dc_ios = wrap64 (parse_int_lenient (f ! 3) + parse_int_lenient (f ! 7))\<rparr> m)"

definition parseDiskstats :: "string \<Rightarrow> (string, diskCounters) gomap" where
  "parseDiskstats data = foldl disk_line [] (split_on CHR 0x0A data)"

definition isVirtualDisk :: "string \<Rightarrow> bool" where
  "isVirtualDisk dev =
     (\<exists>p\<in>set [''loop'', ''ram'', ''sr'', ''dm-'', ''fd'', ''md'', ''zram'', ''dm'']. has_prefix dev p)"

definition isPartitionOf :: "string \<Rightarrow> (string, diskCounters) gomap \<Rightarrow> bool" where
  "isPartitionOf dev m = (\<exists>name\<in>set (gomap_keys m). name \<noteq> dev \<and> has_prefix dev name)"

definition disk_counts :: "(string, diskCounters) gomap \<Rightarrow> string \<Rightarrow> bool" where
  "disk_counts cur dev = (\<not> isVirtualDisk dev \<and> \<not> isPartitionOf dev cur)"

definition diskRates ::
  "goarch \<Rightarrow> (string, diskCounters) gomap \<Rightarrow> (string, diskCounters) gomap \<Rightarrow> f64 \<Rightarrow> gargs" where
  "diskRates arch prev cur interval =
     (let grown = (\<lambda>get. total_growth (disk_counts cur) get prev cur); i = positive_interval interval
      in [(''read_mbps'', VFloat (per_second (wrap64 (grown dc_sectorsRead * 512)) i)),
          (''write_mbps'', VFloat (per_second (wrap64 (grown dc_sectorsWritten * 512)) i)),
          (''iops'', VInt64 (f64_to_int arch (roundTo (f64_div (f64_of_int (grown dc_ios)) i) 0)))])"

definition procfsDiskstats :: "host \<Rightarrow> gargs \<Rightarrow> string + gval" where
  "procfsDiskstats h args =
     result_bind (sampleProc h ''/proc/diskstats'' args) (\<lambda>(prev, interval).
       result_bind (read_later h ''/proc/diskstats'') (\<lambda>cur.
         Inr (VMap (diskRates (ho_arch h) (parseDiskstats prev) (parseDiskstats cur) interval))))"

section \<open>Network\<close>

record netCounters =
  nc_rxBytes :: int
  nc_txBytes :: int
  nc_rxErrs :: int
  nc_txErrs :: int

definition net_line :: "(string, netCounters) gomap \<Rightarrow> string \<Rightarrow> (string, netCounters) gomap" where
  "net_line m line =
     (case cut_at CHR '':'' line of
        None \<Rightarrow> m
      | Some (name, rest) \<Rightarrow>
          let iface = trim_space name; f = str_fields rest in
          if iface = [] \<or> length f < 16 then m
          else AList.update iface
                 \<lparr>nc_rxBytes = parse_int_lenient (f ! 0), nc_txBytes = parse_int_lenient (f ! 8),
                  nc_rxErrs = parse_int_lenient (f ! 2), nc_txErrs = parse_int_lenient (f ! 10)\<rparr> m)"

definition parseNetdev :: "string \<Rightarrow> (string, netCounters) gomap" where
  "parseNetdev data = foldl net_line [] (split_on CHR 0x0A data)"

definition isVirtualIface :: "string \<Rightarrow> bool" where
  "isVirtualIface iface =
     (iface = ''lo'' \<or>
      (\<exists>p\<in>set [''veth'', ''docker'', ''br-'', ''virbr'', ''cni'', ''flannel'', ''cali'', ''tap'', ''tun''].
         has_prefix iface p))"

definition iface_counts :: "string \<Rightarrow> string \<Rightarrow> bool" where
  "iface_counts onlyIface iface =
     (if onlyIface \<noteq> [] then iface = onlyIface else \<not> isVirtualIface iface)"

definition netRates ::
  "(string, netCounters) gomap \<Rightarrow> (string, netCounters) gomap \<Rightarrow> f64 \<Rightarrow> string \<Rightarrow> gargs" where
  "netRates prev cur interval onlyIface =
     (let grown = (\<lambda>get. total_growth (iface_counts onlyIface) get prev cur); i = positive_interval interval
      in [(''rx_mbps'', VFloat (per_second (grown nc_rxBytes) i)),
          (''tx_mbps'', VFloat (per_second (grown nc_txBytes) i)),
          (''rx_errors'', VInt64 (grown nc_rxErrs)), (''tx_errors'', VInt64 (grown nc_txErrs))])"

definition procfsNetdev :: "host \<Rightarrow> gargs \<Rightarrow> string + gval" where
  "procfsNetdev h args =
     result_bind (sampleProc h ''/proc/net/dev'' args) (\<lambda>(prev, interval).
       result_bind (read_later h ''/proc/net/dev'') (\<lambda>cur.
         Inr (VMap (netRates (parseNetdev prev) (parseNetdev cur) interval (str_arg args ''iface'')))))"

section \<open>Sums that wrap\<close>

lemma wrap64_add: "wrap64 (wrap64 a + b) = wrap64 (a + b)"
proof -
  have "wrap64 a = a - 2 ^ 64 * ((a + 2 ^ 63) div 2 ^ 64)"
    unfolding wrap64_def using minus_mult_div_eq_mod [of "a + 2 ^ 63" "2 ^ 64"] by linarith
  then have e: "wrap64 a + b + 2 ^ 63 = a + b + 2 ^ 63 - 2 ^ 64 * ((a + 2 ^ 63) div 2 ^ 64)" by simp
  have "(wrap64 a + b + 2 ^ 63) mod 2 ^ 64 = (a + b + 2 ^ 63) mod 2 ^ 64"
    unfolding e
    using mod_mult_self2 [of "a + b + 2 ^ 63 - 2 ^ 64 * ((a + 2 ^ 63) div 2 ^ 64)" "2 ^ 64"
        "(a + 2 ^ 63) div 2 ^ 64"] by simp
  then show ?thesis by (simp add: wrap64_def)
qed

definition contribution ::
  "('k \<Rightarrow> bool) \<Rightarrow> ('c \<Rightarrow> int) \<Rightarrow> ('k, 'c) gomap \<Rightarrow> 'k \<times> 'c \<Rightarrow> int" where
  "contribution counts get prev e =
     (if \<not> counts (fst e) then 0
      else (case map_of prev (fst e) of None \<Rightarrow> 0 | Some p \<Rightarrow> growth (get (snd e)) (get p)))"

lemma total_growth_sum:
  "total_growth counts get prev cur = wrap64 (sum_list (map (contribution counts get prev) cur))"
proof -
  have "foldl (\<lambda>a (k, c).
       if \<not> counts k then a
       else (case map_of prev k of None \<Rightarrow> a | Some p \<Rightarrow> wrap64 (a + growth (get c) (get p)))) (wrap64 a0) cur
     = wrap64 (a0 + sum_list (map (contribution counts get prev) cur))" for a0
  proof (induction cur arbitrary: a0)
    case (Cons e cur)
    show ?case
    proof (cases "\<not> counts (fst e) \<or> map_of prev (fst e) = None")
      case True
      then show ?thesis
        using Cons [of a0] by (auto simp: contribution_def case_prod_beta split: option.splits)
    next
      case False
      then obtain p where p: "counts (fst e)" "map_of prev (fst e) = Some p" by auto
      then show ?thesis
        using Cons [of "a0 + growth (get (snd e)) (get p)"]
        by (simp add: contribution_def case_prod_beta wrap64_add add.assoc)
    qed
  qed simp
  from this [of 0] show ?thesis by (simp add: total_growth_def wrap64_def)
qed

lemma total_growth_perm:
  assumes "mset cur = mset cur'" "map_of prev = map_of prev'" "\<And>k. counts k = counts' k"
  shows "total_growth counts get prev cur = total_growth counts' get prev' cur'"
proof -
  have "contribution counts get prev = contribution counts' get prev'"
    using assms(2,3) by (simp add: contribution_def fun_eq_iff)
  moreover have "sum_list (map f cur) = sum_list (map f cur')" for f :: "'a \<times> 'b \<Rightarrow> int"
    using assms(1) by (metis mset_map sum_mset_sum_list)
  ultimately show ?thesis by (simp add: total_growth_sum)
qed

lemma total_growth_range: "\<bar>total_growth counts get prev cur\<bar> \<le> 2 ^ 64"
  unfolding total_growth_sum by (rule wrap64_abs)

lemma total_growth_skip:
  assumes "\<not> counts k"
  shows "total_growth counts get prev (AList.delete k cur) = total_growth counts get prev cur"
proof -
  have "sum_list (map (contribution counts get prev) (AList.delete k cur)) =
      sum_list (map (contribution counts get prev) cur)"
    using assms by (induction cur) (auto simp: contribution_def AList.delete_eq)
  then show ?thesis by (simp add: total_growth_sum)
qed

section \<open>Finite rates\<close>

lemma sample_interval_range:
  assumes "argFloat args ''sample_sec'' (Fin 1) \<noteq> NaN"
  shows "\<exists>v. sample_interval args = Fin v \<and> 1 / 10 \<le> v \<and> v \<le> 5"
proof -
  have "\<bar>1 / 5 :: rat\<bar> \<le> 2 ^ 80" by simp
  from f64_round_near [OF this] obtain lo where lo: "f64_round minSampleSec = Fin lo"
    "\<bar>lo - 1 / 5\<bar> \<le> max \<bar>1 / 5\<bar> tiny * pow2 (- 53)" unfolding minSampleSec_def by blast
  have "max \<bar>1 / 5\<bar> tiny * pow2 (- 53) \<le> 1 * (1 / 10)"
    using tiny_le_1 by (intro mult_mono) (auto simp: pow2_def)
  then have "\<bar>lo - 1 / 5\<bar> \<le> 1 / 10" using lo(2) by linarith
  then have "lo - 1 / 5 \<le> 1 / 10" "- (lo - 1 / 5) \<le> 1 / 10"
    by (rule abs_le_D1, rule abs_le_D2)
  then have b: "1 / 10 \<le> lo" "lo \<le> 3 / 10" by linarith+
  then show ?thesis
    using assms lo(1)
    by (cases "argFloat args ''sample_sec'' (Fin 1)")
      (auto simp: sample_interval_def Let_def maxSampleSec_def not_less)
qed

lemma sample_interval_NaN:
  "argFloat args ''sample_sec'' (Fin 1) = NaN \<Longrightarrow> sample_interval args = NaN"
  by (simp add: sample_interval_def)

lemma f64_small_int: "\<bar>i\<bar> \<le> 2 ^ 64 \<Longrightarrow> 1 / 10 \<le> v \<Longrightarrow>
  \<exists>q. f64_div (f64_of_int i) (Fin v) = Fin q \<and> \<bar>q\<bar> \<le> 2 ^ 80"
proof -
  assume i: "\<bar>i\<bar> \<le> 2 ^ 64" and v: "1 / 10 \<le> v"
  obtain a where a: "f64_of_int i = Fin a" "\<bar>a\<bar> \<le> 2 ^ 66" using f64_of_int_finite [OF i] by blast
  have "\<bar>a / v\<bar> = \<bar>a / 5 / (v * 5 / 25)\<bar>" by simp
  have "\<bar>(a * 5) / (v * 5)\<bar> \<le> 2 * (2 ^ 66 * 5)"
    using v a(2) by (intro abs_div_half) (auto simp: abs_mult)
  then have "\<bar>a / v\<bar> \<le> 2 ^ 70" by simp
  moreover from this have "\<bar>a / v\<bar> \<le> 2 ^ 1000" by (rule order_trans) simp
  ultimately show ?thesis
    using f64_div_finite [of v a] v a(1) by fastforce
qed

lemma per_second_finite:
  assumes "\<bar>i\<bar> \<le> 2 ^ 64" "1 / 10 \<le> v"
  shows "\<exists>q. per_second i (Fin v) = Fin q"
proof -
  obtain q where q: "f64_div (f64_of_int i) (Fin v) = Fin q" "\<bar>q\<bar> \<le> 2 ^ 80"
    using f64_small_int [OF assms] by blast
  have "\<bar>q / 1000000\<bar> \<le> 2 ^ 80" using q(2) by (simp add: abs_divide)
  moreover from this have "\<bar>q / 1000000\<bar> \<le> 2 ^ 1000" by (rule order_trans) simp
  ultimately obtain r where r: "f64_div (Fin q) (Fin 1000000) = Fin r" "\<bar>r\<bar> \<le> 2 * 2 ^ 80 + 1"
    using f64_div_finite [of 1000000 q] by fastforce
  have "\<bar>r\<bar> \<le> 2 ^ 900" using r(2) by (rule order_trans) simp
  from roundTo_finite [OF this, of 2] q r show ?thesis by (simp add: per_second_def)
qed

lemma per_second_NaN: "per_second i NaN = NaN"
  by (cases "f64_of_int i") (simp_all add: per_second_def roundTo_def)

lemma positive_interval_id: "1 / 10 \<le> v \<Longrightarrow> positive_interval (Fin v) = Fin v"
  by (simp add: positive_interval_def f64_le_def)

lemma positive_interval_NaN [simp]: "positive_interval NaN = NaN"
  by (simp add: positive_interval_def f64_le_def)

lemma not_prints_NaN [simp]: "\<not> gval_prints (VFloat NaN)"
  by (simp add: gval_prints_VFloat)

lemma diskRates_prints:
  "1 / 10 \<le> v \<Longrightarrow> gval_prints (VMap (diskRates arch prev cur (Fin v)))"
  "\<not> gval_prints (VMap (diskRates arch prev cur NaN))"
  using per_second_finite [OF wrap64_abs, of v]
  by (auto simp: diskRates_def Let_def positive_interval_id per_second_NaN gval_prints_VFloat
      simp del: gval_prints_simps(7))

lemma netRates_prints:
  "1 / 10 \<le> v \<Longrightarrow> gval_prints (VMap (netRates prev cur (Fin v) only))"
  "\<not> gval_prints (VMap (netRates prev cur NaN only))"
  using per_second_finite [OF total_growth_range, of v]
  by (auto simp: netRates_def Let_def positive_interval_id per_second_NaN gval_prints_VFloat
      simp del: gval_prints_simps(7))

section \<open>Properties\<close>

lemma isPartitionOf_set: "set (gomap_keys m) = set (gomap_keys m') \<Longrightarrow> isPartitionOf d m = isPartitionOf d m'"
  by (simp add: isPartitionOf_def)

text \<open>Go iterates over a map in any order, and the rates do not depend on it.\<close>

lemma rates_order_free:
  assumes "gomap_ok prev" "mset prev = mset prev'" "mset cur = mset cur'"
  shows "diskRates arch prev cur i = diskRates arch prev' cur' i"
proof -
  have "set (gomap_keys cur) = set (gomap_keys cur')"
    using mset_eq_setD [OF assms(3)] by simp
  from isPartitionOf_set [OF this] have "disk_counts cur k = disk_counts cur' k" for k
    by (simp only: disk_counts_def)
  moreover have "map_of prev = map_of prev'"
  proof -
    have "mset (gomap_keys prev) = mset (gomap_keys prev')" using assms(2) by simp
    then have "distinct (gomap_keys prev')"
      using assms(1) mset_eq_imp_distinct_iff unfolding gomap_ok_def by blast
    then show ?thesis
      using assms(1) mset_eq_setD [OF assms(2)] map_of_inject_set unfolding gomap_ok_def by blast
  qed
  ultimately have "total_growth (disk_counts cur) get prev cur = total_growth (disk_counts cur') get prev' cur'" for get
    using total_growth_perm [OF assms(3)] by blast
  then show ?thesis by (simp add: diskRates_def)
qed

lemma rates_order_free_witness:
  "diskRates Amd64 [(''sda'', \<lparr>dc_sectorsRead = 0, dc_sectorsWritten = 0, dc_ios = 0\<rparr>)]
      [(''sda'', \<lparr>dc_sectorsRead = 8, dc_sectorsWritten = 0, dc_ios = 1\<rparr>),
       (''sdb'', \<lparr>dc_sectorsRead = 0, dc_sectorsWritten = 0, dc_ios = 0\<rparr>)] (Fin 1) =
   diskRates Amd64 [(''sda'', \<lparr>dc_sectorsRead = 0, dc_sectorsWritten = 0, dc_ios = 0\<rparr>)]
      [(''sdb'', \<lparr>dc_sectorsRead = 0, dc_sectorsWritten = 0, dc_ios = 0\<rparr>),
       (''sda'', \<lparr>dc_sectorsRead = 8, dc_sectorsWritten = 0, dc_ios = 1\<rparr>)] (Fin 1)"
  by (rule rates_order_free) (simp_all add: gomap_ok_def)

text \<open>A whole disk whose name extends another disk's name, such as \<open>sdaa\<close> beside \<open>sda\<close>, is
  taken for a partition and left out: the rates are those of the host without it.\<close>

lemma whole_disk_dropped:
  assumes "name \<in> set (gomap_keys cur)" "has_prefix disk name" "disk \<noteq> name"
  shows "diskRates arch prev cur i = diskRates arch prev (AList.delete disk cur) i"
proof -
  have "set (gomap_keys (AList.delete disk cur)) = set (gomap_keys cur) - {disk}"
    by (force simp: AList.delete_eq)
  moreover have "name \<noteq> d" if "has_prefix d disk" "d \<noteq> disk" for d
    using that assms(2) by (auto simp: has_prefix_iff dest: prefix_order.antisym)
  moreover have "has_prefix d name" if "has_prefix d disk" for d
    using that assms(2) by (auto simp: has_prefix_iff intro: prefix_order.trans)
  ultimately have "isPartitionOf d (AList.delete disk cur) = isPartitionOf d cur" for d
    using assms(1,3) unfolding isPartitionOf_def by (metis Diff_iff singletonD)
  then have c: "disk_counts (AList.delete disk cur) = disk_counts cur"
    by (simp add: fun_eq_iff disk_counts_def)
  have "\<not> disk_counts cur disk"
    using assms(1-3) by (auto simp: disk_counts_def isPartitionOf_def)
  then have "total_growth (disk_counts cur) get prev (AList.delete disk cur) =
      total_growth (disk_counts cur) get prev cur" for get
    by (rule total_growth_skip)
  then show ?thesis by (simp add: diskRates_def c)
qed

lemma whole_disk_dropped_witness:
  "diskRates Amd64 [] [(''sda'', \<lparr>dc_sectorsRead = 8, dc_sectorsWritten = 0, dc_ios = 1\<rparr>),
       (''sdaa'', \<lparr>dc_sectorsRead = 9, dc_sectorsWritten = 0, dc_ios = 1\<rparr>)] (Fin 1) =
   diskRates Amd64 [] (AList.delete ''sdaa'' [(''sda'', \<lparr>dc_sectorsRead = 8, dc_sectorsWritten = 0, dc_ios = 1\<rparr>),
       (''sdaa'', \<lparr>dc_sectorsRead = 9, dc_sectorsWritten = 0, dc_ios = 1\<rparr>)]) (Fin 1)"
  by (rule whole_disk_dropped [of "''sda''"]) (simp_all add: has_prefix_def)

text \<open>The disk and network rates can be printed exactly when the configured interval is a
  number: with \<open>sample_sec: .nan\<close> they are not, whatever the counters.\<close>

lemma rates_print_iff:
  "(procfsDiskstats h args = Inr v \<longrightarrow>
      (to_json v \<noteq> None \<longleftrightarrow> argFloat args ''sample_sec'' (Fin 1) \<noteq> NaN)) \<and>
   (procfsNetdev h args = Inr v \<longrightarrow>
      (to_json v \<noteq> None \<longleftrightarrow> argFloat args ''sample_sec'' (Fin 1) \<noteq> NaN))"
  unfolding gval_prints_def [symmetric]
  using sample_interval_range [of args] sample_interval_NaN [of args]
    diskRates_prints netRates_prints
  by (cases "argFloat args ''sample_sec'' (Fin 1) = NaN")
    (fastforce simp: procfsDiskstats_def procfsNetdev_def sampleProc_def result_bind_Inr_iff
      simp del: gval_prints_simps split: if_splits)+

lemma roundTo_percent:
  assumes "0 \<le> p" "p \<le> 100"
  shows "\<exists>v. roundTo (Fin p) 1 = Fin v \<and> 0 \<le> v \<and> v \<le> 100"
proof -
  obtain m where m: "f64_round (p * 10) = Fin m" "p * 10 - 1 / 1000 \<le> m" "m \<le> p * 10 + 1 / 1000"
    using round_near [of "p * 10"] assms by auto
  have "0 \<le> m" using f64_round_nonneg [OF _ m(1)] assms(1) by simp
  moreover have "0 \<le> \<lfloor>m + 1 / 2\<rfloor>" "\<lfloor>m + 1 / 2\<rfloor> \<le> 1000"
    using \<open>0 \<le> m\<close> m(3) assms by (simp, simp add: floor_le_iff)
  ultimately show ?thesis
    using tenth_range [of "\<lfloor>m + 1 / 2\<rfloor>"] m(1)
    by (auto simp: roundTo_def f64_of_int_def f64_round_int)
qed

text \<open>The CPU percentage of the heartbeat is a number between 0 and 100, for every two
  readings, 0 at the first call, and each call leaves its reading for the next one.\<close>

lemma cpu_used_range:
  assumes "procfsCPUUsedPct h prev = (st, Inr v)"
  shows "\<exists>p. v = VFloat (Fin p) \<and> 0 \<le> p \<and> p \<le> 100 \<and> (prev = None \<longrightarrow> p = 0) \<and>
    Inr st = map_sum id Some (readProcStatCPU h)"
proof -
  obtain cur where cur: "readProcStatCPU h = Inr cur"
    using assms by (auto simp: procfsCPUUsedPct_def split: sum.splits)
  have "\<exists>v. busy_pct p cur = Fin v \<and> 0 \<le> v \<and> v \<le> 100" for p
  proof -
    let ?dt = "f64_of_int (uint (cpu_total cur - cpu_total p))"
    let ?di = "f64_of_int (uint (cpu_idle cur - cpu_idle p))"
    consider "f64_le ?dt (Fin 0)"
      | q where "f64_div (f64_mul (f64_sub ?dt ?di) (Fin 100)) ?dt = Fin q" "\<not> f64_le ?dt (Fin 0)"
      using busy_ratio by blast
    then show ?thesis
    proof cases
      case 1
      then show ?thesis by (simp add: busy_pct_def Let_def)
    next
      case (2 q)
      then have "busy_pct p cur = roundTo (Fin (min 100 (max 0 q))) 1"
        by (auto simp: busy_pct_def Let_def min_def max_def)
      then show ?thesis using roundTo_percent [of "min 100 (max 0 q)"] by simp
    qed
  qed
  then show ?thesis
    using assms cur by (auto simp: procfsCPUUsedPct_def split: option.splits)
qed

section \<open>Concrete inputs\<close>

abbreviation nan_args :: gargs where
  "nan_args \<equiv> [(''sample_sec'', VFloat NaN)]"

abbreviation proc_host :: host where
  "proc_host \<equiv> demo_host 0 (\<lambda>p. if p = ''/proc/stat'' then Inr ''cpu 1 2 3 4 5'' else Inr [])"

lemma rates_print_iff_witness:
  "to_json (VMap (diskRates Amd64 [] [] NaN)) = None \<and>
   to_json (VMap (netRates [] [] NaN [])) = None"
proof -
  have nan: "argFloat nan_args ''sample_sec'' (Fin 1) = NaN" by (simp add: argFloat_def gget_def)
  have "procfsDiskstats proc_host nan_args = Inr (VMap (diskRates Amd64 [] [] NaN))"
    by (simp add: procfsDiskstats_def sampleProc_def read_proc_def read_later_def demo_host_def
        parseDiskstats_def disk_line_def sample_interval_NaN argFloat_def gget_def)
  moreover have "procfsNetdev proc_host nan_args = Inr (VMap (netRates [] [] NaN []))"
    by (simp add: procfsNetdev_def sampleProc_def read_proc_def read_later_def demo_host_def
        parseNetdev_def net_line_def cut_at_def sample_interval_NaN argFloat_def gget_def str_arg_def)
  ultimately show ?thesis
    using rates_print_iff [of proc_host nan_args] nan by blast
qed

lemma cpu_used_range_witness:
  "\<exists>p. snd (procfsCPUUsedPct proc_host None) = Inr (VFloat (Fin p)) \<and> p = 0"
proof -
  have "\<exists>s. readProcStatCPU proc_host = Inr s"
    by (simp add: readProcStatCPU_def readCPUSample_def has_prefix_def demo_host_def)
  then obtain s where s: "readProcStatCPU proc_host = Inr s" by blast
  then have "procfsCPUUsedPct proc_host None = (Some s, Inr (VFloat (Fin 0)))"
    by (simp add: procfsCPUUsedPct_def)
  with cpu_used_range [OF this] show ?thesis by simp
qed

end
