(* ===== verification/Go_Time.thy ===== *)
theory Go_Time
  imports Primitive_Args
begin

text \<open>
  What the security collector uses of Go's \<open>time\<close>: parsing a civil date and time with a fixed
  layout, the instant it denotes, and printing it in RFC 3339.
\<close>

section \<open>Civil time\<close>

record civil =
  cv_year :: nat
  cv_month :: nat
  cv_day :: nat
  cv_hour :: nat
  cv_min :: nat
  cv_sec :: nat
  cv_nano :: nat

definition leap :: "nat \<Rightarrow> bool" where
  "leap y = (y mod 4 = 0 \<and> (y mod 100 \<noteq> 0 \<or> y mod 400 = 0))"

definition month_days :: "nat \<Rightarrow> nat \<Rightarrow> nat" where
  "month_days y m =
     (if m = 2 then (if leap y then 29 else 28) else if m \<in> {4, 6, 9, 11} then 30 else 31)"

text \<open>Days since 1970-01-01 in the proleptic Gregorian calendar, and nanoseconds since then, for
  a clock that is \<open>zone\<close> seconds ahead of UTC.\<close>

definition days_before_year :: "nat \<Rightarrow> int" where
  "days_before_year y =
     (if y = 0 then 0
      else 366 + 365 * (int y - 1) + int ((y - 1) div 4) - int ((y - 1) div 100) + int ((y - 1) div 400))"

definition epoch_days :: "nat \<Rightarrow> nat \<Rightarrow> nat \<Rightarrow> int" where
  "epoch_days y m d =
     days_before_year y + int (sum_list (map (month_days y) [1..<m])) + int d - 1 - 719528"

definition instant :: "civil \<Rightarrow> int \<Rightarrow> int" where
  "instant c zone =
     (((epoch_days (cv_year c) (cv_month c) (cv_day c) * 24 + int (cv_hour c)) * 60 + int (cv_min c)) * 60
        + int (cv_sec c) - zone) * 1000000000 + int (cv_nano c)"

definition valid_civil :: "civil \<Rightarrow> bool" where
  "valid_civil c =
     (cv_year c \<le> 9999 \<and> 1 \<le> cv_month c \<and> cv_month c \<le> 12 \<and> 1 \<le> cv_day c \<and>
      cv_day c \<le> month_days (cv_year c) (cv_month c) \<and>
      cv_hour c < 24 \<and> cv_min c < 60 \<and> cv_sec c < 60 \<and> cv_nano c < 1000000000)"

section \<open>Parsing\<close>

text \<open>Elements of a layout: a literal (a space stands for any number of spaces), the fields with
  two digits, the year, the hour (one or two digits), the month's short name, the seconds with
  an optional fraction, and a numeric zone.\<close>

datatype layout = Lit char | Year | Month | Day | Hour | Minute | Second | MonthName | Zone

definition digit_val :: "char \<Rightarrow> nat" where "digit_val c = of_char c - 48"

text \<open>\<open>getnum\<close>: two digits, or one where the field is not fixed.\<close>

definition getnum :: "bool \<Rightarrow> string \<Rightarrow> (nat \<times> string) option" where
  "getnum fixed s =
     (case s of
        [] \<Rightarrow> None
      | c # cs \<Rightarrow>
          if \<not> is_digit c then None
          else (case cs of
                  d # ds \<Rightarrow>
                    if is_digit d then Some (10 * digit_val c + digit_val d, ds)
                    else if fixed then None else Some (digit_val c, cs)
                | [] \<Rightarrow> if fixed then None else Some (digit_val c, cs)))"

definition get_year :: "string \<Rightarrow> (nat \<times> string) option" where
  "get_year s =
     (if length s < 4 \<or> \<not> is_digit (hd s) then None
      else map_option (\<lambda>y. (y, drop 4 s)) (digits_val 0 (take 4 s)))"

definition month_names :: "string list" where
  "month_names = [''Jan'', ''Feb'', ''Mar'', ''Apr'', ''May'', ''Jun'', ''Jul'', ''Aug'', ''Sep'',
     ''Oct'', ''Nov'', ''Dec'']"

definition get_month_name :: "string \<Rightarrow> (nat \<times> string) option" where
  "get_month_name s =
     (case find (\<lambda>i. length s \<ge> 3 \<and> map ascii_upper (take 3 s) = map ascii_upper (month_names ! (i - 1)))
             [1..<13] of
        None \<Rightarrow> None | Some i \<Rightarrow> Some (i, drop 3 s))"

text \<open>The fraction after the seconds: its first nine digits as nanoseconds.\<close>

definition get_fraction :: "string \<Rightarrow> nat \<times> string" where
  "get_fraction s =
     (case s of
        c # d # t \<Rightarrow>
          if (c = CHR ''.'' \<or> c = CHR '','') \<and> is_digit d
          then let ds = takeWhile is_digit (d # t); k = take 9 ds
               in (the (digits_val 0 k) * 10 ^ (9 - length k), drop (length ds) (d # t))
          else (0, s)
      | _ \<Rightarrow> (0, s))"

definition get_zone :: "string \<Rightarrow> (int \<times> string) option" where
  "get_zone s =
     (case s of
        c # cs \<Rightarrow>
          (case getnum True cs of
             None \<Rightarrow> None
           | Some (h, r) \<Rightarrow>
               (case getnum True r of
                  None \<Rightarrow> None
                | Some (m, r') \<Rightarrow>
                    if 24 < h \<or> 60 < m then None
                    else if c = CHR ''+'' then Some (int ((h * 60 + m) * 60), r')
                    else if c = CHR ''-'' then Some (- int ((h * 60 + m) * 60), r') else None))
      | [] \<Rightarrow> None)"

definition zero_civil :: civil where
  "zero_civil = \<lparr>cv_year = 0, cv_month = 1, cv_day = 1, cv_hour = 0, cv_min = 0, cv_sec = 0, cv_nano = 0\<rparr>"

text \<open>One element: the civil time and the zone read so far with the rest of the text.\<close>

definition parse_elem ::
  "layout \<Rightarrow> civil \<times> int \<Rightarrow> string \<Rightarrow> ((civil \<times> int) \<times> string) option" where
  "parse_elem e cz s =
     (case e of
        Lit ch \<Rightarrow>
          if ch = CHR '' '' then
            (if s \<noteq> [] \<and> hd s \<noteq> CHR '' '' then None else Some (cz, dropWhile (\<lambda>x. x = CHR '' '') s))
          else (if s \<noteq> [] \<and> hd s = ch then Some (cz, tl s) else None)
      | Year \<Rightarrow> map_option (\<lambda>(n, r). (((fst cz)\<lparr>cv_year := n\<rparr>, snd cz), r)) (get_year s)
      | Month \<Rightarrow>
          (case getnum True s of
             None \<Rightarrow> None
           | Some (n, r) \<Rightarrow>
               if n = 0 \<or> 12 < n then None else Some (((fst cz)\<lparr>cv_month := n\<rparr>, snd cz), r))
      | Day \<Rightarrow> map_option (\<lambda>(n, r). (((fst cz)\<lparr>cv_day := n\<rparr>, snd cz), r)) (getnum True s)
      | Hour \<Rightarrow>
          (case getnum False s of
             None \<Rightarrow> None
           | Some (n, r) \<Rightarrow> if 24 \<le> n then None else Some (((fst cz)\<lparr>cv_hour := n\<rparr>, snd cz), r))
      | Minute \<Rightarrow>
          (case getnum True s of
             None \<Rightarrow> None
           | Some (n, r) \<Rightarrow> if 60 \<le> n then None else Some (((fst cz)\<lparr>cv_min := n\<rparr>, snd cz), r))
      | Second \<Rightarrow>
          (case getnum True s of
             None \<Rightarrow> None
           | Some (n, r) \<Rightarrow>
               if 60 \<le> n then None
               else (case get_fraction r of
                       (f, r') \<Rightarrow> Some (((fst cz)\<lparr>cv_sec := n, cv_nano := f\<rparr>, snd cz), r')))
      | MonthName \<Rightarrow> map_option (\<lambda>(n, r). (((fst cz)\<lparr>cv_month := n\<rparr>, snd cz), r)) (get_month_name s)
      | Zone \<Rightarrow> map_option (\<lambda>(z, r). ((fst cz, z), r)) (get_zone s))"

fun parse_elems :: "layout list \<Rightarrow> civil \<times> int \<Rightarrow> string \<Rightarrow> (civil \<times> int) option" where
  "parse_elems [] cz s = (if s = [] then Some cz else None)"
| "parse_elems (e # es) cz s =
     (case parse_elem e cz s of None \<Rightarrow> None | Some (cz', r) \<Rightarrow> parse_elems es cz' r)"

definition time_parse :: "layout list \<Rightarrow> string \<Rightarrow> (civil \<times> int) option" where
  "time_parse es s =
     (case parse_elems es (zero_civil, 0) s of
        None \<Rightarrow> None
      | Some cz \<Rightarrow>
          if 1 \<le> cv_day (fst cz) \<and> cv_day (fst cz) \<le> month_days (cv_year (fst cz)) (cv_month (fst cz))
          then Some cz else None)"

section \<open>Printing\<close>

definition pad :: "nat \<Rightarrow> nat \<Rightarrow> string" where
  "pad w n = replicate (w - length (digits n)) CHR ''0'' @ digits n"

definition rfc3339 :: "civil \<Rightarrow> string" where
  "rfc3339 c =
     pad 4 (cv_year c) @ ''-'' @ pad 2 (cv_month c) @ ''-'' @ pad 2 (cv_day c) @ ''T'' @
     pad 2 (cv_hour c) @ '':'' @ pad 2 (cv_min c) @ '':'' @ pad 2 (cv_sec c) @ ''Z''"

lemma epoch_examples:
  "epoch_days 1970 1 1 = 0" "epoch_days 2000 3 1 = 11017" "epoch_days 2026 6 29 = 20633"
  by (simp_all add: epoch_days_def days_before_year_def month_days_def leap_def upt_rec)

end
