(* ===== verification/Security_Logs.thy ===== *)
theory Security_Logs
  imports Go_Time
begin

text \<open>
  The sources of the security snapshot (collectors/primitives_security.go): reading logs from
  files and from \<open>dockerd\<close>, whose stream is cut into frames, and counting firewall blocks,
  client errors, bans and dropped packets in them. Each source is absent (\<open>None\<close>) when it cannot
  be read.
\<close>

section \<open>Docker's log stream\<close>

definition be32 :: "string \<Rightarrow> nat" where
  "be32 s = foldl (\<lambda>a c. a * 256 + of_char c) 0 s"

text \<open>The payloads of the complete frames at the front of the data.\<close>

function log_frames :: "string \<Rightarrow> string list" where
  "log_frames data =
     (if length data < 8 then []
      else if of_char (data ! 0) \<le> (2 :: nat) \<and> data ! 1 = CHR 0x00 \<and> data ! 2 = CHR 0x00
                \<and> data ! 3 = CHR 0x00 \<and> 8 + be32 (take 4 (drop 4 data)) \<le> length data
      then take (be32 (take 4 (drop 4 data))) (drop 8 data) #
           log_frames (drop (8 + be32 (take 4 (drop 4 data))) data)
      else [])"
  by pat_completeness auto
termination by (relation "measure length") auto

declare log_frames.simps [simp del]

definition demuxDockerLogStream :: "string \<Rightarrow> string" where
  "demuxDockerLogStream data =
     (let fs = log_frames data in if fs \<noteq> [] then concat fs else data)"

text \<open>\<open>url.PathEscape\<close>.\<close>

definition path_plain :: "char \<Rightarrow> bool" where
  "path_plain c =
     (is_digit c \<or> (CHR ''a'' \<le> c \<and> c \<le> CHR ''z'') \<or> (CHR ''A'' \<le> c \<and> c \<le> CHR ''Z'')
      \<or> c \<in> set ''-_.~$&+:=@'')"

definition hex_digit :: "nat \<Rightarrow> char" where
  "hex_digit n = (if n < 10 then char_of (48 + n) else char_of (55 + n))"

definition path_escape :: "string \<Rightarrow> string" where
  "path_escape s =
     concat (map (\<lambda>c. if path_plain c then [c]
                      else [CHR ''%'', hex_digit (of_char c div 16), hex_digit (of_char c mod 16)]) s)"

definition unix_seconds :: "int \<Rightarrow> int" where "unix_seconds t = t div 1000000000"

definition log_path :: "string \<Rightarrow> int \<Rightarrow> string" where
  "log_path container since =
     ''/containers/'' @ path_escape container @ ''/logs?stdout=1&stderr=1&timestamps=0&since='' @
     itoa (unix_seconds since)"

definition dockerLogLines :: "host \<Rightarrow> string \<Rightarrow> string \<Rightarrow> int \<Rightarrow> string list option" where
  "dockerLogLines h socket container since =
     (case ho_docker h socket (log_path container since) of
        Response status body clean \<Rightarrow>
          if status \<ge> 400 then None
          else (case read_body (16 * 2 ^ 20) body clean of
                  None \<Rightarrow> None
                | Some data \<Rightarrow>
                    if data = [] then None
                    else Some (split_on CHR 0x0A (demuxDockerLogStream data)))
      | _ \<Rightarrow> None)"

section \<open>Files\<close>

definition readFileCapped :: "host \<Rightarrow> string \<Rightarrow> nat \<Rightarrow> string option" where
  "readFileCapped h path n =
     (case fs_file (ho_fs h) path of Inl _ \<Rightarrow> None | Inr data \<Rightarrow> Some (take n data))"

definition readFileTailCapped :: "host \<Rightarrow> string \<Rightarrow> nat \<Rightarrow> string option" where
  "readFileTailCapped h path n =
     (case fs_file (ho_fs h) path of
        Inl _ \<Rightarrow> None
      | Inr data \<Rightarrow> Some (if length data > n then drop (length data - n) data else data))"

section \<open>Patterns of fixed length\<close>

type_synonym char_class = "char \<Rightarrow> bool"

definition match_at :: "char_class list \<Rightarrow> string \<Rightarrow> bool" where
  "match_at ps s = (length ps \<le> length s \<and> list_all2 (\<lambda>p c. p c) ps (take (length ps) s))"

text \<open>The leftmost match.\<close>

fun find_match :: "char_class list \<Rightarrow> string \<Rightarrow> string option" where
  "find_match ps [] = (if match_at ps [] then Some [] else None)"
| "find_match ps (c # cs) =
     (if match_at ps (c # cs) then Some (take (length ps) (c # cs)) else find_match ps cs)"

definition re_space :: char_class where
  "re_space c = (c \<in> {CHR 0x09, CHR 0x0A, CHR 0x0C, CHR 0x0D, CHR 0x20})"

definition re_letter :: char_class where
  "re_letter c = ((CHR ''a'' \<le> c \<and> c \<le> CHR ''z'') \<or> (CHR ''A'' \<le> c \<and> c \<le> CHR ''Z''))"

definition nginxStatusRe :: "char_class list" where
  "nginxStatusRe = [\<lambda>c. c = CHR 0x22, re_space, is_digit, is_digit, is_digit, re_space]"

text \<open>\<open>n\<close> digits and a literal.\<close>

definition digs :: "nat \<Rightarrow> char_class list" where "digs n = replicate n is_digit"
definition lit :: "char \<Rightarrow> char_class list" where "lit c = [\<lambda>x. x = c]"

definition modsecLogTimeRe :: "char_class list" where
  "modsecLogTimeRe =
     digs 4 @ lit CHR ''/'' @ digs 2 @ lit CHR ''/'' @ digs 2 @ lit CHR '' '' @
     digs 2 @ lit CHR '':'' @ digs 2 @ lit CHR '':'' @ digs 2"

definition nginxAccessTimeRe :: "char_class list" where
  "nginxAccessTimeRe =
     lit CHR ''['' @ digs 2 @ lit CHR ''/'' @ replicate 3 re_letter @ lit CHR ''/'' @ digs 4 @
     lit CHR '':'' @ digs 2 @ lit CHR '':'' @ digs 2 @ lit CHR '':'' @ digs 2 @ lit CHR '' '' @
     [\<lambda>c. c = CHR ''+'' \<or> c = CHR ''-''] @ digs 4 @ lit CHR '']''"

section \<open>The time window of a log file\<close>

definition modsec_layout :: "layout list" where
  "modsec_layout = [Year, Lit CHR ''/'', Month, Lit CHR ''/'', Day, Lit CHR '' '', Hour, Lit CHR '':'',
     Minute, Lit CHR '':'', Second]"

definition nginx_layout :: "layout list" where
  "nginx_layout = [Day, Lit CHR ''/'', MonthName, Lit CHR ''/'', Year, Lit CHR '':'', Hour,
     Lit CHR '':'', Minute, Lit CHR '':'', Second, Lit CHR '' '', Zone]"

text \<open>The instant of a line of the ModSecurity log (local time, anchored at the start) and of the
  access log (with its zone).\<close>

definition modsec_time :: "host \<Rightarrow> string \<Rightarrow> int option" where
  "modsec_time h line =
     (if \<not> match_at modsecLogTimeRe line then None
      else (case time_parse modsec_layout (take (length modsecLogTimeRe) line) of
              None \<Rightarrow> None
            | Some cz \<Rightarrow> Some (instant (fst cz) (ho_local h (unix_seconds (instant (fst cz) 0))))))"

definition nginx_time :: "string \<Rightarrow> int option" where
  "nginx_time line =
     (case find_match nginxAccessTimeRe line of
        None \<Rightarrow> None
      | Some m \<Rightarrow>
          (case time_parse nginx_layout (butlast (tl m)) of
             None \<Rightarrow> None | Some cz \<Rightarrow> Some (instant (fst cz) (snd cz))))"

definition filterLinesSince :: "(string \<Rightarrow> int option) \<Rightarrow> int \<Rightarrow> string list \<Rightarrow> string list" where
  "filterLinesSince time since ls =
     filter (\<lambda>l. case time l of None \<Rightarrow> False | Some t \<Rightarrow> \<not> t < since) ls"

section \<open>Web application firewall\<close>

definition wafClassTags :: "(string \<times> string) list" where
  "wafClassTags = [(''sqli'', ''attack-sqli''), (''rce'', ''attack-rce''), (''lfi'', ''attack-lfi''),
     (''rfi'', ''attack-rfi''), (''xss'', ''attack-xss''), (''injection'', ''attack-injection-php''),
     (''scanner'', ''scanner'')]"

definition waf_denied :: "string \<Rightarrow> bool" where
  "waf_denied line = str_contains line ''ModSecurity: Access denied''"

definition waf_class_count :: "string list \<Rightarrow> string \<Rightarrow> nat" where
  "waf_class_count ls tag = length (filter (\<lambda>l. waf_denied l \<and> str_contains l tag) ls)"

definition countWAFBlocks :: "string list \<Rightarrow> gargs" where
  "countWAFBlocks ls =
     (let byClass = filter (\<lambda>e. snd e \<noteq> 0) (map (\<lambda>(c, tag). (c, waf_class_count ls tag)) wafClassTags)
      in (''blocked'', VInt (int (length (filter waf_denied ls)))) #
         (if byClass = [] then []
          else [(''by_class'', VMap (map (\<lambda>(c, n). (c, VInt (int n))) byClass))]))"

definition collectWAFBlocks :: "host \<Rightarrow> string \<Rightarrow> string \<Rightarrow> int \<Rightarrow> gargs option" where
  "collectWAFBlocks h socket container since =
     map_option countWAFBlocks (dockerLogLines h socket container since)"

definition collectWAFBlocksFile :: "host \<Rightarrow> string \<Rightarrow> int \<Rightarrow> gargs option" where
  "collectWAFBlocksFile h path since =
     map_option (\<lambda>data. countWAFBlocks (filterLinesSince (modsec_time h) since (split_on CHR 0x0A data)))
       (readFileTailCapped h path (32 * 2 ^ 20))"

section \<open>Client errors of the web server\<close>

record nginx_counts =
  n_4xx :: nat
  n_403 :: nat
  n_429 :: nat

definition count_status :: "nginx_counts \<Rightarrow> string \<Rightarrow> nginx_counts" where
  "count_status n line =
     (case find_match nginxStatusRe line of
        None \<Rightarrow> n
      | Some m \<Rightarrow>
          let code = (case parse_int (take 3 (drop 2 m)) of None \<Rightarrow> 0 | Some c \<Rightarrow> c) in
          if code < 400 \<or> code \<ge> 500 then n
          else let n1 = n\<lparr>n_4xx := n_4xx n + 1\<rparr> in
               if code = 403 then n1\<lparr>n_403 := n_403 n1 + 1\<rparr>
               else if code = 429 then n1\<lparr>n_429 := n_429 n1 + 1\<rparr> else n1)"

definition nginx_fold :: "string list \<Rightarrow> nginx_counts" where
  "nginx_fold ls = foldl count_status \<lparr>n_4xx = 0, n_403 = 0, n_429 = 0\<rparr> ls"

definition countNginx4xx :: "string list \<Rightarrow> gargs" where
  "countNginx4xx ls =
     (let n = nginx_fold ls
      in [(''http_4xx'', VInt (int (n_4xx n))), (''http_403'', VInt (int (n_403 n))),
          (''http_429'', VInt (int (n_429 n)))])"

definition collectNginx4xx :: "host \<Rightarrow> string \<Rightarrow> string \<Rightarrow> int \<Rightarrow> gargs option" where
  "collectNginx4xx h socket container since =
     map_option countNginx4xx (dockerLogLines h socket container since)"

definition collectNginx4xxFile :: "host \<Rightarrow> string \<Rightarrow> int \<Rightarrow> gargs option" where
  "collectNginx4xxFile h path since =
     map_option (\<lambda>data. countNginx4xx (filterLinesSince nginx_time since (split_on CHR 0x0A data)))
       (readFileTailCapped h path (32 * 2 ^ 20))"

section \<open>Bans\<close>

definition ban_layout :: "layout list" where
  "ban_layout = [Year, Lit CHR ''-'', Month, Lit CHR ''-'', Day, Lit CHR '' '', Hour, Lit CHR '':'',
     Minute, Lit CHR '':'', Second]"

record ban =
  ban_ip :: string
  ban_at :: civil
  ban_reason :: string

record ban_state =
  bs_distinct :: "string list"
  bs_window :: nat
  bs_recent :: "ban list"

definition maxRecent :: nat where "maxRecent = 100"

definition ban_line :: "int \<Rightarrow> ban_state \<Rightarrow> string \<Rightarrow> ban_state" where
  "ban_line since s line =
     (let parts = split_on CHR ''|'' line in
      if length parts < 2 then s
      else let ip = trim_space (parts ! 0) in
        if ip = [] then s
        else
          let s1 = s\<lparr>bs_distinct := List.insert ip (bs_distinct s)\<rparr>;
              tsRaw = trim_space (trim_suffix (trim_space (parts ! 1)) ''UTC'')
          in (case time_parse ban_layout tsRaw of
                None \<Rightarrow> s1
              | Some cz \<Rightarrow>
                  if \<not> since < instant (fst cz) 0 then s1
                  else
                    let s2 = s1\<lparr>bs_window := bs_window s1 + 1\<rparr> in
                    if length (bs_recent s2) < maxRecent
                    then s2\<lparr>bs_recent := bs_recent s2 @
                            [\<lparr>ban_ip = ip, ban_at = fst cz,
                              ban_reason = (if length parts \<ge> 3 then trim_space (parts ! 2) else [])\<rparr>]\<rparr>
                    else s2))"

definition scan_bans :: "int \<Rightarrow> string \<Rightarrow> ban_state" where
  "scan_bans since data =
     foldl (ban_line since) \<lparr>bs_distinct = [], bs_window = 0, bs_recent = []\<rparr> (split_on CHR 0x0A data)"

definition ban_row :: "ban \<Rightarrow> gval" where
  "ban_row b = VMap [(''ip'', VStr (ban_ip b)), (''at'', VStr (rfc3339 (ban_at b))),
                     (''reason'', VStr (ban_reason b))]"

definition ban_report :: "ban_state \<Rightarrow> gargs" where
  "ban_report s =
     [(''banned_total'', VInt (int (length (bs_distinct s)))), (''banned_window'', VInt (int (bs_window s)))] @
     (if bs_recent s = [] then [] else [(''recent'', VList (map ban_row (bs_recent s)))])"

definition collectFail2ban :: "host \<Rightarrow> string \<Rightarrow> int \<Rightarrow> gargs option" where
  "collectFail2ban h path since =
     map_option (\<lambda>data. ban_report (scan_bans since data)) (readFileCapped h path (8 * 2 ^ 20))"

section \<open>Packet filter\<close>

definition iptables_bins :: "string list" where
  "iptables_bins = [''iptables'', ''/usr/sbin/iptables'', ''/sbin/iptables'']"

text \<open>The output of the first binary that succeeds.\<close>

definition iptables :: "host \<Rightarrow> string list \<Rightarrow> string option" where
  "iptables h argv =
     (case find (\<lambda>b. is_ok (ho_cmd h (b # argv))) iptables_bins of
        None \<Rightarrow> None | Some b \<Rightarrow> Some (projr (ho_cmd h (b # argv))))"

definition add_drop :: "int \<Rightarrow> string \<Rightarrow> int" where
  "add_drop n line =
     (let f = str_fields line in
      if 3 \<le> length f \<and> f ! 2 = ''DROP''
      then (case parse_int (f ! 0) of None \<Rightarrow> n | Some k \<Rightarrow> wrap64 (n + k)) else n)"

definition collectFirewallDrops :: "host \<Rightarrow> string \<Rightarrow> gargs option" where
  "collectFirewallDrops h chain =
     map_option (\<lambda>out. [(''dropped_packets'', VInt64 (foldl add_drop 0 (split_on CHR 0x0A out)))])
       (iptables h [''-vnx'', ''-L'', chain])"

definition firewallActive :: "host \<Rightarrow> bool option" where
  "firewallActive h =
     map_option
       (\<lambda>out. \<exists>l\<in>set (split_on CHR 0x0A out). trim_space l \<in> {''-P INPUT DROP'', ''-P INPUT REJECT''})
       (iptables h [''-S'', ''INPUT''])"

end
