(* ===== verification/Security_Snapshot.thy ===== *)
theory Security_Snapshot
  imports Security_Logs
begin

text \<open>
  The collector \<open>security.snapshot\<close> (collectors/primitives_security.go): the composition of its
  sources, the cache that limits how often they are scanned, and the properties of both.
\<close>

section \<open>The snapshot\<close>

text \<open>The process-wide cache: when the last scan was and what it found.\<close>

record sec_state =
  sec_at :: "int option"
  sec_cache :: "gargs option"

definition minute_ns :: int where "minute_ns = 60 * 1000000000"

definition snapshot_window :: "goarch \<Rightarrow> gargs \<Rightarrow> int" where
  "snapshot_window arch args =
     (let w = wrap64 (f64_to_int arch (argFloat args ''window_seconds'' (Fin 3600)) * 1000000000)
      in if w < minute_ns then minute_ns else w)"

text \<open>\<open>now.Sub(at)\<close> saturates; \<open>d.Seconds()\<close> adds the fraction in floating point.\<close>

definition time_sub :: "int \<Rightarrow> int \<Rightarrow> int" where
  "time_sub now t0 = max min_int64 (min max_int64 (now - t0))"

definition duration_seconds :: "int \<Rightarrow> f64" where
  "duration_seconds d =
     f64_add (f64_of_int (d div 1000000000)) (f64_div (f64_of_int (d mod 1000000000)) (Fin 1000000000))"

definition add_section :: "string \<Rightarrow> gargs option \<Rightarrow> gargs \<Rightarrow> gargs" where
  "add_section key v out = (case v of None \<Rightarrow> out | Some m \<Rightarrow> AList.update key (VMap m) out)"

text \<open>A configured log file takes precedence over the container.\<close>

definition snapshot_waf :: "host \<Rightarrow> gargs \<Rightarrow> int \<Rightarrow> gargs option" where
  "snapshot_waf h args since =
     (if argString args ''waf_log'' [] \<noteq> []
      then collectWAFBlocksFile h (argString args ''waf_log'' []) since
      else collectWAFBlocks h (argString args ''socket'' ''/var/run/docker.sock'')
             (argString args ''waf_container'' ''icosys-waf'') since)"

definition snapshot_nginx :: "host \<Rightarrow> gargs \<Rightarrow> int \<Rightarrow> gargs option" where
  "snapshot_nginx h args since =
     (if argString args ''nginx_log'' [] \<noteq> []
      then collectNginx4xxFile h (argString args ''nginx_log'' []) since
      else collectNginx4xx h (argString args ''socket'' ''/var/run/docker.sock'')
             (argString args ''nginx_container'' ''icosys-nginx'') since)"

definition snapshot_bans :: "host \<Rightarrow> gargs \<Rightarrow> int \<Rightarrow> gargs option" where
  "snapshot_bans h args since =
     collectFail2ban h (argString args ''banned_ips_log'' ''/var/lib/icosys/auto-ban/banned-ips.log'') since"

definition snapshot_firewall :: "host \<Rightarrow> gargs \<Rightarrow> gargs option" where
  "snapshot_firewall h args =
     (let fw = collectFirewallDrops h (argString args ''firewall_chain'' ''DOCKER-USER'')
      in case firewallActive h of
           None \<Rightarrow> fw
         | Some active \<Rightarrow>
             Some (AList.update ''active'' (VBool active) (case fw of None \<Rightarrow> [] | Some m \<Rightarrow> m)))"

definition scan_sources :: "host \<Rightarrow> gargs \<Rightarrow> int \<Rightarrow> gargs" where
  "scan_sources h args window =
     (let since = ho_now h - window in
      add_section ''firewall'' (snapshot_firewall h args)
        (add_section ''fail2ban'' (snapshot_bans h args since)
          (add_section ''nginx'' (snapshot_nginx h args since)
            (add_section ''waf'' (snapshot_waf h args since)
              [(''collected_at'', VStr (ho_now_text h)),
               (''window_seconds'', VInt (f64_to_int (ho_arch h) (duration_seconds window)))]))))"

definition snapshot_due :: "sec_state \<Rightarrow> int \<Rightarrow> int \<Rightarrow> bool" where
  "snapshot_due st now window =
     (case sec_at st of None \<Rightarrow> True | Some t0 \<Rightarrow> \<not> time_sub now t0 < window)"

definition cached_value :: "gargs option \<Rightarrow> gval" where
  "cached_value c = (case c of None \<Rightarrow> VNil | Some m \<Rightarrow> VMap m)"

definition securitySnapshot :: "host \<Rightarrow> sec_state \<Rightarrow> gargs \<Rightarrow> sec_state \<times> gval" where
  "securitySnapshot h st args =
     (let window = snapshot_window (ho_arch h) args in
      if \<not> snapshot_due st (ho_now h) window then (st, cached_value (sec_cache st))
      else
        let out = scan_sources h args window;
            cache = (if length out \<le> 2 then None else Some out)
        in (\<lparr>sec_at = Some (ho_now h), sec_cache = cache\<rparr>, cached_value cache))"

section \<open>Docker frames\<close>

text \<open>A frame as \<open>dockerd\<close> writes it.\<close>

definition be_bytes :: "nat \<Rightarrow> string" where
  "be_bytes n = [char_of (n div 16777216), char_of (n div 65536), char_of (n div 256), char_of n]"

definition docker_frame :: "nat \<times> string \<Rightarrow> string" where
  "docker_frame f =
     [char_of (fst f), CHR 0x00, CHR 0x00, CHR 0x00] @ be_bytes (length (snd f)) @ snd f"

definition frame_ok :: "nat \<times> string \<Rightarrow> bool" where
  "frame_ok f = (fst f \<le> 2 \<and> length (snd f) < 2 ^ 32)"

lemma be32_bytes: "n < 2 ^ 32 \<Longrightarrow> be32 (be_bytes n) = n"
proof -
  assume "n < 2 ^ 32"
  then have "n div 16777216 mod 256 = n div 16777216" by simp
  moreover have "n div 16777216 * 256 + n div 65536 mod 256 = n div 65536"
    using div_mult_mod_eq [of "n div 65536" 256] by (simp only: div_mult2_eq [symmetric]) simp
  moreover have "n div 65536 * 256 + n div 256 mod 256 = n div 256"
    using div_mult_mod_eq [of "n div 256" 256] by (simp only: div_mult2_eq [symmetric]) simp
  moreover have "n div 256 * 256 + n mod 256 = n" by simp
  ultimately show ?thesis
    by (simp only: be32_def be_bytes_def foldl.simps of_char_of) simp
qed

lemma log_frames_cons:
  "log_frames (a # z1 # z2 # z3 # b1 # b2 # b3 # b4 # rest) =
     (let n = be32 [b1, b2, b3, b4] in
      if of_char a \<le> (2 :: nat) \<and> z1 = CHR 0x00 \<and> z2 = CHR 0x00 \<and> z3 = CHR 0x00 \<and> n \<le> length rest
      then take n rest # log_frames (drop n rest) else [])"
  by (subst log_frames.simps) (simp add: Let_def drop_drop [symmetric] add.commute [of 8] del: drop_drop)

lemma docker_frame_cons:
  "docker_frame f @ t =
     char_of (fst f) # CHR 0x00 # CHR 0x00 # CHR 0x00 #
     char_of (length (snd f) div 16777216) # char_of (length (snd f) div 65536) #
     char_of (length (snd f) div 256) # char_of (length (snd f)) # snd f @ t"
  by (simp add: docker_frame_def be_bytes_def)

lemma take_8: "take (8 + k) (a # b # c # d # e # f # g # h # t) = a # b # c # d # e # f # g # h # take k t"
  by (simp add: numeral_eq_Suc)

lemma length_docker_frame: "length (docker_frame f) = 8 + length (snd f)"
  by (simp add: docker_frame_def be_bytes_def)

lemma log_frames_frame:
  assumes "frame_ok f"
  shows "log_frames (docker_frame f @ t) = snd f # log_frames t"
proof -
  have "be32 (be_bytes (length (snd f))) = length (snd f)"
    using assms by (simp add: be32_bytes frame_ok_def)
  then show ?thesis
    using assms unfolding docker_frame_cons log_frames_cons be_bytes_def
    by (simp add: frame_ok_def)
qed

lemma log_frames_frames:
  "\<forall>f\<in>set fs. frame_ok f \<Longrightarrow> log_frames (concat (map docker_frame fs) @ t) = map snd fs @ log_frames t"
  by (induction fs) (simp_all add: log_frames_frame)

lemma log_frames_partial:
  assumes "frame_ok f" "n < length (docker_frame f)"
  shows "log_frames (take n (docker_frame f)) = []"
proof (cases "n < 8")
  case True
  then show ?thesis by (simp add: log_frames.simps)
next
  case False
  then obtain k where n: "n = 8 + k" "k < length (snd f)"
    using assms(2) by (metis length_docker_frame le_Suc_ex not_less nat_add_left_cancel_less)
  have "be32 (be_bytes (length (snd f))) = length (snd f)"
    using assms by (simp add: be32_bytes frame_ok_def)
  moreover have "take n (docker_frame f) =
      char_of (fst f) # CHR 0x00 # CHR 0x00 # CHR 0x00 #
      char_of (length (snd f) div 16777216) # char_of (length (snd f) div 65536) #
      char_of (length (snd f) div 256) # char_of (length (snd f)) # take k (snd f)"
    using docker_frame_cons [of f "[]"] by (simp only: n(1) append_Nil2 take_8)
  ultimately show ?thesis
    using n(2) by (simp only: log_frames_cons be_bytes_def Let_def) simp
qed

section \<open>The cache\<close>

lemma window_ge: "minute_ns \<le> snapshot_window arch args"
  by (simp add: snapshot_window_def Let_def)

lemma not_due_within:
  "sec_at st = Some t \<Longrightarrow> now - t < snapshot_window arch args \<Longrightarrow>
     \<not> snapshot_due st now (snapshot_window arch args)"
  using window_ge [of arch args]
  by (auto simp: snapshot_due_def time_sub_def minute_ns_def min_int64_def)

lemma due_spaced:
  "sec_at st = Some t \<Longrightarrow> snapshot_due st now (snapshot_window arch args) \<Longrightarrow> t + minute_ns \<le> now"
  using window_ge [of arch args]
  by (auto simp: snapshot_due_def time_sub_def minute_ns_def min_int64_def)

lemma scan_result:
  assumes "snapshot_due st (ho_now h) (snapshot_window (ho_arch h) args)"
  shows "sec_at (fst (securitySnapshot h st args)) = Some (ho_now h)"
    "snd (securitySnapshot h st args) = cached_value (sec_cache (fst (securitySnapshot h st args)))"
  using assms by (simp_all add: securitySnapshot_def Let_def)

lemma no_scan_result:
  assumes "\<not> snapshot_due st (ho_now h) (snapshot_window (ho_arch h) args)"
  shows "securitySnapshot h st args = (st, cached_value (sec_cache st))"
  using assms by (simp add: securitySnapshot_def)

text \<open>The instants at which a run of calls scans the sources.\<close>

fun scan_times :: "sec_state \<Rightarrow> (host \<times> gargs) list \<Rightarrow> int list" where
  "scan_times st [] = []"
| "scan_times st ((h, args) # cs) =
     (if snapshot_due st (ho_now h) (snapshot_window (ho_arch h) args) then [ho_now h] else []) @
     scan_times (fst (securitySnapshot h st args)) cs"

lemma scan_times_after:
  "sec_at st = Some t \<Longrightarrow> s \<in> set (scan_times st cs) \<Longrightarrow> t + minute_ns \<le> s"
proof (induction st cs arbitrary: t rule: scan_times.induct)
  case (2 st h args cs)
  show ?case
  proof (cases "snapshot_due st (ho_now h) (snapshot_window (ho_arch h) args)")
    case True
    have "t + minute_ns \<le> ho_now h" by (rule due_spaced [OF 2(2) True])
    moreover have "s = ho_now h \<or> ho_now h + minute_ns \<le> s"
      using 2(1) [OF scan_result(1) [OF True]] 2(3) True by auto
    moreover have "0 \<le> minute_ns" by (simp add: minute_ns_def)
    ultimately show ?thesis by linarith
  next
    case False
    with 2 show ?thesis by (simp add: no_scan_result)
  qed
qed simp

section \<open>Sections\<close>

lemma map_of_add_section:
  "map_of (add_section key v out) k =
     (if k = key \<and> v \<noteq> None then Some (VMap (the v)) else map_of out k)"
  by (auto simp: add_section_def split: option.splits)

lemma length_add_section:
  "map_of out key = None \<Longrightarrow> length (add_section key v out) = length out + (if v = None then 0 else 1)"
proof (cases v)
  case (Some m)
  assume "map_of out key = None"
  then have "length (AList.update key (VMap m) out) = length out + 1" by (induction out) auto
  with Some show ?thesis by (simp add: add_section_def)
qed (simp add: add_section_def)

lemma scan_sources_lookup:
  "map_of (scan_sources h args w) ''waf'' = map_option VMap (snapshot_waf h args (ho_now h - w))"
  "map_of (scan_sources h args w) ''nginx'' = map_option VMap (snapshot_nginx h args (ho_now h - w))"
  "map_of (scan_sources h args w) ''fail2ban'' = map_option VMap (snapshot_bans h args (ho_now h - w))"
  "map_of (scan_sources h args w) ''firewall'' = map_option VMap (snapshot_firewall h args)"
  by (auto simp: scan_sources_def Let_def map_of_add_section)

lemma length_scan_sources:
  "length (scan_sources h args w) \<le> 2 \<longleftrightarrow>
     snapshot_waf h args (ho_now h - w) = None \<and> snapshot_nginx h args (ho_now h - w) = None \<and>
     snapshot_bans h args (ho_now h - w) = None \<and> snapshot_firewall h args = None"
  by (simp add: scan_sources_def Let_def length_add_section map_of_add_section)

section \<open>Bans\<close>

text \<open>The reference: what a line says, read on its own.\<close>

definition line_ip :: "string \<Rightarrow> string option" where
  "line_ip line =
     (let parts = split_on CHR ''|'' line
      in if length parts < 2 \<or> trim_space (parts ! 0) = [] then None else Some (trim_space (parts ! 0)))"

definition line_ban :: "int \<Rightarrow> string \<Rightarrow> ban option" where
  "line_ban since line =
     (case line_ip line of
        None \<Rightarrow> None
      | Some ip \<Rightarrow>
          let parts = split_on CHR ''|'' line in
          (case time_parse ban_layout (trim_space (trim_suffix (trim_space (parts ! 1)) ''UTC'')) of
             None \<Rightarrow> None
           | Some cz \<Rightarrow>
               if since < instant (fst cz) 0
               then Some \<lparr>ban_ip = ip, ban_at = fst cz,
                          ban_reason = (if length parts \<ge> 3 then trim_space (parts ! 2) else [])\<rparr>
               else None))"

lemma ban_line_ref:
  "ban_line since s line =
     (case line_ip line of
        None \<Rightarrow> s
      | Some ip \<Rightarrow>
          let s1 = s\<lparr>bs_distinct := List.insert ip (bs_distinct s)\<rparr> in
          (case line_ban since line of
             None \<Rightarrow> s1
           | Some b \<Rightarrow> s1\<lparr>bs_window := bs_window s + 1,
                         bs_recent := (if length (bs_recent s) < maxRecent then bs_recent s @ [b]
                                       else bs_recent s)\<rparr>))"
  by (auto simp: ban_line_def line_ban_def line_ip_def Let_def split: option.splits)

lemma ban_fold_ref:
  defines "ips ls \<equiv> List.map_filter line_ip ls"
  defines "bans since ls \<equiv> List.map_filter (line_ban since) ls"
  shows "foldl (ban_line since) \<lparr>bs_distinct = [], bs_window = 0, bs_recent = []\<rparr> ls =
    \<lparr>bs_distinct = fold List.insert (ips ls) [], bs_window = length (bans since ls),
     bs_recent = take maxRecent (bans since ls)\<rparr>"
proof (induction ls rule: rev_induct)
  case Nil
  then show ?case by (simp add: ips_def bans_def List.map_filter_simps)
next
  case (snoc l ls)
  have snoc_filter: "List.map_filter f (ls @ [l]) =
      List.map_filter f ls @ (case f l of None \<Rightarrow> [] | Some y \<Rightarrow> [y])" for f :: "string \<Rightarrow> 'a option"
    by (simp add: List.map_filter_def split: option.splits)
  have none: "line_ip l = None \<Longrightarrow> line_ban since l = None" by (simp add: line_ban_def)
  show ?case
    using snoc none
    by (cases "line_ip l"; cases "line_ban since l")
      (auto simp: ban_line_ref ips_def bans_def snoc_filter Let_def min_def not_less)
qed

lemma fold_insert_set: "set (fold List.insert xs ys) = set xs \<union> set ys"
  by (induction xs arbitrary: ys) auto

lemma fold_insert_distinct: "distinct ys \<Longrightarrow> distinct (fold List.insert xs ys)"
  by (induction xs arbitrary: ys) (auto simp: distinct_insert)

section \<open>Properties\<close>

text \<open>C35: cutting \<open>dockerd\<close>'s stream into frames loses nothing: the payloads of all complete
  frames come back in order, and a last frame that the size limit cut off is dropped whole.\<close>

theorem demux_inverts_framing:
  assumes "fs \<noteq> []" "\<forall>f\<in>set fs. frame_ok f" "frame_ok g" "n < length (docker_frame g)"
  shows "demuxDockerLogStream (concat (map docker_frame fs) @ take n (docker_frame g)) =
    concat (map snd fs)"
  using assms by (simp add: demuxDockerLogStream_def log_frames_frames log_frames_partial)

theorem demux_inverts_framing_witness:
  "demuxDockerLogStream (docker_frame (1, ''hello'') @ docker_frame (2, ''world'') @
     take 3 (docker_frame (1, ''lost''))) = ''helloworld''"
  using demux_inverts_framing [of "[(1, ''hello''), (2, ''world'')]" "(1, ''lost'')" 3]
  by (simp add: frame_ok_def length_docker_frame)

text \<open>C33: within the window after a scan the same snapshot is returned, and the cache kept,
  whatever has happened on the host meanwhile and whatever the arguments of the call: bindings
  with different arguments share one cache.\<close>

theorem snapshot_cached:
  assumes "securitySnapshot h st args = (st', v)" "snapshot_due st (ho_now h) (snapshot_window (ho_arch h) args)"
    and "ho_now h2 - ho_now h < snapshot_window (ho_arch h2) args2"
  shows "securitySnapshot h2 st' args2 = (st', v)"
proof -
  have "sec_at st' = Some (ho_now h)" "v = cached_value (sec_cache st')"
    using scan_result [OF assms(2)] assms(1) by auto
  then show ?thesis using not_due_within [OF _ assms(3)] by (simp add: no_scan_result)
qed

text \<open>The sources are scanned at most once a minute, whatever windows the bindings ask for
  and however the clock moves.\<close>

lemma scans_spaced:
  "sorted_wrt (\<lambda>a b. a + minute_ns \<le> b) (scan_times st cs)"
proof (induction st cs rule: scan_times.induct)
  case (2 st h args cs)
  then show ?case
    using scan_times_after [OF scan_result(1)] by auto
qed simp

text \<open>A scan reports exactly the sources that could be read, each with its own report, and
  the collector yields nothing when there is none.\<close>

lemma snapshot_sections:
  assumes "snapshot_due st (ho_now h) (snapshot_window (ho_arch h) args)"
  defines "since \<equiv> ho_now h - snapshot_window (ho_arch h) args"
  shows "(snd (securitySnapshot h st args) = VNil \<longleftrightarrow>
      snapshot_waf h args since = None \<and> snapshot_nginx h args since = None \<and>
      snapshot_bans h args since = None \<and> snapshot_firewall h args = None) \<and>
    (\<forall>out. snd (securitySnapshot h st args) = VMap out \<longrightarrow>
      map_of out ''waf'' = map_option VMap (snapshot_waf h args since) \<and>
      map_of out ''nginx'' = map_option VMap (snapshot_nginx h args since) \<and>
      map_of out ''fail2ban'' = map_option VMap (snapshot_bans h args since) \<and>
      map_of out ''firewall'' = map_option VMap (snapshot_firewall h args))"
  using assms(1) length_scan_sources [of h args "snapshot_window (ho_arch h) args"]
  by (auto simp: securitySnapshot_def Let_def cached_value_def since_def scan_sources_lookup)

text \<open>C34: the ban report is exact on what was read of the log, its first eight mebibytes: there is none when the log
  cannot be read; otherwise it has the number of distinct addresses, the number of bans in the window,
  and, unless there are none, the first hundred of these in file order, each with its address, its time
  and its reason.\<close>

theorem bans_exact:
  "collectFail2ban h path since =
     (case readFileCapped h path (8 * 2 ^ 20) of
        None \<Rightarrow> None
      | Some data \<Rightarrow>
          let ls = split_on CHR 0x0A data;
              addresses = set (List.map_filter line_ip ls);
              bans = List.map_filter (line_ban since) ls
          in Some ([(''banned_total'', VInt (int (card addresses))), (''banned_window'', VInt (int (length bans)))] @
               (if bans = [] then []
                else [(''recent'', VList (map (\<lambda>b. VMap [(''ip'', VStr (ban_ip b)), (''at'', VStr (rfc3339 (ban_at b))),
                        (''reason'', VStr (ban_reason b))]) (take 100 bans)))])))"
proof -
  have "length (fold List.insert xs []) = card (set xs)" for xs :: "string list"
    using distinct_card [OF fold_insert_distinct [of "[]" xs]] by (simp add: fold_insert_set)
  moreover have "take maxRecent bs = [] \<longleftrightarrow> bs = []" for bs :: "ban list"
    by (simp add: maxRecent_def)
  ultimately show ?thesis
    by (simp add: collectFail2ban_def ban_report_def scan_bans_def ban_fold_ref Let_def ban_row_def [abs_def]
        split: option.split) (simp add: maxRecent_def)
qed

text \<open>The ban log is read from its start: once it has eight mebibytes, no ban appended to it
  is ever reported.\<close>

lemma ban_log_saturates:
  assumes "fs_file (ho_fs h) path = Inr data" "8 * 2 ^ 20 \<le> length data"
    and "fs_file (ho_fs h') path = Inr (data @ newer)"
  shows "collectFail2ban h' path since = collectFail2ban h path since"
  using assms by (simp add: collectFail2ban_def readFileCapped_def)

section \<open>A concrete host\<close>

definition quiet_host :: "int \<Rightarrow> host" where
  "quiet_host now = demo_host now (\<lambda>_. Inl NotExist)"

definition fresh :: sec_state where "fresh = \<lparr>sec_at = None, sec_cache = None\<rparr>"

lemma demo_due: "snapshot_due fresh now w"
  by (simp add: snapshot_due_def fresh_def)

lemma quiet_sources:
  "snapshot_waf (quiet_host now) [] since = None" "snapshot_nginx (quiet_host now) [] since = None"
  "snapshot_bans (quiet_host now) [] since = None" "snapshot_firewall (quiet_host now) [] = None"
  by (simp_all add: snapshot_waf_def snapshot_nginx_def snapshot_bans_def snapshot_firewall_def
      argString_def collectWAFBlocks_def collectNginx4xx_def collectFail2ban_def dockerLogLines_def
      readFileCapped_def collectFirewallDrops_def firewallActive_def iptables_def iptables_bins_def
      quiet_host_def demo_host_def)

theorem snapshot_cached_witness:
  "snd (securitySnapshot (demo_host 5 (\<lambda>_. Inr [])) (fst (securitySnapshot (quiet_host 0) fresh [])) []) =
     snd (securitySnapshot (quiet_host 0) fresh [])"
proof -
  have "ho_now (demo_host 5 (\<lambda>_. Inr [])) - ho_now (quiet_host 0) < minute_ns"
    by (simp add: quiet_host_def demo_host_def minute_ns_def)
  also have "\<dots> \<le> snapshot_window (ho_arch (demo_host 5 (\<lambda>_. Inr []))) []" by (rule window_ge)
  finally show ?thesis
    using snapshot_cached [OF prod.collapse [symmetric] demo_due] by simp
qed

lemma snapshot_sections_witness:
  "snd (securitySnapshot (quiet_host 0) fresh []) = VNil"
  using snapshot_sections [OF demo_due, of "quiet_host 0" "[]"] by (simp add: quiet_sources)

lemma ban_log_saturates_witness:
  "collectFail2ban (demo_host 0 (\<lambda>_. Inr (replicate (8 * 2 ^ 20) CHR ''x'' @ ''1.2.3.4 | 2026-01-01 00:00:00 UTC''))) ''p'' 0 =
   collectFail2ban (demo_host 0 (\<lambda>_. Inr (replicate (8 * 2 ^ 20) CHR ''x''))) ''p'' 0"
proof (rule ban_log_saturates)
  show "fs_file (ho_fs (demo_host 0 (\<lambda>_. Inr (replicate (8 * 2 ^ 20) CHR ''x'')))) ''p'' =
      Inr (replicate (8 * 2 ^ 20) CHR ''x'')"
    by (simp only: demo_host_def host.simps filesys.simps)
  show "8 * 2 ^ 20 \<le> length (replicate (8 * 2 ^ 20) CHR ''x'')"
    by (simp only: length_replicate order_refl)
qed (simp only: demo_host_def host.simps filesys.simps)

end
