(* ===== verification/Host_Primitives.thy ===== *)
theory Host_Primitives
  imports Procfs_Primitives Security_Snapshot
begin

text \<open>
  The collectors that ask the operating system (collectors/primitives_os.go, primitives_disk.go,
  primitives_exec.go, primitives_systemd.go, primitives_file.go, primitives_apt.go): identity,
  disks, commands of the operator, units of systemd, files and pending updates.
\<close>

section \<open>The machine\<close>

text \<open>What these collectors see besides the \<open>host\<close>: the host name, \<open>os.Stat\<close> and
  \<open>filepath.Glob\<close>, and commands with a deadline in nanoseconds, which give an error, if any, and
  the output. The outcomes of network connections are here too: an HTTP exchange with the time it
  took, whether a TCP address accepts a connection, and when the certificates that a TLS server
  presents expire, its own first. The answers are those of one tick.\<close>

record file_info =
  fi_regular :: bool
  fi_size :: int
  fi_mtime :: int

record http_req =
  hq_url :: string
  hq_headers :: "(string \<times> string) list"
  hq_basic :: "(string \<times> string) option"
  hq_deadline :: int
  hq_timeout :: int

record machine =
  ma_host :: host
  ma_hostname :: "string + string"
  ma_stat :: "string \<Rightarrow> io_err + file_info"
  ma_glob :: "string \<Rightarrow> string + string list"
  ma_run :: "string list \<Rightarrow> int \<Rightarrow> string option \<times> string"
  ma_http :: "http_req \<Rightarrow> http_reply \<times> int"
  ma_dial :: "string \<Rightarrow> int \<Rightarrow> int \<Rightarrow> bool"
  ma_tls :: "string \<Rightarrow> string \<Rightarrow> int \<Rightarrow> int \<Rightarrow> string + int list"

text \<open>\<open>Seconds\<close> and \<open>Hours\<close> of a \<open>time.Duration\<close>, for a unit of \<open>u\<close> nanoseconds: the whole units
  and the fraction are added in floating point; both are truncated towards zero.\<close>

definition duration_in :: "int \<Rightarrow> int \<Rightarrow> f64" where
  "duration_in u d =
     f64_add (f64_of_int (go_div d u)) (f64_div (f64_of_int (d - go_div d u * u)) (f64_of_int u))"

section \<open>Identity\<close>

definition os_release_line :: "(string, string) gomap \<Rightarrow> string \<Rightarrow> (string, string) gomap" where
  "os_release_line m line =
     (case cut_at CHR ''='' line of
        None \<Rightarrow> m
      | Some (k, v) \<Rightarrow> AList.update k (trim_char CHR 0x22 v) m)"

definition readOsRelease :: "host \<Rightarrow> string \<Rightarrow> string + (string, string) gomap" where
  "readOsRelease h path =
     result_bind (read_proc h path) (\<lambda>data.
       case scan_lines data of
         None \<Rightarrow> Inl ''token too long''
       | Some ls \<Rightarrow> Inr (foldl os_release_line [] ls))"

text \<open>\<open>m[k]\<close> on a \<open>map[string]string\<close>.\<close>

definition text_at :: "(string, string) gomap \<Rightarrow> string \<Rightarrow> string" where
  "text_at m k = (case map_of m k of None \<Rightarrow> [] | Some v \<Rightarrow> v)"

definition osRelease :: "host \<Rightarrow> gargs \<Rightarrow> string + gval" where
  "osRelease h args =
     result_bind (readOsRelease h ''/etc/os-release'') (\<lambda>m.
       let field = str_arg args ''field'' in
       if field = ''id'' then Inr (VStr (text_at m ''ID''))
       else if field = ''name'' then Inr (VStr (text_at m ''NAME''))
       else if field = [] \<or> field = ''version'' then Inr (VStr (text_at m ''VERSION''))
       else if field = ''version_id'' then Inr (VStr (text_at m ''VERSION_ID''))
       else if field = ''pretty_name'' then Inr (VStr (text_at m ''PRETTY_NAME''))
       else Inl ''unknown field'')"

definition osHostname :: "machine \<Rightarrow> gargs \<Rightarrow> string + gval" where
  "osHostname m args = result_bind (ma_hostname m) (\<lambda>s. Inr (VStr s))"

definition osKernel :: "host \<Rightarrow> gargs \<Rightarrow> string + gval" where
  "osKernel h args =
     result_bind (read_proc h ''/proc/sys/kernel/osrelease'') (\<lambda>d. Inr (VStr (trim_space d)))"

definition osArch :: "host \<Rightarrow> gargs \<Rightarrow> string + gval" where
  "osArch h args =
     Inr (VStr (case ho_arch h of Amd64 \<Rightarrow> ''amd64'' | Arm64 \<Rightarrow> ''arm64''))"

definition rebootRequired :: "machine \<Rightarrow> gargs \<Rightarrow> string + gval" where
  "rebootRequired m args =
     (case ma_stat m ''/var/run/reboot-required'' of
        Inr _ \<Rightarrow> Inr (VBool True)
      | Inl NotExist \<Rightarrow> Inr (VBool False)
      | Inl e \<Rightarrow> Inl (io_text e))"

section \<open>Disks\<close>

definition pseudo_prefixes :: "string list" where
  "pseudo_prefixes =
     [''tmpfs'', ''devtmpfs'', ''overlay'', ''squashfs'', ''udev'', ''proc'', ''sysfs'', ''cgroup'',
      ''efivarfs'', ''debugfs'', ''tracefs'', ''securityfs'', ''pstore'', ''bpf'', ''mqueue'', ''ramfs'']"

definition isPseudoFS :: "string \<Rightarrow> bool" where
  "isPseudoFS device =
     ((\<exists>p\<in>set pseudo_prefixes. has_prefix device p) \<or> device = ''none'')"

record df_row =
  df_mount :: string
  df_used_pct :: f64
  df_total_gb :: int

definition df_line :: "bool \<Rightarrow> string \<Rightarrow> df_row option" where
  "df_line excludePseudo line =
     (let f = str_fields line in
      if length f < 6 \<or> (excludePseudo \<and> isPseudoFS (f ! 0)) then None
      else (case (parse_int (f ! 1), parse_int (f ! 2)) of
              (Some totalKB, Some usedKB) \<Rightarrow>
                Some \<lparr>df_mount = f ! 5,
                      df_used_pct =
                        (if totalKB > 0
                         then roundTo (f64_div (f64_mul (f64_of_int usedKB) (Fin 100)) (f64_of_int totalKB)) 1
                         else Fin 0),
                      df_total_gb = go_div totalKB (1024 * 1024)\<rparr>
            | _ \<Rightarrow> None))"

definition dfRows :: "host \<Rightarrow> bool \<Rightarrow> string + df_row list" where
  "dfRows h excludePseudo =
     result_bind (ho_cmd h [''df'', ''-kP'']) (\<lambda>out.
       let lines = split_on CHR 0x0A (trim_space out) in
       if length lines < 2 then Inl ''df produced no rows''
       else Inr (List.map_filter (df_line excludePseudo) (tl lines)))"

definition df_val :: "df_row \<Rightarrow> gval" where
  "df_val r = VMap [(''mount'', VStr (df_mount r)), (''used_pct'', VFloat (df_used_pct r)),
     (''total_gb'', VInt64 (df_total_gb r))]"

definition diskUsage :: "host \<Rightarrow> gargs \<Rightarrow> string + gval" where
  "diskUsage h args =
     result_bind (dfRows h (bool_arg args ''exclude_pseudo'' True)) (\<lambda>rows.
       let mount = str_arg args ''mount'' in
       if mount \<noteq> [] then
         (case find (\<lambda>r. df_mount r = mount) rows of
            Some r \<Rightarrow> Inr (df_val r) | None \<Rightarrow> Inl ''mount not found in df output'')
       else Inr (VList (map df_val rows)))"

definition max_pct :: "df_row list \<Rightarrow> f64" where
  "max_pct rows = foldl (\<lambda>m r. if f64_less m (df_used_pct r) then df_used_pct r else m) (Fin 0) rows"

definition diskMaxUsedPct :: "host \<Rightarrow> gargs \<Rightarrow> string + gval" where
  "diskMaxUsedPct h args =
     result_bind (dfRows h (bool_arg args ''exclude_pseudo'' True))
       (\<lambda>rows. Inr (VFloat (roundTo (max_pct rows) 1)))"

section \<open>Commands\<close>

definition exec_timeout :: "gargs \<Rightarrow> f64" where
  "exec_timeout args =
     (let t0 = argFloat args ''timeout_sec'' (Fin 5);
          t1 = (if f64_less (Fin 30) t0 then Fin 30 else t0)
      in if f64_less t1 (Fin 1) then Fin 1 else t1)"

definition parse_output :: "host \<Rightarrow> gargs \<Rightarrow> string \<Rightarrow> string + gval" where
  "parse_output h args s =
     (let parse = str_arg args ''parse'' in
      if parse = [] \<or> parse = ''raw'' then Inr (VStr s)
      else if parse = ''trimmed'' then Inr (VStr (trim_space s))
      else if parse = ''int'' then
        (case parse_int (trim_space s) of None \<Rightarrow> Inl ''parse int'' | Some n \<Rightarrow> Inr (VInt64 n))
      else if parse = ''float'' then
        (case ho_float h (trim_space s) of None \<Rightarrow> Inl ''parse float'' | Some x \<Rightarrow> Inr (VFloat x))
      else if parse = ''json'' then
        result_bind (ho_unmarshal h s) (\<lambda>j.
          let path = argString args ''path'' [] in
          Inr (if path \<noteq> [] then jsonPath (json_any j) path else json_any j))
      else Inl ''unknown parse'')"

definition execPrimitive :: "machine \<Rightarrow> gargs \<Rightarrow> string + gval" where
  "execPrimitive m args =
     result_bind (argStringSlice args ''cmd'') (\<lambda>cmd.
       if cmd = [] then Inl ''cmd: at least one argument required''
       else (case ma_run m cmd (duration_s (ho_arch (ma_host m)) (exec_timeout args)) of
               (Some e, _) \<Rightarrow> Inl (hd cmd @ '': '' @ e)
             | (None, out) \<Rightarrow> parse_output (ma_host m) args out))"

definition systemctlIsActive :: "machine \<Rightarrow> gargs \<Rightarrow> string + gval" where
  "systemctlIsActive m args =
     (let unit = str_arg args ''unit'' in
      if unit = [] then Inl ''unit: required''
      else Inr (VBool (trim_space (snd (ma_run m [''systemctl'', ''is-active'', unit] (3 * 1000000000)))
                       = ''active'')))"

definition apt_security_line :: "string \<Rightarrow> bool" where
  "apt_security_line line =
     (has_prefix line ''Inst '' \<and> (str_contains line ''-security'' \<or> str_contains line ''Security''))"

definition aptSecurityCount :: "machine \<Rightarrow> gargs \<Rightarrow> string + gval" where
  "aptSecurityCount m args =
     (case ma_run m [''apt-get'', ''-s'', ''upgrade''] (15 * 1000000000) of
        (Some _, _) \<Rightarrow> Inr (VInt (- 1))
      | (None, out) \<Rightarrow> Inr (VInt (int (length (filter apt_security_line (split_on CHR 0x0A out))))))"

section \<open>Units\<close>

definition parseInt64 :: "string \<Rightarrow> int" where
  "parseInt64 s =
     (let t = trim_space s in
      if t = [] \<or> t = ''[not set]'' \<or> t = ''infinity'' then 0
      else (case parse_int t of None \<Rightarrow> 0 | Some n \<Rightarrow> n))"

definition unit_prop :: "string \<Rightarrow> (string \<times> string) option" where
  "unit_prop line =
     (case cut_at CHR ''='' line of
        None \<Rightarrow> None | Some (k, v) \<Rightarrow> if k = [] then None else Some (k, trim_space v))"

definition unit_line :: "(string, string) gomap \<Rightarrow> string \<Rightarrow> (string, string) gomap" where
  "unit_line m line = (case unit_prop line of None \<Rightarrow> m | Some (k, v) \<Rightarrow> AList.update k v m)"

definition unit_props :: "string list" where
  "unit_props = [''Id'', ''ActiveState'', ''SubState'', ''LoadState'', ''MainPID'',
     ''MemoryCurrent'', ''CPUUsageNSec'', ''NRestarts'']"

definition unit_row :: "string \<Rightarrow> (string, string) gomap \<Rightarrow> gargs" where
  "unit_row unit vs =
     [(''unit'', VStr unit), (''id'', VStr (text_at vs ''Id'')),
      (''active_state'', VStr (text_at vs ''ActiveState'')), (''sub_state'', VStr (text_at vs ''SubState'')),
      (''load_state'', VStr (text_at vs ''LoadState'')),
      (''main_pid'', VInt64 (parseInt64 (text_at vs ''MainPID''))),
      (''memory_mb'', VInt64 (go_div (parseInt64 (text_at vs ''MemoryCurrent'')) (1024 * 1024))),
      (''cpu_ns'', VInt64 (parseInt64 (text_at vs ''CPUUsageNSec''))),
      (''n_restarts'', VInt64 (parseInt64 (text_at vs ''NRestarts'')))]"

definition unit_values :: "string \<Rightarrow> (string, string) gomap" where
  "unit_values raw = foldl unit_line [] (split_on CHR 0x0A (trim_right raw [CHR 0x0A]))"

definition systemdShowOne :: "machine \<Rightarrow> int \<Rightarrow> string \<Rightarrow> string + gargs" where
  "systemdShowOne m deadline unit =
     (case ma_run m [''systemctl'', ''show'', ''-p'', join_with '','' unit_props, ''--'', unit] deadline of
        (Some e, _) \<Rightarrow> Inl (''systemctl show '' @ unit @ '': '' @ e)
      | (None, raw) \<Rightarrow> Inr (unit_row unit (unit_values raw)))"

definition missing_unit :: "string \<Rightarrow> gargs" where
  "missing_unit u =
     [(''unit'', VStr u), (''active_state'', VStr ''unknown''), (''sub_state'', VStr ''unknown''),
      (''load_state'', VStr ''not-found'')]"

definition systemdResources :: "machine \<Rightarrow> gargs \<Rightarrow> string + gval" where
  "systemdResources m args =
     result_bind (argStringSlice args ''units'') (\<lambda>us.
       let deadline = duration_s (ho_arch (ma_host m)) (argFloat args ''timeout_sec'' (Fin 4)) in
       Inr (VList (map (\<lambda>u. VMap (case systemdShowOne m deadline u of
                                    Inl _ \<Rightarrow> missing_unit u | Inr row \<Rightarrow> row)) us)))"

section \<open>Files\<close>

definition file_age :: "host \<Rightarrow> int \<Rightarrow> int" where
  "file_age h mtime = f64_to_int (ho_arch h) (duration_in 1000000000 (time_sub (ho_now h) mtime))"

definition fileStat :: "machine \<Rightarrow> gargs \<Rightarrow> string + gval" where
  "fileStat m args =
     (let path = str_arg args ''path''; field = str_arg args ''field'' in
      if path = [] then Inl ''path: required''
      else (case ma_stat m path of
              Inl NotExist \<Rightarrow>
                if field = [] \<or> field = ''exists'' then Inr (VBool False)
                else if field = ''size_bytes'' \<or> field = ''mtime_seconds'' \<or> field = ''age_seconds''
                then Inr (VInt64 (- 1)) else Inl (io_text NotExist)
            | Inl e \<Rightarrow> Inl (io_text e)
            | Inr info \<Rightarrow>
                if field = [] \<or> field = ''exists'' then Inr (VBool True)
                else if field = ''size_bytes'' then Inr (VInt64 (fi_size info))
                else if field = ''mtime_seconds'' then Inr (VInt64 (fi_mtime info div 1000000000))
                else if field = ''age_seconds'' then Inr (VInt64 (file_age (ma_host m) (fi_mtime info)))
                else Inl ''unknown field''))"

definition newer :: "(string \<Rightarrow> io_err + file_info) \<Rightarrow> int option \<Rightarrow> string \<Rightarrow> int option" where
  "newer stat newest f =
     (case stat f of
        Inl _ \<Rightarrow> newest
      | Inr info \<Rightarrow>
          if \<not> fi_regular info then newest
          else (case newest of
                  None \<Rightarrow> Some (fi_mtime info)
                | Some t \<Rightarrow> if fi_mtime info > t then Some (fi_mtime info) else newest))"

definition fileNewestAgeSeconds :: "machine \<Rightarrow> gargs \<Rightarrow> string + gval" where
  "fileNewestAgeSeconds m args =
     (let pattern = str_arg args ''glob'' in
      if pattern = [] then Inl ''glob: required''
      else result_bind (ma_glob m pattern) (\<lambda>matches.
        case foldl (newer (ma_stat m)) None matches of
          None \<Rightarrow> Inr (VInt64 (- 1))
        | Some t \<Rightarrow>
            let age = file_age (ma_host m) t in Inr (VInt64 (if age < 0 then 0 else age))))"

section \<open>Facts\<close>

text \<open>Rounding to tenths twice is rounding once.\<close>

lemma f64_round_abs:
  assumes "f64_round r = Fin v"
  shows "\<bar>v - r\<bar> \<le> max \<bar>r\<bar> tiny * pow2 (- 52)"
proof (cases "r = 0")
  case True
  then show ?thesis using assms by (simp add: f64_round_def tiny_def)
next
  case False
  then have "v = of_int (round_half_even (r / ulp r)) * ulp r"
    using assms by (simp add: f64_round_def Let_def split: if_splits)
  moreover have "ulp r / 2 \<le> ulp r" using ulp_pos [of r] by linarith
  ultimately show ?thesis using rounded_near [of r] ulp_le [OF False] by linarith
qed

lemma tenth_bounds:
  assumes "f64_round (of_int k / 10) = Fin v" "0 \<le> v" "v \<le> 100"
  shows "0 \<le> k" "k \<le> 2000"
proof -
  let ?r = "rat_of_int k / 10"
  have "\<bar>v - ?r\<bar> \<le> max \<bar>?r\<bar> tiny * pow2 (- 52)" using f64_round_abs [OF assms(1)] .
  also have "\<dots> \<le> max \<bar>?r\<bar> (1 / 100) * (1 / 2)"
  proof (intro mult_mono)
    have "tiny \<le> 1 / 100" unfolding tiny_def by (simp add: pow2_def)
    then show "max \<bar>?r\<bar> tiny \<le> max \<bar>?r\<bar> (1 / 100)" by auto
  qed (auto simp: pow2_def)
  finally have n: "\<bar>v - ?r\<bar> \<le> max \<bar>?r\<bar> (1 / 100) / 2" by simp
  show "0 \<le> k"
  proof (rule ccontr)
    assume "\<not> 0 \<le> k"
    then have "k \<le> - 1" by simp
    then have "rat_of_int k \<le> rat_of_int (- 1)" by (simp only: of_int_le_iff)
    then have "?r \<le> - 1 / 10" by simp
    with n assms(2) show False by (auto simp: max_def abs_if split: if_splits)
  qed
  then have "0 \<le> ?r" by simp
  then have "?r \<le> 200" using n assms(3) by (auto simp: max_def abs_if split: if_splits)
  then have "rat_of_int k \<le> rat_of_int 2000" by simp
  then show "k \<le> 2000" by (simp only: of_int_le_iff)
qed

lemma roundTo_tenths:
  assumes "roundTo x 1 = Fin v"
  shows "\<exists>k. f64_round (of_int k / 10) = Fin v"
proof -
  obtain a where a: "x = Fin a" using assms by (cases x) (auto simp: roundTo_def f64_inf_def)
  obtain y where y: "f64_round (a * 10) = Fin y"
    using assms by (cases "f64_round (a * 10)") (simp_all add: a roundTo_def f64_inf_def)
  obtain k where "math_round (Fin y) = Fin (of_int k)"
    by (cases "0 \<le> y") (simp_all flip: of_int_minus)
  with y assms have "f64_round (of_int k / 10) = Fin v" by (simp add: a roundTo_def del: math_round.simps)
  then show ?thesis by blast
qed

lemma roundTo_again:
  assumes "roundTo x 1 = Fin v" "0 \<le> v" "v \<le> 100"
  shows "roundTo (Fin v) 1 = Fin v"
proof -
  obtain k where k: "f64_round (of_int k / 10) = Fin v" using roundTo_tenths [OF assms(1)] by blast
  note b = tenth_bounds [OF k assms(2,3)]
  have "0 \<le> rat_of_int k / 10" "rat_of_int k / 10 \<le> 2000" using b by simp_all
  from round_near [OF this] k have v: "of_int k / 10 - 1 / 1000 \<le> v" "v \<le> of_int k / 10 + 1 / 1000"
    by auto
  have "0 \<le> v * 10" "v * 10 \<le> 2000" using assms(2,3) by simp_all
  from round_near [OF this] obtain m where m: "f64_round (v * 10) = Fin m"
    "v * 10 - 1 / 1000 \<le> m" "m \<le> v * 10 + 1 / 1000" by blast
  have "\<lfloor>m + 1 / 2\<rfloor> = k" using m v by (simp add: floor_eq_iff)
  moreover have "0 \<le> m" using f64_round_nonneg [OF _ m(1)] assms(2) by simp
  ultimately show ?thesis using m(1) k by (simp add: roundTo_def)
qed

text \<open>The largest percentage of the rows.\<close>

lemma max_pct_fold:
  assumes "\<forall>r\<in>set rows. \<exists>p. df_used_pct r = Fin p"
  shows "\<exists>M. foldl (\<lambda>m r. if f64_less m (df_used_pct r) then df_used_pct r else m) (Fin b) rows = Fin M \<and>
    b \<le> M \<and> (\<forall>r\<in>set rows. \<exists>p. df_used_pct r = Fin p \<and> p \<le> M) \<and>
    (M = b \<or> (\<exists>r\<in>set rows. df_used_pct r = Fin M))"
  using assms
proof (induction rows arbitrary: b)
  case (Cons r rows)
  then obtain p where p: "df_used_pct r = Fin p" by auto
  from Cons.IH [of "max b p"] Cons.prems obtain M where
    "foldl (\<lambda>m r. if f64_less m (df_used_pct r) then df_used_pct r else m) (Fin (max b p)) rows = Fin M"
    "max b p \<le> M" "\<forall>r\<in>set rows. \<exists>p. df_used_pct r = Fin p \<and> p \<le> M"
    "M = max b p \<or> (\<exists>r\<in>set rows. df_used_pct r = Fin M)" by auto
  then show ?case using p by (intro exI [of _ M]) (auto simp: max_def split: if_splits)
qed simp

lemma pct_finite:
  assumes "\<bar>used\<bar> \<le> 2 ^ 64" "\<bar>tot\<bar> \<le> 2 ^ 64" "tot \<noteq> 0"
  shows "\<exists>p. roundTo (f64_div (f64_mul (f64_of_int used) (Fin 100)) (f64_of_int tot)) 1 = Fin p \<and>
    \<bar>p\<bar> \<le> 2 ^ 200"
proof -
  obtain u where u: "f64_of_int used = Fin u" "\<bar>u\<bar> \<le> 2 ^ 66"
    using f64_of_int_finite [OF assms(1)] by blast
  obtain t where t: "f64_of_int tot = Fin t" "\<bar>t - of_int tot\<bar> \<le> \<bar>of_int tot\<bar> / 2"
    using f64_of_int_near [OF assms(2)] by blast
  have "1 \<le> \<bar>rat_of_int tot\<bar>" using assms(3) by (simp flip: of_int_abs)
  then have a: "1 / 2 \<le> \<bar>t\<bar>" using t(2) by linarith
  have "\<bar>u * 100\<bar> \<le> 2 ^ 100" using u(2) by (simp add: abs_mult)
  then obtain m where m: "f64_mul (Fin u) (Fin 100) = Fin m" "\<bar>m\<bar> \<le> 2 ^ 102"
    using f64_mul_finite [of u 100] by fastforce
  have "\<bar>m / \<bar>t\<bar>\<bar> \<le> 2 * 2 ^ 102" using m a by (intro abs_div_half) auto
  then have "\<bar>m / t\<bar> \<le> 2 * 2 ^ 102" by (simp add: abs_divide)
  then obtain q where q: "f64_div (Fin m) (Fin t) = Fin q" "\<bar>q\<bar> \<le> 2 ^ 110"
    using f64_div_finite [of t m] a by fastforce
  have "\<bar>q\<bar> \<le> 2 ^ 900" using q(2) by simp
  from roundTo_bounded [OF this, of 1] obtain p where "roundTo (Fin q) 1 = Fin p" "\<bar>p\<bar> \<le> 400 * \<bar>q\<bar> + 5"
    by auto
  with u t m q show ?thesis by simp
qed

lemma df_line_finite: "df_line b l = Some r \<Longrightarrow> \<exists>p. df_used_pct r = Fin p \<and> \<bar>p\<bar> \<le> 2 ^ 200"
proof -
  assume "df_line b l = Some r"
  then obtain tot used where i: "parse_int (str_fields l ! 1) = Some tot" "parse_int (str_fields l ! 2) = Some used"
    and r: "df_used_pct r =
      (if tot > 0 then roundTo (f64_div (f64_mul (f64_of_int used) (Fin 100)) (f64_of_int tot)) 1 else Fin 0)"
    by (auto simp: df_line_def Let_def split: if_splits option.splits)
  have "\<bar>tot\<bar> \<le> 2 ^ 64" "\<bar>used\<bar> \<le> 2 ^ 64"
    using parse_int_range [OF i(1)] parse_int_range [OF i(2)] by auto
  then show ?thesis using pct_finite [of used tot] r by auto
qed

lemma dfRows_line: "dfRows h b = Inr rows \<Longrightarrow> r \<in> set rows \<Longrightarrow> \<exists>l. df_line b l = Some r"
  by (auto simp: dfRows_def result_bind_Inr_iff List.map_filter_def Let_def split: if_splits) blast

lemma dfRows_finite:
  "dfRows h b = Inr rows \<Longrightarrow> \<forall>r\<in>set rows. \<exists>p. df_used_pct r = Fin p \<and> \<bar>p\<bar> \<le> 2 ^ 200"
  using dfRows_line df_line_finite by blast

lemma df_line_tenths: "df_line b l = Some r \<Longrightarrow> df_used_pct r = Fin M \<Longrightarrow> \<exists>x. roundTo x 1 = Fin M"
  using roundTo_zero [of 1]
  by (auto simp: df_line_def Let_def simp del: One_nat_def roundTo_zero split: if_splits option.splits)

text \<open>The values of a unit.\<close>

lemma map_of_unit_fold:
  "map_of (foldl unit_line [] ls) = map_of (rev (List.map_filter unit_prop ls))"
proof (induction ls rule: rev_induct)
  case (snoc l ls)
  then show ?case
    by (auto simp: unit_line_def List.map_filter_def fun_eq_iff split: option.splits)
qed (simp add: List.map_filter_def)

text \<open>A duration in units of \<open>u\<close> is close to the exact quotient.\<close>

lemma go_div_bounds:
  assumes "0 < u"
  shows "\<bar>d - go_div d u * u\<bar> < u" "\<bar>go_div d u\<bar> * u \<le> \<bar>d\<bar>"
proof -
  have m: "0 \<le> x - x div u * u" "x - x div u * u < u" for x
    using assms by (simp_all add: minus_div_mult_eq_mod)
  show "\<bar>d - go_div d u * u\<bar> < u" using m [of d] m [of "- d"] by (simp add: go_div_def abs_if)
  have "\<bar>go_div d u\<bar> = \<bar>d\<bar> div u"
    using assms pos_imp_zdiv_nonneg_iff [OF assms, of d] pos_imp_zdiv_nonneg_iff [OF assms, of "- d"]
    by (cases "0 \<le> d") (simp_all add: go_div_def)
  then show "\<bar>go_div d u\<bar> * u \<le> \<bar>d\<bar>" using m [of "\<bar>d\<bar>"] by simp
qed

lemma duration_in_near:
  assumes "0 < u" "u < 2 ^ 50" "\<bar>d\<bar> \<le> 2 ^ 22 * u"
  shows "\<exists>v. duration_in u d = Fin v \<and> \<bar>v - of_int d / of_int u\<bar> \<le> 1 / 2 ^ 30"
proof -
  define q r where "q = go_div d u" and "r = d - q * u"
  have rb: "\<bar>r\<bar> < u" unfolding r_def q_def by (rule go_div_bounds(1) [OF assms(1)])
  have "\<bar>q\<bar> * u \<le> 2 ^ 22 * u"
    unfolding q_def by (rule order_trans [OF go_div_bounds(2) [OF assms(1)] assms(3)])
  then have qb: "\<bar>q\<bar> \<le> 2 ^ 22" using assms(1) mult_le_cancel_right_pos by blast
  have exact: "f64_of_int q = Fin (of_int q)" "f64_of_int u = Fin (of_int u)" "f64_of_int r = Fin (of_int r)"
    using assms qb rb by (simp_all add: f64_of_int_def f64_round_int)
  define f where "f = rat_of_int r / of_int u"
  have "\<bar>rat_of_int r\<bar> \<le> of_int u" using rb by (simp flip: of_int_abs)
  then have f: "\<bar>f\<bar> \<le> 1" using assms(1) by (simp add: abs_divide f_def)
  then have "\<bar>f\<bar> \<le> 2 ^ 80" by (rule order_trans) simp
  from f64_round_near [OF this] obtain x where x: "f64_round f = Fin x"
    "\<bar>x - f\<bar> \<le> max \<bar>f\<bar> tiny * pow2 (- 53)" by blast
  have "max \<bar>f\<bar> tiny * pow2 (- 53) \<le> 1 * (1 / 2 ^ 53)"
    using f tiny_le_1 by (intro mult_mono) (auto simp: pow2_def)
  with x(2) have x2: "\<bar>x - f\<bar> \<le> 1 / 2 ^ 53" by simp
  have "\<bar>rat_of_int q\<bar> \<le> rat_of_int (2 ^ 22)" using qb by (simp only: of_int_abs [symmetric] of_int_le_iff)
  then have s: "\<bar>of_int q + x\<bar> \<le> 2 ^ 22 + 2" using x2 f unfolding abs_le_iff by simp
  then have "\<bar>of_int q + x\<bar> \<le> 2 ^ 80" by (rule order_trans) simp
  from f64_round_near [OF this] obtain y where y: "f64_round (of_int q + x) = Fin y"
    "\<bar>y - (of_int q + x)\<bar> \<le> max \<bar>of_int q + x\<bar> tiny * pow2 (- 53)" by blast
  have "max \<bar>of_int q + x\<bar> tiny * pow2 (- 53) \<le> (2 ^ 22 + 2) * (1 / 2 ^ 53)"
    using s tiny_le_1 by (intro mult_mono) (auto simp: pow2_def)
  with y(2) have "\<bar>y - (of_int q + x)\<bar> \<le> (2 ^ 22 + 2) * (1 / 2 ^ 53)" by (rule order_trans)
  moreover have "rat_of_int d / of_int u = of_int q + f"
    using assms(1) by (simp add: r_def f_def field_simps)
  ultimately have "\<bar>y - of_int d / of_int u\<bar> \<le> 1 / 2 ^ 30" using x2 unfolding abs_le_iff by simp
  moreover have "duration_in u d = Fin y"
    unfolding duration_in_def q_def [symmetric] r_def [symmetric] exact using assms(1) x(1) y(1) by (simp add: f_def)
  ultimately show ?thesis by blast
qed

text \<open>An age between minus one and minus two seconds.\<close>

lemma future_seconds:
  assumes "1000000000 \<le> d" "d < 2000000000"
  shows "\<exists>v. duration_in 1000000000 (- d) = Fin v \<and> - 2 < v \<and> v \<le> - 1"
proof (cases "d = 1000000000")
  case True
  then show ?thesis
    using f64_round_int [of "- 1"] f64_round_int [of 1000000000]
    by (simp add: duration_in_def go_div_def f64_of_int_def)
next
  case False
  have "\<bar>- d\<bar> \<le> 2 ^ 22 * 1000000000" using assms by simp
  from duration_in_near [OF _ _ this] obtain v where v: "duration_in 1000000000 (- d) = Fin v"
    "\<bar>v - of_int (- d) / of_int 1000000000\<bar> \<le> 1 / 2 ^ 30" by auto
  have "1000000001 \<le> rat_of_int d" "rat_of_int d \<le> 1999999999"
    using assms False of_int_le_iff [of 1000000001 d, where ?'a = rat]
      of_int_le_iff [of d 1999999999, where ?'a = rat] by simp_all
  moreover have "v \<le> - of_int d / 1000000000 + 1 / 2 ^ 30" "- of_int d / 1000000000 - 1 / 2 ^ 30 \<le> v"
    using v(2) unfolding abs_le_iff by simp_all
  ultimately show ?thesis using v(1) by simp
qed

text \<open>The newest of the regular files.\<close>

definition regular_mtime :: "(string \<Rightarrow> io_err + file_info) \<Rightarrow> string \<Rightarrow> int option" where
  "regular_mtime stat f =
     (case stat f of Inl _ \<Rightarrow> None | Inr i \<Rightarrow> if fi_regular i then Some (fi_mtime i) else None)"

definition regular_mtimes :: "(string \<Rightarrow> io_err + file_info) \<Rightarrow> string list \<Rightarrow> int list" where
  "regular_mtimes stat fs = List.map_filter (regular_mtime stat) fs"

lemma newer_mtime:
  "newer stat t f =
     (case regular_mtime stat f of
        None \<Rightarrow> t | Some x \<Rightarrow> Some (case t of None \<Rightarrow> x | Some t0 \<Rightarrow> max x t0))"
  by (auto simp: newer_def regular_mtime_def max_def split: sum.splits option.splits)

lemma map_filter_snoc:
  "List.map_filter f (xs @ [x]) = List.map_filter f xs @ (case f x of None \<Rightarrow> [] | Some y \<Rightarrow> [y])"
  by (simp add: List.map_filter_def split: option.splits)

lemma newest_fold:
  "foldl (newer stat) None fs =
     (if regular_mtimes stat fs = [] then None else Some (Max (set (regular_mtimes stat fs))))"
proof (induction fs rule: rev_induct)
  case (snoc f fs)
  then show ?case
    by (simp add: newer_mtime regular_mtimes_def map_filter_snoc max.commute split: option.splits)
qed (simp add: regular_mtimes_def List.map_filter_def)

section \<open>Properties\<close>

text \<open>C36: the headline of the disks is the worst mount of the list: no mount is fuller, and up to
  100 % it is exactly the number of a mount in the list, or 0.\<close>

theorem disk_headline_worst_mount:
  assumes "diskUsage h args = Inr (VList vs)"
  shows "\<exists>M H. diskMaxUsedPct h args = Inr (VFloat (Fin H)) \<and>
    (\<forall>v\<in>set vs. \<exists>row p. v = VMap row \<and> gget row ''used_pct'' = VFloat (Fin p) \<and> p \<le> M) \<and>
    (M = 0 \<or> (\<exists>row. VMap row \<in> set vs \<and> gget row ''used_pct'' = VFloat (Fin M))) \<and>
    (M \<le> 100 \<longrightarrow> H = M)"
proof -
  obtain rows where rows: "dfRows h (bool_arg args ''exclude_pseudo'' True) = Inr rows"
    and vs: "vs = map df_val rows"
    using assms by (auto simp: diskUsage_def result_bind_Inr_iff df_val_def Let_def
        split: if_splits option.splits)
  note fin = dfRows_finite [OF rows]
  then have "\<forall>r\<in>set rows. \<exists>p. df_used_pct r = Fin p" by blast
  from max_pct_fold [OF this, of 0] obtain M where M: "max_pct rows = Fin M" "0 \<le> M"
    "\<forall>r\<in>set rows. \<exists>p. df_used_pct r = Fin p \<and> p \<le> M"
    "M = 0 \<or> (\<exists>r\<in>set rows. df_used_pct r = Fin M)"
    unfolding max_pct_def by blast
  then have "\<bar>M\<bar> \<le> 2 ^ 200" using fin by fastforce
  then have "\<bar>M\<bar> \<le> 2 ^ 900" by (rule order_trans) simp
  from roundTo_finite [OF this, of 1] obtain H where H: "roundTo (Fin M) 1 = Fin H" by auto
  have "H = M" if "M \<le> 100"
  proof (cases "M = 0")
    case False
    then obtain x where "roundTo x 1 = Fin M"
      using M(4) dfRows_line [OF rows] df_line_tenths by blast
    with roundTo_again [OF _ M(2) that] have "roundTo (Fin M) 1 = Fin M" .
    with H show ?thesis by (simp del: One_nat_def)
  qed (use H in simp)
  moreover have "\<exists>row p. v = VMap row \<and> gget row ''used_pct'' = VFloat (Fin p) \<and> p \<le> M" if "v \<in> set vs" for v
    using that M(3) by (auto simp: vs df_val_def gget_def)
  moreover have "M = 0 \<or> (\<exists>row. VMap row \<in> set vs \<and> gget row ''used_pct'' = VFloat (Fin M))"
    using M(4) by (auto simp: vs df_val_def gget_def image_iff)
  moreover have "diskMaxUsedPct h args = Inr (VFloat (Fin H))"
    using H by (simp add: diskMaxUsedPct_def rows M(1))
  ultimately show ?thesis by blast
qed

text \<open>The row of a unit does not depend on the order in which \<open>systemctl show\<close> prints the
  properties: each is looked up by its name.\<close>

lemma unit_row_order_free:
  assumes "mset (split_on CHR 0x0A (trim_right raw [CHR 0x0A])) =
      mset (split_on CHR 0x0A (trim_right raw' [CHR 0x0A]))"
    and "distinct (map fst (List.map_filter unit_prop (split_on CHR 0x0A (trim_right raw [CHR 0x0A]))))"
    and "ma_run m [''systemctl'', ''show'', ''-p'', join_with '','' unit_props, ''--'', u] t = (None, raw)"
    and "ma_run m' [''systemctl'', ''show'', ''-p'', join_with '','' unit_props, ''--'', u] t' = (None, raw')"
  shows "systemdShowOne m t u = systemdShowOne m' t' u"
proof -
  let ?ps = "\<lambda>raw. List.map_filter unit_prop (split_on CHR 0x0A (trim_right raw [CHR 0x0A]))"
  have ms: "mset (?ps raw) = mset (?ps raw')"
    using assms(1) by (simp add: List.map_filter_def)
  then have "mset (map fst (?ps raw)) = mset (map fst (?ps raw'))" by simp
  then have "distinct (map fst (?ps raw'))" using assms(2) mset_eq_imp_distinct_iff by blast
  then have "map_of (rev (?ps raw)) = map_of (rev (?ps raw'))"
    using assms(2) mset_eq_setD [OF ms] by (intro map_of_inject_set [THEN iffD2]) (auto simp: rev_map [symmetric])
  then show ?thesis
    by (simp add: systemdShowOne_def assms(3,4) unit_row_def text_at_def unit_values_def map_of_unit_fold)
qed

text \<open>The newest-file collector reports the age of the newest regular file among the matches,
  in whatever order the file system lists them, never a negative one; -1 says that there is none.\<close>

lemma newest_file_age:
  assumes "str_arg args ''glob'' \<noteq> []" "ma_glob m (str_arg args ''glob'') = Inr matches"
  shows "fileNewestAgeSeconds m args =
    Inr (VInt64 (if regular_mtimes (ma_stat m) matches = [] then - 1
                 else max 0 (file_age (ma_host m) (Max (set (regular_mtimes (ma_stat m) matches))))))"
  using assms by (simp add: fileNewestAgeSeconds_def Let_def newest_fold)

text \<open>\<open>age_seconds\<close> of \<open>file.stat\<close> has no such guard: a file that is dated between one and
  two seconds into the future looks exactly like a missing one.\<close>

lemma future_file_looks_missing:
  assumes "str_arg args ''path'' = p" "p \<noteq> []" "str_arg args ''field'' = ''age_seconds''"
    and "ma_stat m p = Inr info" "ma_stat m' p = Inl NotExist"
    and "1000000000 \<le> fi_mtime info - ho_now (ma_host m)" "fi_mtime info - ho_now (ma_host m) < 2000000000"
  shows "fileStat m args = fileStat m' args"
proof -
  obtain v where v: "duration_in 1000000000 (- (fi_mtime info - ho_now (ma_host m))) = Fin v" "- 2 < v" "v \<le> - 1"
    using future_seconds [OF assms(6,7)] by blast
  have "time_sub (ho_now (ma_host m)) (fi_mtime info) = - (fi_mtime info - ho_now (ma_host m))"
    using assms(6,7) by (simp add: time_sub_def min_int64_def max_int64_def)
  moreover have "\<lceil>v\<rceil> = - 1" using v by (simp add: ceiling_eq_iff)
  ultimately have "file_age (ma_host m) (fi_mtime info) = - 1"
    using v by (simp add: file_age_def rat_trunc_def min_int64_def max_int64_def)
  then show ?thesis using assms by (simp add: fileStat_def Let_def)
qed

section \<open>A concrete machine\<close>

definition demo_df :: string where
  "demo_df = ''Filesystem 1024-blocks Used Available Capacity Mounted'' @ [CHR 0x0A] @
     ''/dev/sda1 1000 420 580 42% /'' @ [CHR 0x0A] @ ''tmpfs 1000 990 10 99% /run'' @ [CHR 0x0A]"

definition show_lines :: "string list \<Rightarrow> string" where
  "show_lines ls = join_with [CHR 0x0A] ls"

definition demo_machine :: "string \<Rightarrow> machine" where
  "demo_machine shown =
     \<lparr>ma_host = (demo_host 0 (\<lambda>_. Inl NotExist))\<lparr>ho_cmd := (\<lambda>_. Inr demo_df)\<rparr>,
      ma_hostname = Inr ''srv'',
      ma_stat = (\<lambda>p. if p = ''/b/1'' then Inr \<lparr>fi_regular = True, fi_size = 1, fi_mtime = - 60000000000\<rparr>
                      else if p = ''/b/2'' then Inr \<lparr>fi_regular = True, fi_size = 1, fi_mtime = 1200000000\<rparr>
                      else if p = ''/b/d'' then Inr \<lparr>fi_regular = False, fi_size = 1, fi_mtime = 0\<rparr>
                      else Inl NotExist),
      ma_glob = (\<lambda>_. Inr [''/b/d'', ''/b/1'', ''/b/gone'']), ma_run = (\<lambda>_ _. (None, shown)),
      ma_http = (\<lambda>_. (NoResponse ''refused'', 2000000)), ma_dial = (\<lambda>_ _ _. False),
      ma_tls = (\<lambda>_ _ _ _. Inl ''refused'')\<rparr>"

theorem disk_headline_worst_mount_witness:
  "\<exists>vs H. diskUsage (ma_host (demo_machine [])) [] = Inr (VList vs) \<and>
     diskMaxUsedPct (ma_host (demo_machine [])) [] = Inr (VFloat (Fin H))"
proof -
  have "\<exists>rows. dfRows (ma_host (demo_machine [])) True = Inr rows"
  proof -
    have "\<not> length (split_on CHR 0x0A (trim_space demo_df)) < 2"
      unfolding demo_df_def by code_simp
    then show ?thesis by (simp add: dfRows_def demo_machine_def Let_def)
  qed
  then obtain vs where "diskUsage (ma_host (demo_machine [])) [] = Inr (VList vs)"
    by (auto simp: diskUsage_def str_arg_def bool_arg_def)
  with disk_headline_worst_mount [OF this] show ?thesis by blast
qed

lemma unit_row_order_free_witness:
  "systemdShowOne (demo_machine (show_lines [''MainPID=7'', ''Id=x''])) 0 ''x'' =
   systemdShowOne (demo_machine (show_lines [''Id=x'', ''MainPID=7''])) 0 ''x''"
proof (rule unit_row_order_free)
  show "mset (split_on CHR 0x0A (trim_right (show_lines [''MainPID=7'', ''Id=x'']) [CHR 0x0A])) =
      mset (split_on CHR 0x0A (trim_right (show_lines [''Id=x'', ''MainPID=7'']) [CHR 0x0A]))"
    by (simp add: show_lines_def trim_right_def)
  show "distinct (map fst (List.map_filter unit_prop
      (split_on CHR 0x0A (trim_right (show_lines [''MainPID=7'', ''Id=x'']) [CHR 0x0A]))))"
    by (simp add: show_lines_def trim_right_def unit_prop_def cut_at_def List.map_filter_simps)
qed (simp_all add: demo_machine_def)

lemma newest_file_age_witness:
  "fileNewestAgeSeconds (demo_machine []) [(''glob'', VStr ''/b/*'')] =
     Inr (VInt64 (max 0 (file_age (ma_host (demo_machine [])) (- 60000000000))))"
  using newest_file_age [of "[(''glob'', VStr ''/b/*'')]" "demo_machine []" "[''/b/d'', ''/b/1'', ''/b/gone'']"]
  by (simp add: demo_machine_def str_arg_def gget_def regular_mtimes_def regular_mtime_def
      List.map_filter_simps)

lemma future_file_looks_missing_witness:
  "fileStat (demo_machine []) [(''path'', VStr ''/b/2''), (''field'', VStr ''age_seconds'')] =
   fileStat ((demo_machine [])\<lparr>ma_stat := (\<lambda>_. Inl NotExist)\<rparr>)
     [(''path'', VStr ''/b/2''), (''field'', VStr ''age_seconds'')]"
  by (rule future_file_looks_missing [where p = "''/b/2''" and info = "\<lparr>fi_regular = True, fi_size = 1, fi_mtime = 1200000000\<rparr>"])
    (simp_all add: str_arg_def gget_def demo_machine_def demo_host_def)

end
