(* ===== verification/Net_Primitives.thy ===== *)
theory Net_Primitives
  imports Host_Primitives
begin

text \<open>
  The collectors that ask the network (collectors/primitives_net.go, primitives_http_json.go,
  primitives_tls.go): HTTP probes, JSON endpoints, TCP ports and the expiry of certificates.
\<close>

section \<open>HTTP\<close>

definition probe_agent :: "string \<times> string" where
  "probe_agent = (''User-Agent'', ''iclic-host-agent collector probe'')"

text \<open>\<open>time.Duration((x + 1) * float64(time.Second))\<close>\<close>

definition plus_second :: "goarch \<Rightarrow> f64 \<Rightarrow> int" where
  "plus_second arch x = duration_s arch (f64_add x (Fin 1))"

definition httpProbe :: "machine \<Rightarrow> gargs \<Rightarrow> string + gval" where
  "httpProbe m args =
     (let url = str_arg args ''url''; arch = ho_arch (ma_host m);
          t = argFloat args ''timeout_sec'' (Fin 5) in
      if url = [] then Inl ''url: required''
      else
        let req = \<lparr>hq_url = url, hq_headers = [probe_agent], hq_basic = None,
                   hq_deadline = plus_second arch t, hq_timeout = duration_s arch t\<rparr>;
            latency = go_div (snd (ma_http m req)) 1000000
        in (case fst (ma_http m req) of
              BadRequest e \<Rightarrow> Inl e
            | NoResponse e \<Rightarrow>
                Inr (VMap [(''up'', VBool False), (''latency_ms'', VInt latency), (''status'', VInt 0)])
            | Response status body clean \<Rightarrow>
                let want = f64_to_int arch (argFloat args ''expect_status'' (Fin 0));
                    up = (if want \<noteq> 0 then status = want else status \<ge> 200 \<and> status < 400)
                in Inr (VMap [(''up'', VBool up), (''latency_ms'', VInt latency), (''status'', VInt status)])))"

definition httpGet :: "machine \<Rightarrow> gargs \<Rightarrow> string + gval" where
  "httpGet m args =
     (let url = str_arg args ''url''; arch = ho_arch (ma_host m);
          t = argFloat args ''timeout_sec'' (Fin 3) in
      if url = [] then Inl ''url: required''
      else
        (case fst (ma_http m \<lparr>hq_url = url, hq_headers = [probe_agent], hq_basic = None,
                    hq_deadline = duration_s arch t, hq_timeout = plus_second arch t\<rparr>) of
           BadRequest e \<Rightarrow> Inl e
         | NoResponse e \<Rightarrow> Inl e
         | Response status body clean \<Rightarrow>
             let expect = str_arg args ''expect'' in
             if expect = [] \<or> expect = ''code'' then Inr (VInt status)
             else if expect = ''ok'' then Inr (VBool (status \<ge> 200 \<and> status < 300))
             else Inl ''unknown expect''))"

text \<open>The calls of \<open>Header.Set\<close>, in order; the headers of the configuration come in the order of
  the map.\<close>

definition extra_headers :: "gargs \<Rightarrow> (string \<times> string) list" where
  "extra_headers args =
     (case gget args ''header'' of
        VMap hdr \<Rightarrow> List.map_filter (\<lambda>(k, v). case v of VStr s \<Rightarrow> Some (k, s) | _ \<Rightarrow> None) hdr
      | _ \<Rightarrow> [])"

definition json_request :: "goarch \<Rightarrow> gargs \<Rightarrow> http_req" where
  "json_request arch args =
     (let t = duration_s arch (argFloat args ''timeout_sec'' (Fin 4));
          user = argString args ''basic_user'' []
      in \<lparr>hq_url = argString args ''url'' [],
          hq_headers = [probe_agent, (''Accept'', ''application/json'')] @ extra_headers args,
          hq_basic = (if user \<noteq> [] then Some (user, argString args ''basic_pass'' []) else None),
          hq_deadline = t, hq_timeout = wrap64 (t + 1000000000)\<rparr>)"

definition httpGetJSON :: "machine \<Rightarrow> gargs \<Rightarrow> string + gval" where
  "httpGetJSON m args =
     (if argString args ''url'' [] = [] then Inl ''url: required''
      else (case fst (ma_http m (json_request (ho_arch (ma_host m)) args)) of
              BadRequest e \<Rightarrow> Inl e
            | NoResponse e \<Rightarrow> Inl e
            | Response status body clean \<Rightarrow>
                if status \<ge> 400 then Inl (''HTTP '' @ itoa status @ '': '' @ trim_space (take 512 body))
                else (case ho_json (ma_host m) (take (2 ^ 20) body) (clean \<or> 2 ^ 20 \<le> length body) of
                        Inl e \<Rightarrow> Inl (''json decode: '' @ e)
                      | Inr j \<Rightarrow>
                          let path = argString args ''path'' [] in
                          Inr (if path = [] then json_any j else jsonPath (json_any j) path))))"

section \<open>TCP and TLS\<close>

definition JoinHostPort :: "string \<Rightarrow> string \<Rightarrow> string" where
  "JoinHostPort host port =
     (if CHR '':'' \<in> set host then ''['' @ host @ '']:'' @ port else host @ '':'' @ port)"

definition tcpConnect :: "machine \<Rightarrow> gargs \<Rightarrow> string + gval" where
  "tcpConnect m args =
     (let host = str_arg args ''host''; arch = ho_arch (ma_host m);
          port = f64_to_int arch (argFloat args ''port'' (Fin 0));
          t = argFloat args ''timeout_sec'' (Fin 2) in
      if host = [] then Inl ''host: required''
      else if port \<le> 0 \<or> port > 65535 then Inl ''port: required, must be 1..65535''
      else Inr (VBool (ma_dial m (JoinHostPort host (itoa port)) (duration_s arch t) (plus_second arch t))))"

definition hour_ns :: int where "hour_ns = 3600 * 1000000000"

definition cert_days :: "goarch \<Rightarrow> int \<Rightarrow> int" where
  "cert_days arch left = f64_to_int arch (f64_div (duration_in hour_ns left) (Fin 24))"

definition sslCertExpiry :: "machine \<Rightarrow> gargs \<Rightarrow> string + gval" where
  "sslCertExpiry m args =
     (let host = str_arg args ''host''; arch = ho_arch (ma_host m);
          port = f64_to_int arch (argFloat args ''port'' (Fin 443));
          name = (if str_arg args ''server_name'' = [] then host else str_arg args ''server_name'');
          t = argFloat args ''timeout_sec'' (Fin 5) in
      if host = [] then Inl ''host: required''
      else if port \<le> 0 \<or> port > 65535 then Inl ''port: must be 1..65535''
      else (case ma_tls m (JoinHostPort host (itoa port)) name (duration_s arch t) (plus_second arch t) of
              Inl e \<Rightarrow> Inl (''tls dial '' @ host @ '': '' @ e)
            | Inr [] \<Rightarrow> Inl ''no peer certificate''
            | Inr (notAfter # _) \<Rightarrow>
                Inr (VInt (cert_days arch (time_sub notAfter (ho_now (ma_host m)))))))"

section \<open>Facts\<close>

text \<open>A value found by a path prints when the document does.\<close>

lemma gget_prints: "gval_prints (VMap m) \<Longrightarrow> gval_prints (gget m k)"
  by (auto simp: gget_def split: option.splits dest!: map_of_SomeD)

lemma json_walk_prints: "gval_prints v \<Longrightarrow> gval_prints (json_walk v segs)"
proof (induction segs arbitrary: v)
  case (Cons s segs)
  show ?case
  proof (cases v)
    case (VMap m)
    with Cons gget_prints [of m s] show ?thesis by (simp add: Let_def)
  next
    case (VList vs)
    have "gval_prints (case parse_int s of None \<Rightarrow> VNil
        | Some i \<Rightarrow> if i < 0 \<or> int (length vs) \<le> i then VNil else vs ! nat i)"
      using Cons.prems VList by (auto split: option.splits)
    with Cons VList show ?thesis by (simp add: Let_def)
  qed (simp_all add: Let_def)
qed simp

lemma jsonPath_prints: "gval_prints v \<Longrightarrow> gval_prints (jsonPath v path)"
  by (simp add: jsonPath_def json_walk_prints)

text \<open>The days of a duration in \<open>int64\<close> nanoseconds.\<close>

lemma cert_days_near:
  assumes "\<bar>left\<bar> \<le> 2 ^ 63"
  shows "\<exists>w. cert_days arch left = rat_trunc w \<and> \<bar>w - of_int left / (24 * of_int hour_ns)\<bar> \<le> 1 / 2 ^ 20"
proof -
  have h: "0 < hour_ns" "hour_ns < 2 ^ 50" "\<bar>left\<bar> \<le> 2 ^ 22 * hour_ns"
    using assms by (simp_all add: hour_ns_def)
  from duration_in_near [OF this] obtain v where v: "duration_in hour_ns left = Fin v"
    "\<bar>v - of_int left / of_int hour_ns\<bar> \<le> 1 / 2 ^ 30" by blast
  define e where "e = rat_of_int left / of_int hour_ns"
  have "\<bar>rat_of_int left\<bar> \<le> rat_of_int (2 ^ 22 * hour_ns)"
    using h(3) by (simp only: of_int_abs [symmetric] of_int_le_iff)
  then have e: "\<bar>e\<bar> \<le> 2 ^ 22" by (simp add: e_def abs_divide hour_ns_def)
  have v24: "\<bar>v / 24 - e / 24\<bar> \<le> 1 / 2 ^ 30" "\<bar>v / 24\<bar> \<le> 2 ^ 20"
    using v(2) e unfolding e_def [symmetric] abs_le_iff by simp_all
  have "\<bar>v / 24\<bar> \<le> 2 ^ 80" using v24(2) by (rule order_trans) simp
  from f64_round_near [OF this] obtain w where w: "f64_round (v / 24) = Fin w"
    "\<bar>w - v / 24\<bar> \<le> max \<bar>v / 24\<bar> tiny * pow2 (- 53)" by blast
  have "max \<bar>v / 24\<bar> tiny * pow2 (- 53) \<le> 2 ^ 20 * (1 / 2 ^ 53)"
    using v24(2) tiny_le_1 by (intro mult_mono) (auto simp: pow2_def)
  with w(2) have w2: "\<bar>w - v / 24\<bar> \<le> 2 ^ 20 * (1 / 2 ^ 53)" by (rule order_trans)
  then have we: "\<bar>w - e / 24\<bar> \<le> 1 / 2 ^ 20" using v24(1) unfolding abs_le_iff by simp
  then have wb: "\<bar>w\<bar> \<le> 2 ^ 22" using e unfolding abs_le_iff by simp
  have "min_int64 \<le> rat_trunc w" "rat_trunc w \<le> max_int64"
    using wb unfolding abs_le_iff rat_trunc_def min_int64_def max_int64_def
    by (simp_all add: le_floor_iff floor_le_iff le_ceiling_iff ceiling_le_iff)
  then have "cert_days arch left = rat_trunc w"
    using w(1) by (simp add: cert_days_def v(1))
  moreover have "e / 24 = of_int left / (24 * of_int hour_ns)" by (simp add: e_def)
  ultimately show ?thesis using we by metis
qed

lemma cert_days_sign:
  assumes "\<bar>left\<bar> \<le> 2 ^ 63"
  shows "cert_days arch left < 0 \<Longrightarrow> left < 0"
    "left \<le> - 25 * hour_ns \<Longrightarrow> cert_days arch left < 0"
    "\<bar>left\<bar> \<le> 23 * hour_ns \<Longrightarrow> cert_days arch left = 0"
proof -
  define e where "e = rat_of_int left / (24 * of_int hour_ns)"
  obtain w where w: "cert_days arch left = rat_trunc w" "\<bar>w - e\<bar> \<le> 1 / 2 ^ 20"
    using cert_days_near [OF assms] unfolding e_def by blast
  have wb: "w \<le> e + 1 / 2 ^ 20" "e - 1 / 2 ^ 20 \<le> w" using w(2) unfolding abs_le_iff by linarith+
  show "left < 0" if "cert_days arch left < 0"
  proof (rule ccontr)
    assume "\<not> left < 0"
    then have "0 \<le> e" by (simp add: e_def hour_ns_def)
    then have "- 1 < w" using wb by simp
    then show False using that w(1) by (auto simp: rat_trunc_def split: if_splits)
  qed
  show "cert_days arch left < 0" if "left \<le> - 25 * hour_ns"
  proof -
    have "rat_of_int left \<le> rat_of_int (- 25 * hour_ns)" using that by (simp only: of_int_le_iff)
    then have "e \<le> - 25 / 24" by (simp add: e_def hour_ns_def)
    then have "w \<le> - 1" using wb by simp
    then show ?thesis using w(1) by (simp add: rat_trunc_def)
  qed
  show "cert_days arch left = 0" if "\<bar>left\<bar> \<le> 23 * hour_ns"
  proof -
    have "rat_of_int left \<le> rat_of_int (23 * hour_ns)" "rat_of_int (- 23 * hour_ns) \<le> rat_of_int left"
      using that unfolding of_int_le_iff by simp_all
    then have "e \<le> 23 / 24" "- 23 / 24 \<le> e" by (simp_all add: e_def hour_ns_def)
    then have "w < 1" "- 1 < w" using wb by simp_all
    then show ?thesis using w(1) by (simp add: rat_trunc_def floor_eq_iff ceiling_eq_iff)
  qed
qed

section \<open>Properties\<close>

text \<open>The sign of the days to the expiry of a certificate: a negative number means that the
  certificate has expired, and one that expired 25 hours ago or earlier is negative; but for the
  first 23 hours after the expiry the number is 0, the same as on the last valid day.\<close>

lemma cert_expiry_sign:
  assumes "sslCertExpiry m args = Inr v"
  shows "\<exists>port name t t' notAfter rest days. 1 \<le> port \<and> port \<le> 65535 \<and>
    ma_tls m (JoinHostPort (str_arg args ''host'') (itoa port)) name t t' = Inr (notAfter # rest) \<and>
    v = VInt days \<and>
    (days < 0 \<longrightarrow> notAfter < ho_now (ma_host m)) \<and>
    (ho_now (ma_host m) - notAfter \<ge> 25 * hour_ns \<longrightarrow> days < 0) \<and>
    (\<bar>ho_now (ma_host m) - notAfter\<bar> \<le> 23 * hour_ns \<longrightarrow> days = 0)"
proof -
  define port where "port = f64_to_int (ho_arch (ma_host m)) (argFloat args ''port'' (Fin 443))"
  obtain name t t' notAfter rest where tls:
    "ma_tls m (JoinHostPort (str_arg args ''host'') (itoa port)) name t t' = Inr (notAfter # rest)"
    and v: "v = VInt (cert_days (ho_arch (ma_host m)) (time_sub notAfter (ho_now (ma_host m))))"
    and port: "1 \<le> port" "port \<le> 65535"
    using assms unfolding port_def
    by (fastforce simp: sslCertExpiry_def Let_def split: if_splits sum.splits list.splits)
  let ?l = "time_sub notAfter (ho_now (ma_host m))"
  have b: "\<bar>?l\<bar> \<le> 2 ^ 63" by (simp add: time_sub_def min_int64_def max_int64_def)
  note s = cert_days_sign [OF b, of "ho_arch (ma_host m)"]
  have "?l < 0 \<Longrightarrow> notAfter < ho_now (ma_host m)"
    "25 * hour_ns \<le> ho_now (ma_host m) - notAfter \<Longrightarrow> ?l \<le> - 25 * hour_ns"
    "\<bar>ho_now (ma_host m) - notAfter\<bar> \<le> 23 * hour_ns \<Longrightarrow> \<bar>?l\<bar> \<le> 23 * hour_ns"
    by (auto simp: time_sub_def min_int64_def max_int64_def hour_ns_def)
  with tls v port s show ?thesis by blast
qed

lemma cert_expiry_sign_witness:
  "\<exists>days. sslCertExpiry ((demo_machine [])\<lparr>ma_tls := (\<lambda>_ _ _ _. Inr [3600 * 1000000000])\<rparr>)
     [(''host'', VStr ''h'')] = Inr (VInt days) \<and> days = 0"
proof -
  let ?m = "(demo_machine [])\<lparr>ma_tls := (\<lambda>_ _ _ _. Inr [3600 * 1000000000])\<rparr>"
  have "\<exists>v. sslCertExpiry ?m [(''host'', VStr ''h'')] = Inr v"
    by (simp add: sslCertExpiry_def str_arg_def gget_def argFloat_def demo_machine_def demo_host_def
        rat_trunc_def min_int64_def max_int64_def)
  then obtain v where "sslCertExpiry ?m [(''host'', VStr ''h'')] = Inr v" by blast
  from this cert_expiry_sign [OF this] show ?thesis
    by (auto simp: hour_ns_def demo_machine_def demo_host_def)
qed

end
