(* ===== verification/Runtime_Services.thy ===== *)
theory Runtime_Services
  imports Docker_Primitives
begin

text \<open>
  The collector \<open>runtime.services\<close> (collectors/primitives_runtime_services.go): the registry of
  services in the arguments, the probe of one service, and what becomes of its signals in the
  heartbeat.
\<close>

section \<open>Configuration\<close>

record runtimeServiceConfig =
  rsc_ProductCode :: string
  rsc_ComponentCode :: string
  rsc_Name :: string
  rsc_Container :: string
  rsc_HealthURL :: string
  rsc_InfoURL :: string
  rsc_Environment :: string
  rsc_InstanceKey :: string
  rsc_Probe :: string
  rsc_VersionPath :: string
  rsc_GitCommitPath :: string
  rsc_ExpectedStatus :: string

definition service_config :: "gargs \<Rightarrow> runtimeServiceConfig" where
  "service_config m =
     \<lparr>rsc_ProductCode = argString m ''product_code'' [],
      rsc_ComponentCode = argString m ''component_code'' [],
      rsc_Name = argString m ''name'' [],
      rsc_Container = argString m ''container'' [],
      rsc_HealthURL = argString m ''health_url'' [],
      rsc_InfoURL = argString m ''info_url'' [],
      rsc_Environment = argString m ''environment'' [],
      rsc_InstanceKey = argString m ''instance_key'' [],
      rsc_Probe = argString m ''probe'' [],
      rsc_VersionPath = argString m ''version_path'' [],
      rsc_GitCommitPath = argString m ''git_commit_path'' [],
      rsc_ExpectedStatus = argString m ''expected_status'' []\<rparr>"

definition service_item :: "gval \<Rightarrow> string + runtimeServiceConfig list" where
  "service_item item =
     (case item of
        VMap m \<Rightarrow>
          (let svc = service_config m
           in if rsc_ProductCode svc = [] \<or> rsc_ComponentCode svc = [] \<or> rsc_HealthURL svc = []
              then Inl ''product_code, component_code and health_url are required'' else Inr [svc])
      | _ \<Rightarrow> Inl ''must be map'')"

definition runtimeServiceConfigs :: "gval \<Rightarrow> string + runtimeServiceConfig list" where
  "runtimeServiceConfigs raw =
     (case raw of VList items \<Rightarrow> collect service_item items | _ \<Rightarrow> Inl ''services: required list'')"

section \<open>Text\<close>

fun firstNonBlank :: "string list \<Rightarrow> string" where
  "firstNonBlank [] = []"
| "firstNonBlank (v # vs) = (if trim_space v \<noteq> [] then trim_space v else firstNonBlank vs)"

text \<open>\<open>fmt.Sprint\<close> of a decoded document; \<open>fmt_float\<close> prints a double.\<close>

fun go_sprint :: "(f64 \<Rightarrow> string) \<Rightarrow> gval \<Rightarrow> string" where
  "go_sprint ff VNil = ''<nil>''"
| "go_sprint ff (VBool b) = (if b then ''true'' else ''false'')"
| "go_sprint ff (VInt i) = itoa i"
| "go_sprint ff (VInt64 i) = itoa i"
| "go_sprint ff (VFloat x) = ff x"
| "go_sprint ff (VStr s) = s"
| "go_sprint ff (VStrs ss) = ''['' @ join_with '' '' ss @ '']''"
| "go_sprint ff (VList vs) = ''['' @ join_with '' '' (map (go_sprint ff) vs) @ '']''"
| "go_sprint ff (VMap es) =
     ''map['' @ join_with '' ''
        (map (\<lambda>e. fst e @ '':'' @ snd e) (sort_key fst (map (\<lambda>e. (fst e, go_sprint ff (snd e))) es))) @ '']''"

fun stringAtPath :: "(f64 \<Rightarrow> string) \<Rightarrow> gval \<Rightarrow> string list \<Rightarrow> string" where
  "stringAtPath ff doc [] = []"
| "stringAtPath ff doc (path # paths) =
     (if path = [] \<or> jsonPath doc path = VNil then stringAtPath ff doc paths
      else let s = trim_space (go_sprint ff (jsonPath doc path))
           in if s \<noteq> [] \<and> s \<noteq> ''<nil>'' then s else stringAtPath ff doc paths)"

section \<open>Probes\<close>

record dockerContainerInspect =
  ci_Status :: string
  ci_Labels :: "(string, string) gomap"

definition dec_inspect :: "dockerContainerInspect decoder" where
  "dec_inspect =
     dec_obj [''State'', ''Config'']
       (\<lambda>n. if n = ''State''
            then dec_obj [''Status''] (\<lambda>_. dec_field ci_Status (\<lambda>x v. v\<lparr>ci_Status := x\<rparr>) dec_str)
            else dec_obj [''Labels''] (\<lambda>_. dec_field ci_Labels (\<lambda>x v. v\<lparr>ci_Labels := x\<rparr>) dec_labels))"

definition dockerContainerState :: "host \<Rightarrow> string \<Rightarrow> string \<Rightarrow> string + dockerContainerInspect" where
  "dockerContainerState h socket container =
     result_bind
       (dockerGet h socket (container_path container ''/json'') dec_inspect \<lparr>ci_Status = [], ci_Labels = []\<rparr>)
       (\<lambda>i. Inr (if ci_Status i = [] then i\<lparr>ci_Status := ''unknown''\<rparr> else i))"

text \<open>A probe gives a document or the text of an error, and the HTTP status.\<close>

type_synonym probe = "(string + gval) \<times> int"

definition probe_doc :: "int \<Rightarrow> string + json \<Rightarrow> probe" where
  "probe_doc status r = (case r of Inl e \<Rightarrow> (Inl e, status) | Inr j \<Rightarrow> (Inr (json_any j), status))"

definition runtimeJSONDockerExec :: "host \<Rightarrow> string \<Rightarrow> string \<Rightarrow> probe" where
  "runtimeJSONDockerExec h container url =
     (if container = [] then (Inl ''container: required for docker_exec probe'', 0)
      else (case ho_cmd h [''docker'', ''exec'', container, ''wget'', ''-qO-'', url] of
              Inl e \<Rightarrow> (Inl (''docker exec '' @ container @ '': '' @ e), 0)
            | Inr out \<Rightarrow> probe_doc 200 (ho_unmarshal h out)))"

definition runtimeJSONGet :: "host \<Rightarrow> string \<Rightarrow> probe" where
  "runtimeJSONGet h url =
     (if url = [] then (Inl ''url: required'', 0)
      else (case ho_get h url of
              BadRequest e \<Rightarrow> (Inl e, 0)
            | NoResponse e \<Rightarrow> (Inl e, 0)
            | Response status body clean \<Rightarrow>
                if status \<ge> 400 then (Inl (''HTTP '' @ itoa status), status)
                else probe_doc status
                       (ho_json h (take (2 ^ 20) body) (clean \<or> 2 ^ 20 \<le> length body))))"

definition runtimeJSONProbe :: "host \<Rightarrow> runtimeServiceConfig \<Rightarrow> string \<Rightarrow> probe" where
  "runtimeJSONProbe h svc url =
     (if rsc_Probe svc = ''docker_exec'' then runtimeJSONDockerExec h (rsc_Container svc) url
      else runtimeJSONGet h url)"

definition runtimeInfoMaxBytes :: nat where "runtimeInfoMaxBytes = 4096"

definition infoWithinEmbedCap :: "host \<Rightarrow> gval \<Rightarrow> gval option" where
  "infoWithinEmbedCap h info =
     (case to_json info of
        None \<Rightarrow> None
      | Some j \<Rightarrow> if length (ho_print h j) > runtimeInfoMaxBytes then None else Some info)"

section \<open>One service\<close>

text \<open>The payload of a signal is a map that the probe keeps filling.\<close>

definition put :: "string \<Rightarrow> gval \<Rightarrow> runtimeSignal \<Rightarrow> runtimeSignal" where
  "put k v s = s\<lparr>rs_Payload := AList.update k v (rs_Payload s)\<rparr>"

definition initial_signal :: "host \<Rightarrow> runtimeServiceConfig \<Rightarrow> runtimeSignal" where
  "initial_signal h svc =
     \<lparr>rs_ProductCode = rsc_ProductCode svc, rs_ComponentCode = rsc_ComponentCode svc,
      rs_InstanceKey = firstNonBlank [rsc_InstanceKey svc, rsc_Container svc, rsc_ComponentCode svc],
      rs_Environment = rsc_Environment svc, rs_Status = ''STALE'', rs_VersionSource = ''HOST_AGENT'',
      rs_RunningVersion = [], rs_BuildRef = [], rs_GitCommit = [], rs_Notes = [],
      rs_Payload = [(''source'', VStr ''host-agent-runtime-services''), (''name'', VStr (rsc_Name svc)),
        (''container'', VStr (rsc_Container svc)), (''probe'', VStr (firstNonBlank [rsc_Probe svc, ''http''])),
        (''checkedAt'', VStr (ho_now_text h))]\<rparr>"

definition label :: "dockerContainerInspect \<Rightarrow> string \<Rightarrow> string" where
  "label i k = trim_space (case map_of (ci_Labels i) k of None \<Rightarrow> [] | Some v \<Rightarrow> v)"

text \<open>The container check: the finished signal (left) or one to go on with (right).\<close>

definition check_container ::
  "host \<Rightarrow> string \<Rightarrow> runtimeServiceConfig \<Rightarrow> runtimeSignal \<Rightarrow> runtimeSignal + runtimeSignal" where
  "check_container h socket svc s =
     (if rsc_Container svc = [] then Inr s
      else (case dockerContainerState h socket (rsc_Container svc) of
              Inl e \<Rightarrow> Inl (put ''error'' (VStr e) (s\<lparr>rs_Notes := e\<rparr>))
            | Inr i \<Rightarrow>
                let s1 = put ''containerState'' (VStr (ci_Status i)) s in
                if ci_Status i \<noteq> ''running'' then Inl (s1\<lparr>rs_Notes := ''container is '' @ ci_Status i\<rparr>)
                else
                  let v = label i ''org.opencontainers.image.version''; rc = label i ''com.icom.image.rc'';
                      s2 = (if v \<noteq> [] then put ''versionFrom'' (VStr ''image-label'') (s1\<lparr>rs_RunningVersion := v\<rparr>)
                            else s1)
                  in Inr (if rc \<noteq> [] then s2\<lparr>rs_BuildRef := rc\<rparr> else s2)))"

definition expected_status :: "runtimeServiceConfig \<Rightarrow> string" where
  "expected_status svc = firstNonBlank [rsc_ExpectedStatus svc, ''UP'']"

definition actual_status :: "host \<Rightarrow> gval \<Rightarrow> string" where
  "actual_status h health = go_sprint (ho_fmt_float h) (jsonPath health ''status'')"

definition check_health :: "host \<Rightarrow> runtimeServiceConfig \<Rightarrow> runtimeSignal \<Rightarrow> runtimeSignal + runtimeSignal" where
  "check_health h svc s =
     (case runtimeJSONProbe h svc (rsc_HealthURL svc) of (r, status) \<Rightarrow>
        let s1 = put ''healthHttpStatus'' (VInt status) s in
        (case r of
           Inl e \<Rightarrow> Inl (put ''error'' (VStr e) (s1\<lparr>rs_Notes := e\<rparr>))
         | Inr health \<Rightarrow>
             let s2 = put ''health'' health s1; actual = actual_status h health in
             if actual \<noteq> expected_status svc
             then Inl (s2\<lparr>rs_Notes := ''actuator health status is '' @ actual\<rparr>) else Inr s2))"

definition add_info :: "host \<Rightarrow> runtimeServiceConfig \<Rightarrow> runtimeSignal \<Rightarrow> runtimeSignal" where
  "add_info h svc s =
     (if rsc_InfoURL svc = [] then s
      else (case runtimeJSONProbe h svc (rsc_InfoURL svc) of (r, status) \<Rightarrow>
        let s1 = put ''infoHttpStatus'' (VInt status) s in
        (case r of
           Inl e \<Rightarrow> put ''infoError'' (VStr e) s1
         | Inr info \<Rightarrow>
             let s2 = (case infoWithinEmbedCap h info of
                         Some v \<Rightarrow> put ''info'' v s1
                       | None \<Rightarrow> put ''infoOmitted'' (VStr ''info document exceeds embed cap'') s1);
                 s3 = (if rs_RunningVersion s2 = []
                       then s2\<lparr>rs_RunningVersion :=
                              stringAtPath (ho_fmt_float h) info [rsc_VersionPath svc, ''app.version'', ''build.version'']\<rparr>
                       else s2)
             in s3\<lparr>rs_GitCommit :=
                   stringAtPath (ho_fmt_float h) info [rsc_GitCommitPath svc, ''git.commit.id'']\<rparr>)))"

definition probeRuntimeService :: "host \<Rightarrow> string \<Rightarrow> runtimeServiceConfig \<Rightarrow> runtimeSignal" where
  "probeRuntimeService h socket svc =
     (case check_container h socket svc (initial_signal h svc) of
        Inl s \<Rightarrow> s
      | Inr s \<Rightarrow>
          (case check_health h svc s of
             Inl s' \<Rightarrow> s'
           | Inr s' \<Rightarrow> (add_info h svc s')\<lparr>rs_Status := ''HEALTHY''\<rparr>))"

text \<open>Each goroutine writes its own slot of the result.\<close>

definition runtimeServices :: "host \<Rightarrow> gargs \<Rightarrow> string + any_val" where
  "runtimeServices h args =
     result_bind (runtimeServiceConfigs (gget args ''services''))
       (\<lambda>svcs. Inr (ASignals (map (probeRuntimeService h (argString args ''socket'' dockerDefaultSocket)) svcs)))"

section \<open>Facts\<close>

text \<open>Documents whose numbers are in the range of a double, as the decoder guarantees.\<close>

fun json_finite :: "json \<Rightarrow> bool" where
  "json_finite (JInt i) = (\<exists>r. f64_of_int i = Fin r)"
| "json_finite (JNum x) = (\<exists>r. x = Fin r)"
| "json_finite (JArr js) = (\<forall>j\<in>set js. json_finite j)"
| "json_finite (JObj es) = (\<forall>e\<in>set es. json_finite (snd e))"
| "json_finite _ = True"

definition docs_finite :: "host \<Rightarrow> bool" where
  "docs_finite h =
     ((\<forall>body clean j. ho_json h body clean = Inr j \<longrightarrow> json_finite j) \<and>
      (\<forall>out j. ho_unmarshal h out = Inr j \<longrightarrow> json_finite j))"

lemma set_update_subset: "set (AList.update k v m) \<subseteq> insert (k, v) (set m)"
  by (induction m) auto

lemma go_map_of_members_set: "set (go_map_of_members es) \<subseteq> set es"
proof (induction es rule: rev_induct)
  case (snoc e es)
  then show ?case
    using set_update_subset [of "fst e" "snd e" "go_map_of_members es"]
    by (cases e) (auto simp: go_map_of_members_snoc)
qed (simp add: go_map_of_members_def)

lemma json_finite_prints: "json_finite j \<Longrightarrow> gval_prints (json_any j)"
proof (induction j)
  case (JObj es)
  have "gval_prints (snd e)" if e: "e \<in> set (map (map_prod id json_any) es)" for e
  proof -
    obtain e0 where "e0 \<in> set es" "e = map_prod id json_any e0" using e by auto
    with JObj show ?thesis by (cases e0) (auto simp: snds.simps)
  qed
  then show ?case
    using go_map_of_members_set [of "map (map_prod id json_any) es"]
    by (simp only: json_any.simps gval_prints_simps) blast
qed (auto simp: gval_prints_VFloat)

lemma probe_doc_prints:
  "(\<And>j. r = Inr j \<Longrightarrow> json_finite j) \<Longrightarrow> fst (probe_doc n r) = Inr v \<Longrightarrow> gval_prints v"
  by (auto simp: probe_doc_def json_finite_prints split: sum.splits)

lemma probe_prints:
  assumes "docs_finite h" "fst (runtimeJSONProbe h svc url) = Inr v"
  shows "gval_prints v"
  using assms probe_doc_prints
  by (auto simp: runtimeJSONProbe_def runtimeJSONDockerExec_def runtimeJSONGet_def docs_finite_def
      split: if_splits sum.splits http_reply.splits) (metis probe_doc_prints)+

text \<open>What the stages of a probe keep: the identity of the service, a status of the two, and a
  payload that prints.\<close>

definition signal_ok :: "host \<Rightarrow> runtimeServiceConfig \<Rightarrow> runtimeSignal \<Rightarrow> bool" where
  "signal_ok h svc s =
     (rs_ProductCode s = rsc_ProductCode svc \<and> rs_ComponentCode s = rsc_ComponentCode svc \<and>
      rs_Status s = ''STALE'' \<and> (\<forall>e\<in>set (rs_Payload s). gval_prints (snd e)))"

lemma signal_ok_put: "signal_ok h svc s \<Longrightarrow> gval_prints v \<Longrightarrow> signal_ok h svc (put k v s)"
  using set_update_subset [of k v "rs_Payload s"] by (auto simp: signal_ok_def put_def)

lemma signal_ok_fields [simp]:
  "signal_ok h svc (s\<lparr>rs_Notes := n\<rparr>) = signal_ok h svc s"
  "signal_ok h svc (s\<lparr>rs_RunningVersion := n\<rparr>) = signal_ok h svc s"
  "signal_ok h svc (s\<lparr>rs_BuildRef := n\<rparr>) = signal_ok h svc s"
  "signal_ok h svc (s\<lparr>rs_GitCommit := n\<rparr>) = signal_ok h svc s"
  by (simp_all add: signal_ok_def)

lemma put_fields [simp]:
  "rs_Status (put k v s) = rs_Status s" "rs_RunningVersion (put k v s) = rs_RunningVersion s"
  "rs_GitCommit (put k v s) = rs_GitCommit s" "rs_Notes (put k v s) = rs_Notes s"
  by (simp_all add: put_def)

lemma initial_ok: "signal_ok h svc (initial_signal h svc)"
  by (simp add: signal_ok_def initial_signal_def)

lemma check_container_ok:
  "signal_ok h svc s \<Longrightarrow> case_sum (signal_ok h svc) (signal_ok h svc) (check_container h socket svc s)"
  by (simp add: check_container_def Let_def signal_ok_put split: sum.splits)

lemma check_health_ok:
  assumes "docs_finite h" "signal_ok h svc s"
  shows "case_sum (signal_ok h svc) (signal_ok h svc) (check_health h svc s)"
  using assms probe_prints [OF assms(1), of svc "rsc_HealthURL svc"]
  by (simp add: check_health_def Let_def signal_ok_put split: sum.splits prod.splits)

lemma embed_prints: "infoWithinEmbedCap h info = Some v \<Longrightarrow> gval_prints v"
  by (auto simp: infoWithinEmbedCap_def gval_prints_def split: option.splits if_splits)

lemma add_info_ok: "signal_ok h svc s \<Longrightarrow> signal_ok h svc (add_info h svc s)"
  by (simp add: add_info_def Let_def signal_ok_put embed_prints split: sum.splits prod.splits option.splits)

lemma probe_cases:
  assumes "docs_finite h"
  shows "\<exists>s. signal_ok h svc s \<and>
    (probeRuntimeService h socket svc = s \<or> probeRuntimeService h socket svc = s\<lparr>rs_Status := ''HEALTHY''\<rparr>)"
proof (cases "check_container h socket svc (initial_signal h svc)")
  case (Inl s)
  then show ?thesis
    using check_container_ok [OF initial_ok, of h svc socket] by (auto simp: probeRuntimeService_def)
next
  case (Inr s)
  then have s: "signal_ok h svc s"
    using check_container_ok [OF initial_ok, of h svc socket] by simp
  show ?thesis
  proof (cases "check_health h svc s")
    case (Inl s')
    then show ?thesis
      using check_health_ok [OF assms s] Inr by (auto simp: probeRuntimeService_def)
  next
    case (Inr s')
    then have "signal_ok h svc (add_info h svc s')"
      using check_health_ok [OF assms s] add_info_ok by simp
    then show ?thesis
      using Inr \<open>check_container h socket svc (initial_signal h svc) = Inr s\<close>
      by (auto simp: probeRuntimeService_def)
  qed
qed

text \<open>The version of an image label survives the later stages.\<close>

lemma add_info_version: "rs_RunningVersion s \<noteq> [] \<Longrightarrow> rs_RunningVersion (add_info h svc s) = rs_RunningVersion s"
proof -
  assume v: "rs_RunningVersion s \<noteq> []"
  obtain r n where p: "runtimeJSONProbe h svc (rsc_InfoURL svc) = (r, n)" by fastforce
  show ?thesis
    using v by (cases r; cases "infoWithinEmbedCap h (projr r)")
      (simp_all add: add_info_def p Let_def del: stringAtPath.simps)
qed

lemma check_health_version:
  "check_health h svc s = Inr s' \<Longrightarrow> rs_RunningVersion s' = rs_RunningVersion s"
  by (auto simp: check_health_def Let_def split: sum.splits prod.splits if_splits)

lemma collect_item_length: "collect service_item items = Inr svcs \<Longrightarrow> length svcs = length items"
proof (induction items arbitrary: svcs)
  case (Cons i rest)
  have "service_item i = Inr ys \<Longrightarrow> length ys = 1" for ys
    by (auto simp: service_item_def Let_def split: gval.splits if_splits)
  with Cons show ?case by (auto split: sum.splits)
qed simp

section \<open>Properties\<close>

lemma with_defaults_fields:
  "hs_Status s \<noteq> [] \<Longrightarrow> hs_Status (with_defaults s) = hs_Status s"
  "hs_ProductCode (with_defaults s) = hs_ProductCode s"
  "hs_ComponentCode (with_defaults s) = hs_ComponentCode s"
  by (simp_all add: with_defaults_def Let_def)

lemma wire_signal_fields:
  "hs_Status (wire_signal s) = utf8_fix (rs_Status s)"
  "hs_ProductCode (wire_signal s) = utf8_fix (rs_ProductCode s)"
  "hs_ComponentCode (wire_signal s) = utf8_fix (rs_ComponentCode s)"
  by (simp_all add: wire_signal_def)

lemma utf8_status: "utf8_fix ''STALE'' = ''STALE''" "utf8_fix ''HEALTHY'' = ''HEALTHY''"
  by code_simp+

text \<open>C31: end to end from the registry to the server, no configured service goes missing: as long
  as the probed documents hold numbers in range, every service of the list is posted, in order,
  under its own codes and as healthy or stale, whatever its container and its probes answer.\<close>

theorem services_never_missing:
  assumes "docs_finite h" "runtimeServices h args = Inr v" "gget args ''services'' = VList items"
  shows "\<exists>svcs. runtimeServiceConfigs (VList items) = Inr svcs \<and> length svcs = length items \<and>
    list_all2 (\<lambda>g svc. hs_ProductCode g = utf8_fix (rsc_ProductCode svc) \<and>
        hs_ComponentCode g = utf8_fix (rsc_ComponentCode svc) \<and> hs_Status g \<in> {''HEALTHY'', ''STALE''})
      (fst (sendRuntimeSignals v)) svcs"
proof -
  obtain svcs where svcs: "runtimeServiceConfigs (VList items) = Inr svcs"
    and v: "v = ASignals (map (probeRuntimeService h (argString args ''socket'' dockerDefaultSocket)) svcs)"
    using assms(2,3) by (auto simp: runtimeServices_def result_bind_Inr_iff)
  let ?p = "probeRuntimeService h (argString args ''socket'' dockerDefaultSocket)"
  have ok: "rs_ProductCode (?p svc) = rsc_ProductCode svc \<and> rs_ComponentCode (?p svc) = rsc_ComponentCode svc \<and>
      rs_Status (?p svc) \<in> {''HEALTHY'', ''STALE''} \<and> to_json (VMap (rs_Payload (?p svc))) \<noteq> None" for svc
    using probe_cases [OF assms(1), of svc "argString args ''socket'' dockerDefaultSocket"]
    unfolding gval_prints_def [symmetric] by (auto simp: signal_ok_def)
  have "fst (sendRuntimeSignals v) = map (\<lambda>s. with_defaults (wire_signal s)) (map ?p svcs)"
    using runtimeSignals_wire [of "map ?p svcs"] ok by (simp add: sendRuntimeSignals_def v)
  moreover have "hs_Status (with_defaults (wire_signal (?p svc))) \<in> {''HEALTHY'', ''STALE''}" for svc
  proof -
    have "rs_Status (?p svc) = ''HEALTHY'' \<or> rs_Status (?p svc) = ''STALE''"
      using ok [of svc] by blast
    then have "hs_Status (wire_signal (?p svc)) \<in> {''HEALTHY'', ''STALE''}"
      by (elim disjE) (simp_all only: wire_signal_fields utf8_status insert_iff simp_thms)
    moreover from this have "hs_Status (wire_signal (?p svc)) \<noteq> []" by auto
    ultimately show ?thesis by (metis with_defaults_fields(1))
  qed
  ultimately have "list_all2 (\<lambda>g svc. hs_ProductCode g = utf8_fix (rsc_ProductCode svc) \<and>
        hs_ComponentCode g = utf8_fix (rsc_ComponentCode svc) \<and> hs_Status g \<in> {''HEALTHY'', ''STALE''})
      (fst (sendRuntimeSignals v)) svcs"
    using ok
    by (simp add: list_all2_map1 list_all2_same with_defaults_fields(2,3) wire_signal_fields(2,3)
        del: utf8_fix.simps)
  moreover have "length svcs = length items"
    using svcs collect_item_length by (simp add: runtimeServiceConfigs_def)
  ultimately show ?thesis using svcs by blast
qed

text \<open>C32: a service is reported healthy exactly when its container, if it has one, is running and
  its health document was read and says the expected status; otherwise it is stale.\<close>

theorem healthy_iff:
  "rs_Status (probeRuntimeService h socket svc) =
     (if (rsc_Container svc = [] \<or>
          (\<exists>i. dockerContainerState h socket (rsc_Container svc) = Inr i \<and> ci_Status i = ''running'')) \<and>
         (\<exists>health status. runtimeJSONProbe h svc (rsc_HealthURL svc) = (Inr health, status) \<and>
            actual_status h health = expected_status svc)
      then ''HEALTHY'' else ''STALE'')"
proof -
  have c: "is_ok (check_container h socket svc s) \<longleftrightarrow> rsc_Container svc = [] \<or>
      (\<exists>i. dockerContainerState h socket (rsc_Container svc) = Inr i \<and> ci_Status i = ''running'')" for s
    by (auto simp: check_container_def Let_def split: sum.splits)
  have hl: "is_ok (check_health h svc s) \<longleftrightarrow>
      (\<exists>health status. runtimeJSONProbe h svc (rsc_HealthURL svc) = (Inr health, status) \<and>
         actual_status h health = expected_status svc)" for s
    by (auto simp: check_health_def Let_def split: sum.splits prod.splits)
  have l: "check_container h socket svc s = Inl s' \<Longrightarrow> rs_Status s' = rs_Status s"
    "check_container h socket svc s = Inr s' \<Longrightarrow> rs_Status s' = rs_Status s"
    "check_health h svc s = Inl s' \<Longrightarrow> rs_Status s' = rs_Status s" for s s'
    by (auto simp: check_container_def check_health_def Let_def split: sum.splits prod.splits if_splits)
  have i: "rs_Status (initial_signal h svc) = ''STALE''" by (simp add: initial_signal_def)
  show ?thesis
    unfolding c [of "initial_signal h svc", symmetric] hl [symmetric, where s = "projr (check_container h socket svc (initial_signal h svc))"]
    by (cases "check_container h socket svc (initial_signal h svc)";
        cases "check_health h svc (projr (check_container h socket svc (initial_signal h svc)))")
      (simp_all add: probeRuntimeService_def l i)
qed

section \<open>A concrete registry\<close>

definition demo_services :: gval where
  "demo_services = VList
     [VMap [(''product_code'', VStr ''ICOSYS''), (''component_code'', VStr ''icglb''),
            (''health_url'', VStr ''http://localhost/health'')],
      VMap [(''product_code'', VStr ''ICOSYS''), (''component_code'', VStr ''gw''),
            (''container'', VStr ''gone''), (''health_url'', VStr ''http://localhost/gw'')]]"

definition demo_svcs :: "runtimeServiceConfig list" where
  "demo_svcs = map service_config
     [[(''product_code'', VStr ''ICOSYS''), (''component_code'', VStr ''icglb''),
       (''health_url'', VStr ''http://localhost/health'')],
      [(''product_code'', VStr ''ICOSYS''), (''component_code'', VStr ''gw''),
       (''container'', VStr ''gone''), (''health_url'', VStr ''http://localhost/gw'')]]"

lemma demo_runtimeServices:
  "runtimeServices (demo_host 0 (\<lambda>_. Inl NotExist)) [(''services'', demo_services)] =
     Inr (ASignals (map (probeRuntimeService (demo_host 0 (\<lambda>_. Inl NotExist)) dockerDefaultSocket) demo_svcs))"
  by (simp add: runtimeServices_def gget_def demo_services_def runtimeServiceConfigs_def
      service_item_def service_config_def argString_def demo_svcs_def)

theorem services_never_missing_witness:
  "length (fst (sendRuntimeSignals (ASignals
     (map (probeRuntimeService (demo_host 0 (\<lambda>_. Inl NotExist)) dockerDefaultSocket) demo_svcs)))) = 2"
proof -
  have "docs_finite (demo_host 0 (\<lambda>_. Inl NotExist))"
    by (simp add: docs_finite_def demo_host_def)
  from services_never_missing [OF this demo_runtimeServices] show ?thesis
    by (auto simp: gget_def demo_services_def dest!: list_all2_lengthD)
qed

end
