(* ===== verification/Agent_Collectors.thy ===== *)
theory Agent_Collectors
  imports Net_Primitives Runtime_Services Heartbeat
begin

text \<open>
  The registry of the collectors with the collectors themselves (collectors/registry.go), and
  what it means for the heartbeat: which configurations can make a payload that cannot be
  printed.
\<close>

section \<open>The registry\<close>

text \<open>Two collectors remember something between calls; all others depend on the machine and
  their arguments.\<close>

record prim_state =
  ps_cpu :: "cpuSample option"
  ps_sec :: sec_state

type_synonym primitive = "prim_state \<Rightarrow> gargs \<Rightarrow> prim_state \<times> (string + any_val)"

definition pure :: "(gargs \<Rightarrow> string + gval) \<Rightarrow> primitive" where
  "pure f st args = (st, map_sum id AVal (f args))"

definition cpu_call :: "machine \<Rightarrow> primitive" where
  "cpu_call m st args =
     (case procfsCPUUsedPct (ma_host m) (ps_cpu st) of
        (c, r) \<Rightarrow> (st\<lparr>ps_cpu := c\<rparr>, map_sum id AVal r))"

definition sec_call :: "machine \<Rightarrow> primitive" where
  "sec_call m st args =
     (case securitySnapshot (ma_host m) (ps_sec st) args of
        (s, v) \<Rightarrow> (st\<lparr>ps_sec := s\<rparr>, Inr (AVal v)))"

definition signals_call :: "machine \<Rightarrow> primitive" where
  "signals_call m st args = (st, runtimeServices (ma_host m) args)"

definition builtins :: "machine \<Rightarrow> (string \<times> primitive) list" where
  "builtins m = (let h = ma_host m in
     [(''procfs.loadavg'', pure (procfsLoadavg h)),
      (''procfs.uptime'', pure (procfsUptime h)),
      (''procfs.memory'', pure (procfsMemory h)),
      (''procfs.swap'', pure (procfsSwap h)),
      (''procfs.cpu_count'', pure (procfsCPUCount h)),
      (''procfs.cpu_used_pct'', cpu_call m),
      (''procfs.diskstats'', pure (procfsDiskstats h)),
      (''procfs.netdev'', pure (procfsNetdev h)),
      (''os.release'', pure (osRelease h)),
      (''os.hostname'', pure (osHostname m)),
      (''os.kernel'', pure (osKernel h)),
      (''os.arch'', pure (osArch h)),
      (''reboot.required'', pure (rebootRequired m)),
      (''disk.usage'', pure (diskUsage h)),
      (''disk.max_used_pct'', pure (diskMaxUsedPct h)),
      (''exec'', pure (execPrimitive m)),
      (''systemctl.is_active'', pure (systemctlIsActive m)),
      (''systemd.resources'', pure (systemdResources m)),
      (''tcp.connect'', pure (tcpConnect m)),
      (''ssl.cert_expiry'', pure (sslCertExpiry m)),
      (''http.get'', pure (httpGet m)),
      (''http.probe'', pure (httpProbe m)),
      (''http.get_json'', pure (httpGetJSON m)),
      (''file.stat'', pure (fileStat m)),
      (''file.newest_age_seconds'', pure (fileNewestAgeSeconds m)),
      (''apt.security_count'', pure (aptSecurityCount m)),
      (''docker.containers'', pure (dockerContainers h)),
      (''docker.stats'', pure (dockerStats h)),
      (''runtime.services'', signals_call m),
      (''security.snapshot'', sec_call m)])"

text \<open>The states in which a collector can find its memory: the start, and what calls on any
  machine, at any time, with any arguments, leave behind.\<close>

definition prim_init :: prim_state where
  "prim_init = \<lparr>ps_cpu = None, ps_sec = \<lparr>sec_at = None, sec_cache = None\<rparr>\<rparr>"

inductive prim_reach :: "prim_state \<Rightarrow> bool" where
  init: "prim_reach prim_init"
| call: "prim_reach st \<Longrightarrow> (name, f) \<in> set (builtins m) \<Longrightarrow> prim_reach (fst (f st args))"

text \<open>The bindings whose value may not be a number: a float read from the output of a command or
  from the load file, and a rate over an interval that is not a number.\<close>

definition may_not_print :: "string \<Rightarrow> gargs \<Rightarrow> bool" where
  "may_not_print name args =
     (name = ''exec'' \<and> str_arg args ''parse'' = ''float'' \<or> name = ''procfs.loadavg'' \<or>
      name \<in> {''procfs.diskstats'', ''procfs.netdev''} \<and> argFloat args ''sample_sec'' (Fin 1) = NaN)"

section \<open>What prints\<close>

definition any_prints :: "any_val \<Rightarrow> bool" where
  "any_prints v = (any_json v \<noteq> None)"

lemma any_prints_AVal [simp]: "any_prints (AVal g) = gval_prints g"
  by (simp add: any_prints_def any_json_def gval_prints_def)

lemma any_prints_ASignals [simp]:
  "any_prints (ASignals ss) \<longleftrightarrow> (\<forall>s\<in>set ss. gval_prints (VMap (rs_Payload s)))"
  using those_not_None [of "map signal_json ss"]
  by (auto simp: any_prints_def any_json_def signal_json_def gval_prints_def simp del: to_json.simps not_None_eq)

text \<open>A collector prints when its values do.\<close>

definition prints :: "string + gval \<Rightarrow> bool" where
  "prints r = (\<forall>v. r = Inr v \<longrightarrow> gval_prints v)"

lemma prints_simps [simp]: "prints (Inl e)" "prints (Inr v) = gval_prints v"
  by (simp_all add: prints_def)

lemma prints_bind: "(\<And>x. r = Inr x \<Longrightarrow> prints (k x)) \<Longrightarrow> prints (result_bind r k)"
  by (auto simp: prints_def result_bind_Inr_iff)

named_theorems prim_defs

lemmas [prim_defs] = procfsUptime_def procfsCPUCount_def osRelease_def osHostname_def
  osKernel_def osArch_def rebootRequired_def systemctlIsActive_def systemdResources_def
  tcpConnect_def sslCertExpiry_def httpGet_def httpProbe_def fileStat_def
  fileNewestAgeSeconds_def aptSecurityCount_def dockerContainers_def container_report_def
  row_val_def missing_unit_def unit_row_def systemdShowOne_def

lemma plain_print:
  "prints (procfsUptime h args)" "prints (procfsCPUCount h args)" "prints (osRelease h args)"
  "prints (osHostname m args)" "prints (osKernel h args)" "prints (osArch h args)"
  "prints (rebootRequired m args)" "prints (systemctlIsActive m args)"
  "prints (systemdResources m args)" "prints (tcpConnect m args)" "prints (sslCertExpiry m args)"
  "prints (httpGet m args)" "prints (httpProbe m args)" "prints (fileStat m args)"
  "prints (fileNewestAgeSeconds m args)" "prints (aptSecurityCount m args)"
  "prints (dockerContainers h args)"
  by (auto simp: prim_defs Let_def intro!: prints_bind
      split: option.splits sum.splits list.splits http_reply.splits io_err.splits prod.splits)

text \<open>Memory: the fields are in the range of \<open>int64\<close>, and so is what is used.\<close>

lemma foldl_map_values:
  assumes "\<And>m x v. x \<in> set xs \<Longrightarrow> v \<in> ran (map_of (f m x)) \<Longrightarrow> v \<in> ran (map_of m) \<or> P v"
    and "v \<in> ran (map_of (foldl f m xs))" "\<forall>v\<in>ran (map_of m). P v"
  shows "P v"
  using assms
proof (induction xs arbitrary: m)
  case (Cons x xs)
  show ?case
  proof (rule Cons.IH [of "f m x"])
    show "\<forall>v\<in>ran (map_of (f m x)). P v" using Cons.prems(1) [of x _ m] Cons.prems(3) by auto
  qed (use Cons.prems in auto)
qed auto

lemma meminfo_values:
  assumes "readMeminfoKB h = Inr m"
  shows "\<bar>kb m k\<bar> \<le> 2 ^ 63"
proof (cases "map_of m k")
  case (Some n)
  from assms obtain ls where "m = foldl meminfo_entry [] ls"
    by (auto simp: readMeminfoKB_def result_bind_Inr_iff split: option.splits)
  moreover have "v \<in> ran (map_of (meminfo_entry m l)) \<Longrightarrow> v \<in> ran (map_of m) \<or> \<bar>v\<bar> \<le> 2 ^ 63" for m l v
    using parse_int_range
    by (fastforce simp: meminfo_entry_def ran_def split: option.splits prod.splits if_splits)
  ultimately have "\<bar>n\<bar> \<le> 2 ^ 63"
    using foldl_map_values [of ls meminfo_entry "\<lambda>v. \<bar>v\<bar> \<le> 2 ^ 63" n "[]"] Some by (auto simp: ran_def)
  with Some show ?thesis by (simp add: kb_def)
qed (simp add: kb_def)

lemma used_pct_prints:
  assumes "\<bar>used\<bar> \<le> 2 ^ 64" "\<bar>tot\<bar> \<le> 2 ^ 63"
  shows "gval_prints (VFloat (used_pct used tot))"
proof (cases "tot = 0")
  case False
  have "\<bar>tot\<bar> \<le> 2 ^ 64" using assms(2) by simp
  from pct_finite [OF assms(1) this False] False show ?thesis
    by (auto simp: used_pct_def gval_prints_VFloat)
qed (simp add: used_pct_def)

lemma memory_prints: "prints (procfsMemory h args)" "prints (procfsSwap h args)"
  using meminfo_values [of h] used_pct_prints [OF wrap64_abs]
  by (auto simp: procfsMemory_def procfsSwap_def Let_def intro!: prints_bind)

text \<open>Disks, containers, rates, the CPU.\<close>

lemma df_prints: "dfRows h b = Inr rows \<Longrightarrow> r \<in> set rows \<Longrightarrow> gval_prints (df_val r)"
  using dfRows_finite [of h b rows] by (fastforce simp: df_val_def)

lemma headline_prints: "dfRows h b = Inr rows \<Longrightarrow> gval_prints (VFloat (roundTo (max_pct rows) 1))"
proof -
  assume rows: "dfRows h b = Inr rows"
  note fin = dfRows_finite [OF rows]
  then have "\<forall>r\<in>set rows. \<exists>p. df_used_pct r = Fin p" by blast
  from max_pct_fold [OF this, of 0] obtain M where M: "max_pct rows = Fin M"
    "M = 0 \<or> (\<exists>r\<in>set rows. df_used_pct r = Fin M)"
    unfolding max_pct_def by blast
  then have "\<bar>M\<bar> \<le> 2 ^ 200" using fin by fastforce
  then have "\<bar>M\<bar> \<le> 2 ^ 900" by (rule order_trans) simp
  from roundTo_finite [OF this, of 1] M(1) show ?thesis by (auto simp: gval_prints_VFloat)
qed

lemma disk_print: "prints (diskUsage h args)" "prints (diskMaxUsedPct h args)"
  using df_prints headline_prints
  by (auto simp: diskUsage_def diskMaxUsedPct_def Let_def find_Some_iff
      intro!: prints_bind intro: nth_mem split: option.splits)

lemma docker_stats_print: "prints (dockerStats h args)"
  using stats_row_prints by (auto simp: dockerStats_def Let_def intro!: prints_bind)

lemma rates_print:
  assumes "argFloat args ''sample_sec'' (Fin 1) \<noteq> NaN"
  shows "prints (procfsDiskstats h args)" "prints (procfsNetdev h args)"
  using sample_interval_range [OF assms] diskRates_prints(1) netRates_prints(1)
  by (auto simp: procfsDiskstats_def procfsNetdev_def sampleProc_def result_bind_Inr_iff simp del: gval_prints_simps
      intro!: prints_bind split: if_splits)

lemma json_print:
  assumes "docs_finite (ma_host m)"
  shows "prints (httpGetJSON m args)"
    "str_arg args ''parse'' \<noteq> ''float'' \<Longrightarrow> prints (execPrimitive m args)"
proof -
  have j: "ho_json (ma_host m) body clean = Inr j \<Longrightarrow> gval_prints (json_any j)"
    "ho_unmarshal (ma_host m) out = Inr j \<Longrightarrow> gval_prints (json_any j)" for body clean out j
    using assms json_finite_prints unfolding docs_finite_def by blast+
  show "prints (httpGetJSON m args)"
    using j(1) by (auto simp: httpGetJSON_def Let_def jsonPath_prints split: http_reply.splits sum.splits)
  show "prints (execPrimitive m args)" if "str_arg args ''parse'' \<noteq> ''float''"
    using j(2) that
    by (auto simp: execPrimitive_def parse_output_def Let_def jsonPath_prints intro!: prints_bind
        split: option.splits prod.splits)
qed

text \<open>The security snapshot, new or cached.\<close>

definition map_prints :: "gargs \<Rightarrow> bool" where
  "map_prints m = gval_prints (VMap m)"

lemma map_prints_simps [simp]:
  "map_prints []" "map_prints ((k, v) # m) \<longleftrightarrow> gval_prints v \<and> map_prints m"
  by (simp_all add: map_prints_def)

lemma map_prints_update: "map_prints m \<Longrightarrow> gval_prints v \<Longrightarrow> map_prints (AList.update k v m)"
  using set_update_subset [of k v m] by (auto simp: map_prints_def)

lemma map_prints_update_map:
  "map_prints m \<Longrightarrow> map_prints a \<Longrightarrow> map_prints (AList.update k (VMap a) m)"
  by (rule map_prints_update) (simp_all only: map_prints_def)

lemma add_section_prints:
  "map_prints out \<Longrightarrow> (\<And>m. v = Some m \<Longrightarrow> map_prints m) \<Longrightarrow> map_prints (add_section key v out)"
  by (cases v) (simp_all add: add_section_def map_prints_update_map)

lemma count_prints: "map_prints (countWAFBlocks ls)" "map_prints (countNginx4xx ls)"
  "map_prints (ban_report s)"
  by (auto simp: map_prints_def countWAFBlocks_def countNginx4xx_def ban_report_def ban_row_def Let_def)

lemma sources_print:
  "snapshot_waf h args since = Some m \<Longrightarrow> map_prints m"
  "snapshot_nginx h args since = Some m \<Longrightarrow> map_prints m"
  "snapshot_bans h args since = Some m \<Longrightarrow> map_prints m"
  "snapshot_firewall h args = Some m \<Longrightarrow> map_prints m"
proof -
  show "snapshot_waf h args since = Some m \<Longrightarrow> map_prints m"
    by (auto simp: snapshot_waf_def collectWAFBlocksFile_def collectWAFBlocks_def count_prints split: if_splits)
  show "snapshot_nginx h args since = Some m \<Longrightarrow> map_prints m"
    by (auto simp: snapshot_nginx_def collectNginx4xxFile_def collectNginx4xx_def count_prints split: if_splits)
  show "snapshot_bans h args since = Some m \<Longrightarrow> map_prints m"
    by (auto simp: snapshot_bans_def collectFail2ban_def count_prints)
  have "collectFirewallDrops h c = Some m \<Longrightarrow> map_prints m" for c m
    by (auto simp: collectFirewallDrops_def map_prints_def)
  then show "snapshot_firewall h args = Some m \<Longrightarrow> map_prints m"
    by (auto simp: snapshot_firewall_def Let_def map_prints_update split: option.splits)
qed

lemma scan_prints: "map_prints (scan_sources h args w)"
  unfolding scan_sources_def Let_def
  by (rule add_section_prints | erule sources_print | simp)+

text \<open>What the memory of the collectors may hold.\<close>

definition prim_ok :: "prim_state \<Rightarrow> bool" where
  "prim_ok st = (\<forall>m. sec_cache (ps_sec st) = Some m \<longrightarrow> map_prints m)"

lemma sec_call_ok:
  assumes "prim_ok st"
  shows "prim_ok (fst (sec_call m st args))" "\<exists>v. snd (sec_call m st args) = Inr (AVal v) \<and> gval_prints v"
  using assms scan_prints
  by (auto simp: sec_call_def securitySnapshot_def prim_ok_def cached_value_def Let_def
      map_prints_def [symmetric] simp del: gval_prints_simps(9) split: option.splits)

lemma pure_simps [simp]: "fst (pure f st args) = st" "snd (pure f st args) = map_sum id AVal (f args)"
  by (simp_all add: pure_def)

lemma cpu_call_ok: "prim_ok st \<Longrightarrow> prim_ok (fst (cpu_call m st args))"
  by (simp add: cpu_call_def prim_ok_def split: prod.splits)

lemma call_ok:
  "prim_ok st \<Longrightarrow> (name, f) \<in> set (builtins m) \<Longrightarrow> prim_ok (fst (f st args))"
  by (auto simp: builtins_def Let_def cpu_call_ok sec_call_ok signals_call_def)

lemma reach_ok: "prim_reach st \<Longrightarrow> prim_ok st"
  by (induction rule: prim_reach.induct) (simp_all add: call_ok, simp add: prim_ok_def prim_init_def)

section \<open>One call\<close>

lemma pure_prints: "prints (f args) \<Longrightarrow> snd (pure f st args) = Inr v \<Longrightarrow> any_prints v"
  by (cases "f args") auto

lemma cpu_prints: "snd (cpu_call m st args) = Inr v \<Longrightarrow> any_prints v"
proof -
  assume v: "snd (cpu_call m st args) = Inr v"
  obtain c r where c: "procfsCPUUsedPct (ma_host m) (ps_cpu st) = (c, r)" by fastforce
  with v obtain g where "r = Inr g" "v = AVal g" by (cases r) (auto simp: cpu_call_def)
  with cpu_used_range [of "ma_host m" "ps_cpu st" c g] c show ?thesis by auto
qed

lemma signals_print:
  assumes "docs_finite (ma_host m)" "snd (signals_call m st args) = Inr v"
  shows "any_prints v"
proof -
  obtain svcs where v: "v = ASignals (map (probeRuntimeService (ma_host m)
      (argString args ''socket'' dockerDefaultSocket)) svcs)"
    using assms(2) by (auto simp: signals_call_def runtimeServices_def result_bind_Inr_iff)
  have "gval_prints (VMap (rs_Payload (probeRuntimeService (ma_host m) socket svc)))" for socket svc
    using probe_cases [OF assms(1), of svc socket] by (auto simp: signal_ok_def)
  then show ?thesis by (simp add: v del: gval_prints_simps)
qed

text \<open>A collector is safe under a name when each of its calls prints, except the calls that
  \<open>may_not_print\<close> names.\<close>

definition safe :: "string \<Rightarrow> primitive \<Rightarrow> bool" where
  "safe name f =
     (\<forall>st args v. prim_reach st \<longrightarrow> \<not> may_not_print name args \<longrightarrow> snd (f st args) = Inr v \<longrightarrow> any_prints v)"

lemma safe_pure: "(\<And>args. \<not> may_not_print name args \<Longrightarrow> prints (f args)) \<Longrightarrow> safe name (pure f)"
  using pure_prints unfolding safe_def by blast

lemma safe_plain:
  "safe n (pure (procfsUptime h))" "safe n (pure (procfsCPUCount h))" "safe n (pure (osRelease h))"
  "safe n (pure (osHostname m))" "safe n (pure (osKernel h))" "safe n (pure (osArch h))"
  "safe n (pure (rebootRequired m))" "safe n (pure (systemctlIsActive m))"
  "safe n (pure (systemdResources m))" "safe n (pure (tcpConnect m))" "safe n (pure (sslCertExpiry m))"
  "safe n (pure (httpGet m))" "safe n (pure (httpProbe m))" "safe n (pure (fileStat m))"
  "safe n (pure (fileNewestAgeSeconds m))" "safe n (pure (aptSecurityCount m))"
  "safe n (pure (dockerContainers h))" "safe n (pure (procfsMemory h))" "safe n (pure (procfsSwap h))"
  "safe n (pure (diskUsage h))" "safe n (pure (diskMaxUsedPct h))" "safe n (pure (dockerStats h))"
  by (rule safe_pure, rule plain_print memory_prints disk_print docker_stats_print)+

lemma safe_rates:
  "safe ''procfs.loadavg'' (pure (procfsLoadavg h))"
  "safe ''procfs.diskstats'' (pure (procfsDiskstats h))"
  "safe ''procfs.netdev'' (pure (procfsNetdev h))"
  by (rule safe_pure, simp add: may_not_print_def rates_print)+

lemma safe_json:
  assumes "docs_finite (ma_host m)"
  shows "safe n (pure (httpGetJSON m))" "safe ''exec'' (pure (execPrimitive m))" "safe n (signals_call m)"
  using json_print [OF assms] signals_print [OF assms] safe_pure
  by (auto simp: may_not_print_def safe_def [of n "signals_call m"] intro!: safe_pure)

lemma safe_states: "safe n (cpu_call m)" "safe n (sec_call m)"
  using cpu_prints sec_call_ok(2) [OF reach_ok] unfolding safe_def
  by (blast, metis any_prints_AVal sum.inject(2))

lemma builtins_safe:
  assumes "docs_finite (ma_host m)"
  shows "\<forall>(n, f)\<in>set (builtins m). safe n f"
  by (simp add: builtins_def Let_def safe_plain safe_rates safe_json [OF assms] safe_states)

lemma builtin_prints:
  assumes "docs_finite (ma_host m)" "(Primitive b, f) \<in> set (builtins m)" "prim_reach st"
    and "\<not> may_not_print (Primitive b) (Args b)" "snd (f st (Args b)) = Inr v"
  shows "any_prints v"
  using assms builtins_safe [OF assms(1)] unfolding safe_def by blast

section \<open>One tick\<close>

lemma merge_prints: "any_prints a \<Longrightarrow> any_prints b \<Longrightarrow> any_prints (mergeBindingValue a b)"
  by (cases a; cases b) (auto simp: mergeBindingValue_def)

definition all_printable :: "(string, metric) gomap \<Rightarrow> bool" where
  "all_printable ms = (\<forall>e\<in>set ms. printable (snd e))"

lemma all_printable_update:
  "all_printable ms \<Longrightarrow> printable x \<Longrightarrow> all_printable (AList.update k x ms)"
  using set_update_subset [of k x ms] by (auto simp: all_printable_def)

lemma printable_simps [simp]:
  "printable (Services ss)" "printable (Collected v) = any_prints v"
  by (simp_all add: printable_def any_prints_def)

lemma finish_prints:
  assumes "\<And>k v. map_of m k = Some v \<Longrightarrow> any_prints v" "gomap_ok m"
  shows "marshals (withoutMetric key (finish_payload m summaries now))"
proof -
  have "all_printable (map (\<lambda>e. (fst e, Collected (snd e))) m)"
    using assms by (auto simp: all_printable_def gomap_ok_def)
  then have "all_printable (pl_Metrics (finish_payload m summaries now))"
    by (auto simp: finish_payload_def Let_def all_printable_update split: sum.splits)
  then show ?thesis by (auto simp: marshals_def withoutMetric_def list_all_iff all_printable_def)
qed

section \<open>The registry and the configuration\<close>

text \<open>The registry knows the collectors by the names of the configuration, and every binding
  that a services.d directory expands to is served by one of them.\<close>

lemma registry_names: "map fst (builtins m) = DefaultRegistry"
  by (simp add: builtins_def DefaultRegistry_def Let_def)

lemma service_bindings_served:
  assumes "LoadServiceDir fs parse dir = Inr bs" "b \<in> set bs"
  shows "\<exists>f. map_of (builtins m) (Primitive b) = Some f \<and> Primitive b \<in> set DefaultRegistry"
proof -
  obtain defs where "collect expand_item defs = Inr bs"
    using assms(1) by (auto simp: LoadServiceDir_def result_bind_Inr_iff)
  from collect_mapD [OF this expand_item_InrD] assms(2) have "Primitive b \<in> set DefaultRegistry"
    by (auto simp: list_all_iff)
  moreover from this have "map_of (builtins m) (Primitive b) \<noteq> None"
    unfolding registry_names [of m, symmetric] by (simp add: map_of_eq_None_iff)
  ultimately show ?thesis by blast
qed

lemma service_bindings_served_witness:
  "\<exists>bs. LoadServiceDir (demo_fs [demo_entry ''app.yaml'']) (\<lambda>_. Some demo_service) ''d'' = Inr bs \<and>
     (\<exists>f. map_of (builtins (demo_machine [])) (Primitive (hd bs)) = Some f)"
proof -
  let ?load = "LoadServiceDir (demo_fs [demo_entry ''app.yaml'']) (\<lambda>_. Some demo_service) ''d''"
  have ok: "?load = Inr (projr ?load)" by code_simp
  have "length (projr ?load) = 3" by code_simp
  then have "hd (projr ?load) \<in> set (projr ?load)" by (intro hd_in_set) auto
  with ok show ?thesis
    using service_bindings_served [OF ok, of _ "demo_machine []"] by blast
qed

end
