(* ===== verification/Critical_Sections.thy ===== *)
theory Critical_Sections
  imports Agent_Prelude
begin

text \<open>
  Calls whose body is two critical sections under one lock: the first answers or leaves, the
  second finishes what was left, and other calls run between the two. \<open>section_step\<close> is generic in
  the sections; the components instantiate it. The locales state when such calls behave like
  calls that happen at once.
\<close>

section \<open>Steps\<close>

text \<open>The shared state, the calls between their sections, and the answers given so far.\<close>

record ('s, 'c, 'a) sections =
  sc_shared :: 's
  sc_between :: "'c list"
  sc_answers :: "('c \<times> 'a) list"

definition sections_start :: "'s \<Rightarrow> ('s, 'c, 'a) sections" where
  "sections_start st = \<lparr>sc_shared = st, sc_between = [], sc_answers = []\<rparr>"

text \<open>\<open>check st c\<close>: the first section answers, or does not. \<open>commit st c\<close>: the second section.\<close>

inductive section_step ::
    "('s \<Rightarrow> 'c \<Rightarrow> 'a option) \<Rightarrow> ('s \<Rightarrow> 'c \<Rightarrow> 's \<times> 'a) \<Rightarrow> ('s, 'c, 'a) sections \<Rightarrow> ('s, 'c, 'a) sections \<Rightarrow> bool"
  for check commit where
  answers: "check (sc_shared w) c = Some a \<Longrightarrow>
    section_step check commit w (w\<lparr>sc_answers := sc_answers w @ [(c, a)]\<rparr>)"
| leaves: "check (sc_shared w) c = None \<Longrightarrow>
    section_step check commit w (w\<lparr>sc_between := sc_between w @ [c]\<rparr>)"
| commits: "sc_between w = xs @ c # ys \<Longrightarrow> commit (sc_shared w) c = (st, a) \<Longrightarrow>
    section_step check commit w
      \<lparr>sc_shared = st, sc_between = xs @ ys, sc_answers = sc_answers w @ [(c, a)]\<rparr>"

section \<open>Calls one after another\<close>

fun serial_calls :: "('s \<Rightarrow> 'c \<Rightarrow> 's \<times> 'a) \<Rightarrow> 's \<Rightarrow> 'c list \<Rightarrow> 's \<times> ('c \<times> 'a) list" where
  "serial_calls seq st [] = (st, [])"
| "serial_calls seq st (c # cs) =
     (case seq st c of
        (st', a) \<Rightarrow> (case serial_calls seq st' cs of (st'', as) \<Rightarrow> (st'', (c, a) # as)))"

lemma serial_calls_snoc:
  "serial_calls seq st (cs @ [c]) =
     (case serial_calls seq st cs of (st', as) \<Rightarrow>
        (case seq st' c of (st'', a) \<Rightarrow> (st'', as @ [(c, a)])))"
  by (induction cs arbitrary: st) (simp_all split: prod.splits)

text \<open>\<open>behaves_serially\<close>: the state and the answers are those of the calls made one at a time.\<close>

definition behaves_serially :: "('s \<Rightarrow> 'c \<Rightarrow> 's \<times> 'a) \<Rightarrow> 's \<Rightarrow> ('s, 'c, 'a) sections \<Rightarrow> bool" where
  "behaves_serially seq st w =
     (serial_calls seq st (map fst (sc_answers w)) = (sc_shared w, sc_answers w))"

lemma behaves_serially_start: "behaves_serially seq st (sections_start st)"
  by (simp add: behaves_serially_def sections_start_def)

text \<open>An answer that agrees with the call made now keeps it.\<close>

lemma behaves_serially_answer:
  assumes "behaves_serially seq st w" "seq (sc_shared w) c = (st', a)"
  shows "behaves_serially seq st \<lparr>sc_shared = st', sc_between = bs, sc_answers = sc_answers w @ [(c, a)]\<rparr>"
  using assms by (simp add: behaves_serially_def serial_calls_snoc)

lemma behaves_serially_leave:
  "behaves_serially seq st w \<Longrightarrow> behaves_serially seq st (w\<lparr>sc_between := bs\<rparr>)"
  by (simp add: behaves_serially_def)

section \<open>The contracts\<close>

text \<open>A call made at once answers from the first section when that answers, and is the second
  section otherwise.\<close>

locale two_sections =
  fixes check :: "'s \<Rightarrow> 'c \<Rightarrow> 'a option"
    and commit :: "'s \<Rightarrow> 'c \<Rightarrow> 's \<times> 'a"
    and seq :: "'s \<Rightarrow> 'c \<Rightarrow> 's \<times> 'a"
  assumes check_hit: "check st c = Some a \<Longrightarrow> seq st c = (st, a)"
    and check_miss: "check st c = None \<Longrightarrow> seq st c = commit st c"
begin

lemma answers_serially:
  assumes "check (sc_shared w) c = Some a" "behaves_serially seq st w"
  shows "behaves_serially seq st (w\<lparr>sc_answers := sc_answers w @ [(c, a)]\<rparr>)"
proof -
  have "behaves_serially seq st \<lparr>sc_shared = sc_shared w, sc_between = sc_between w,
      sc_answers = sc_answers w @ [(c, a)]\<rparr>"
    using behaves_serially_answer [OF assms(2) check_hit [OF assms(1)]] .
  then show ?thesis by (simp add: behaves_serially_def)
qed

text \<open>All calls that find no answer can be between their sections together.\<close>

lemma all_leave:
  assumes "\<forall>c\<in>set cs. check st c = None"
  shows "(section_step check commit)\<^sup>*\<^sup>* (sections_start st)
    \<lparr>sc_shared = st, sc_between = cs, sc_answers = []\<rparr>"
  using assms
proof (induction cs rule: rev_induct)
  case Nil
  then show ?case by (simp add: sections_start_def)
next
  case (snoc c cs)
  let ?w = "\<lparr>sc_shared = st, sc_between = cs, sc_answers = []\<rparr>"
  have "section_step check commit ?w (?w\<lparr>sc_between := sc_between ?w @ [c]\<rparr>)"
    using section_step.leaves [of check ?w c commit] snoc.prems by simp
  with snoc show ?case by (simp add: rtranclp.rtrancl_into_rtrancl)
qed

end

text \<open>The second section checks again, so that it is the whole call.\<close>

locale rechecked = two_sections +
  assumes commit_atomic: "commit st c = seq st c"
begin

lemma step_serial:
  assumes "section_step check commit w w'" "behaves_serially seq st w"
  shows "behaves_serially seq st w'"
  using assms(1)
proof cases
  case (answers c a)
  then show ?thesis using answers_serially assms(2) by simp
next
  case (leaves c)
  then show ?thesis using behaves_serially_leave [OF assms(2)] by simp
next
  case (commits xs c ys st' a)
  then show ?thesis using behaves_serially_answer [OF assms(2)] commit_atomic by simp
qed

lemma all_serial:
  "(section_step check commit)\<^sup>*\<^sup>* (sections_start st) w \<Longrightarrow> behaves_serially seq st w"
proof (induction rule: rtranclp_induct)
  case base
  then show ?case by (rule behaves_serially_start)
next
  case (step w w')
  then show ?case using step_serial by blast
qed

end

end
