(* ===== verification/Snapshot_Steps.thy ===== *)
theory Snapshot_Steps
  imports Security_Snapshot Critical_Sections
begin

text \<open>
  The lock of the security snapshot (collectors/primitives_security.go). A call checks the cache
  and stores its result in two critical sections, with the scan of the sources between them, and
  the runner starts the calls of a tick at the same time. Here the critical sections are
  the steps, and scans overlap; \<open>securitySnapshot\<close> is the call that happens at once.
\<close>

section \<open>Calls and their sections\<close>

record call =
  cl_id :: nat
  cl_host :: host
  cl_args :: gargs

abbreviation call_window :: "call \<Rightarrow> int" where
  "call_window c \<equiv> snapshot_window (ho_arch (cl_host c)) (cl_args c)"

definition stale :: "sec_state \<Rightarrow> call \<Rightarrow> bool" where
  "stale st c = snapshot_due st (ho_now (cl_host c)) (call_window c)"

text \<open>What a scan stores and answers.\<close>

definition scan_result_of :: "call \<Rightarrow> gargs option" where
  "scan_result_of c =
     (let out = scan_sources (cl_host c) (cl_args c) (call_window c)
      in if length out \<le> 2 then None else Some out)"

text \<open>The sections of a call, and the whole call.\<close>

definition snap_check :: "sec_state \<Rightarrow> call \<Rightarrow> gval option" where
  "snap_check st c = (if stale st c then None else Some (cached_value (sec_cache st)))"

definition snap_commit :: "sec_state \<Rightarrow> call \<Rightarrow> sec_state \<times> gval" where
  "snap_commit st c =
     (\<lparr>sec_at = Some (ho_now (cl_host c)), sec_cache = scan_result_of c\<rparr>,
      cached_value (scan_result_of c))"

definition snap_call :: "sec_state \<Rightarrow> call \<Rightarrow> sec_state \<times> gval" where
  "snap_call st c = securitySnapshot (cl_host c) st (cl_args c)"

interpretation sn: two_sections snap_check snap_commit snap_call
proof
  show "snap_check st c = Some a \<Longrightarrow> snap_call st c = (st, a)" for st c a
    by (auto simp: snap_check_def snap_call_def stale_def no_scan_result split: if_splits)
  show "snap_check st c = None \<Longrightarrow> snap_call st c = snap_commit st c" for st c
    by (simp add: snap_check_def snap_call_def snap_commit_def stale_def scan_result_of_def
      securitySnapshot_def Let_def split: if_splits)
qed

section \<open>Overlapping scans\<close>

abbreviation snap_step ::
    "(sec_state, call, gval) sections \<Rightarrow> (sec_state, call, gval) sections \<Rightarrow> bool" where
  "snap_step \<equiv> section_step snap_check snap_commit"

abbreviation call_now :: "call \<Rightarrow> int" where
  "call_now c \<equiv> ho_now (cl_host c)"

text \<open>The second section of the call \<open>c\<close>, which is between \<open>xs\<close> and \<open>ys\<close>.\<close>

definition scan_stored ::
    "call list \<Rightarrow> call \<Rightarrow> call list \<Rightarrow> (sec_state, call, gval) sections \<Rightarrow> (sec_state, call, gval) sections" where
  "scan_stored xs c ys w =
     (case snap_commit (sc_shared w) c of
        (st, a) \<Rightarrow> \<lparr>sc_shared = st, sc_between = xs @ ys, sc_answers = sc_answers w @ [(c, a)]\<rparr>)"

lemma scan_stored_step: "sc_between w = xs @ c # ys \<Longrightarrow> snap_step w (scan_stored xs c ys w)"
  by (auto simp: scan_stored_def intro: section_step.commits split: prod.split)

text \<open>What is stored is the time and the result of one scan that was answered with it; that scan and those
  in progress read a clock of at least \<open>T\<close>, and those in progress that are not among \<open>cs\<close> one of at
  least a minute later.\<close>

definition stored_ok :: "int \<Rightarrow> call list \<Rightarrow> (sec_state, call, gval) sections \<Rightarrow> bool" where
  "stored_ok T cs w =
     ((\<exists>c. (c, cached_value (scan_result_of c)) \<in> set (sc_answers w) \<and> T \<le> call_now c \<and>
         sc_shared w = \<lparr>sec_at = Some (call_now c), sec_cache = scan_result_of c\<rparr>) \<and>
      (\<forall>c\<in>set (sc_between w). T \<le> call_now c \<and> (c \<in> set cs \<or> T + minute_ns \<le> call_now c)))"

lemma stale_later:
  "stale st c \<Longrightarrow> sec_at st = Some t \<Longrightarrow> t + minute_ns \<le> call_now c"
  using due_spaced by (auto simp: stale_def)

lemma stored_ok_step:
  assumes "snap_step w w'" "stored_ok T cs w"
  shows "stored_ok T cs w'"
  using assms(1)
proof cases
  case (answers c a)
  then show ?thesis using assms(2) by (auto simp: stored_ok_def)
next
  case (leaves c)
  obtain t where t: "sec_at (sc_shared w) = Some t" "T \<le> t" using assms(2) by (auto simp: stored_ok_def)
  have "stale (sc_shared w) c" using leaves(2) by (simp add: snap_check_def split: if_splits)
  then have "t + minute_ns \<le> call_now c" using stale_later t(1) by blast
  moreover have "0 \<le> minute_ns" by (simp add: minute_ns_def)
  ultimately have "T + minute_ns \<le> call_now c \<and> T \<le> call_now c" using t(2) by linarith
  then show ?thesis using assms(2) leaves(1) by (auto simp: stored_ok_def)
next
  case (commits xs c ys st a)
  then show ?thesis using assms(2) by (auto simp: stored_ok_def snap_commit_def)
qed

lemma stored_ok_run: "snap_step\<^sup>*\<^sup>* w w' \<Longrightarrow> stored_ok T cs w \<Longrightarrow> stored_ok T cs w'"
  by (induction rule: rtranclp_induct) (auto intro: stored_ok_step)

lemma stored_ok_stored:
  assumes "sc_between w = xs @ c # ys" "\<forall>c\<in>set (sc_between w). T \<le> call_now c"
  shows "stored_ok T (xs @ ys) (scan_stored xs c ys w)"
  using assms by (auto simp: stored_ok_def scan_stored_def snap_commit_def)

lemma stored_answers:
  assumes "stored_ok T cs w" "call_now c < T + minute_ns"
  shows "snap_check (sc_shared w) c = Some (cached_value (sec_cache (sc_shared w)))"
proof -
  obtain t where "sec_at (sc_shared w) = Some t" "T \<le> t" using assms(1) by (auto simp: stored_ok_def)
  then have "\<not> stale (sc_shared w) c" using stale_later assms(2) by fastforce
  then show ?thesis by (simp add: snap_check_def)
qed

section \<open>Properties\<close>

text \<open>C37: Scans may overlap, but the first that is stored ends the rush. Let a scan be stored while others are
  in progress, and let \<open>T\<close> be the earliest time that any of them read from the clock. From then on,
  whatever calls come and however they interleave: a call within a minute of \<open>T\<close> is answered from the cache at
  once; a scan in progress is one of those that overlapped or one of a call at least a minute later; and the cache
  holds the time and the result of one and the same scan, with which that call was answered.\<close>

theorem scans_settle:
  assumes "sc_between w = xs @ c # ys" "\<forall>c\<in>set (sc_between w). T \<le> call_now c"
    and "snap_step\<^sup>*\<^sup>* (scan_stored xs c ys w) w'"
  shows "(\<forall>c'. call_now c' < T + minute_ns \<longrightarrow>
        snap_check (sc_shared w') c' = Some (cached_value (sec_cache (sc_shared w')))) \<and>
    (\<forall>c'\<in>set (sc_between w'). c' \<in> set (xs @ ys) \<or> T + minute_ns \<le> call_now c') \<and>
    (\<exists>c'. (c', cached_value (scan_result_of c')) \<in> set (sc_answers w') \<and> T \<le> call_now c' \<and>
       sc_shared w' = \<lparr>sec_at = Some (call_now c'), sec_cache = scan_result_of c'\<rparr>)"
proof -
  have ok: "stored_ok T (xs @ ys) w'" using stored_ok_run [OF assms(3) stored_ok_stored [OF assms(1,2)]] .
  then show ?thesis using stored_answers [OF ok] by (auto simp: stored_ok_def)
qed

text \<open>Nothing prevents scans from overlapping: whatever calls find the cache stale, all of them
  can be scanning at the same time, so that one window is scanned as often as there are calls.\<close>

lemma scans_overlap:
  assumes "\<forall>c\<in>set cs. stale st c"
  shows "snap_step\<^sup>*\<^sup>* (sections_start st) \<lparr>sc_shared = st, sc_between = cs, sc_answers = []\<rparr>"
  by (rule sn.all_leave) (use assms in \<open>simp add: snap_check_def\<close>)

section \<open>Concrete calls\<close>

definition quiet_call :: "nat \<Rightarrow> int \<Rightarrow> call" where
  "quiet_call i now = \<lparr>cl_id = i, cl_host = quiet_host now, cl_args = []\<rparr>"

lemma stale_fresh: "stale fresh c"
  by (simp add: stale_def demo_due)

lemma scans_overlap_witness:
  "snap_step\<^sup>*\<^sup>* (sections_start fresh)
     \<lparr>sc_shared = fresh, sc_between = [quiet_call 0 0, quiet_call 1 5], sc_answers = []\<rparr>"
  by (rule scans_overlap) (simp add: stale_fresh)

text \<open>Two calls of one tick scan together. After both have stored their results, the later one first, a call
  within the minute is answered at once.\<close>

theorem scans_settle_witness:
  "\<exists>w. snap_step\<^sup>*\<^sup>* (sections_start fresh) w \<and> sc_between w = [] \<and>
     map fst (sc_answers w) = [quiet_call 1 5, quiet_call 0 0] \<and>
     snap_check (sc_shared w) (quiet_call 2 7) = Some VNil"
proof -
  let ?a = "quiet_call 0 0" and ?b = "quiet_call 1 5"
  let ?w = "\<lparr>sc_shared = fresh, sc_between = [?a, ?b], sc_answers = []\<rparr>"
  let ?w1 = "scan_stored [?a] ?b [] ?w"
  let ?w2 = "scan_stored [] ?a [] ?w1"
  have b1: "sc_between ?w1 = [] @ ?a # []" by (simp add: scan_stored_def snap_commit_def)
  have r: "snap_step\<^sup>*\<^sup>* ?w1 ?w2" using scan_stored_step [OF b1] by blast
  have "snap_step ?w ?w1" by (rule scan_stored_step) simp
  then have all: "snap_step\<^sup>*\<^sup>* (sections_start fresh) ?w2"
    using scans_overlap_witness r by (meson rtranclp.rtrancl_into_rtrancl rtranclp_trans)
  have "scan_result_of ?a = None"
    using length_scan_sources [of "quiet_host 0" "[]"]
    by (simp add: scan_result_of_def quiet_call_def quiet_sources Let_def)
  then have cache: "sec_cache (sc_shared ?w2) = None" by (simp add: scan_stored_def snap_commit_def)
  have "call_now (quiet_call 2 7) < 0 + minute_ns"
    by (simp add: quiet_call_def quiet_host_def demo_host_def minute_ns_def)
  moreover have "\<forall>c\<in>set (sc_between ?w). 0 \<le> call_now c"
    by (simp add: quiet_call_def quiet_host_def demo_host_def)
  ultimately have "snap_check (sc_shared ?w2) (quiet_call 2 7) = Some (cached_value None)"
    using scans_settle [of ?w "[?a]" ?b "[]" 0 ?w2] r cache by simp
  then show ?thesis
    using all by (intro exI [of _ ?w2]) (simp add: cached_value_def scan_stored_def snap_commit_def)
qed

end
