(* ===== verification/Docker_Clients.thy ===== *)
theory Docker_Clients
  imports Docker_Primitives Critical_Sections
begin

text \<open>
  The clients that the collectors share to talk to \<open>dockerd\<close> (\<open>dockerClientFor\<close> in
  collectors/primitives_docker.go). The collectors of a tick run at the same time; a call looks
  the socket up under the read lock and, when it is missing, looks again and creates the client
  under the write lock. The two critical sections are the steps of \<open>section_step\<close>.
\<close>

section \<open>One call\<close>

text \<open>\<open>http.Transport\<close> as the code fills it, and the times in nanoseconds. A client is a position in
  the list of the clients made so far.\<close>

record docker_transport =
  tr_socket :: string
  MaxIdleConns :: int
  MaxIdleConnsPerHost :: int
  IdleConnTimeout :: int
  ResponseHeaderTimeout :: int
  ExpectContinueTimeout :: int

definition new_transport :: "string \<Rightarrow> docker_transport" where
  "new_transport socket =
     \<lparr>tr_socket = socket, MaxIdleConns = 8, MaxIdleConnsPerHost = 8,
      IdleConnTimeout = 90 * 10 ^ 9, ResponseHeaderTimeout = 10 * 10 ^ 9,
      ExpectContinueTimeout = 10 ^ 9\<rparr>"

record docker_clients =
  sharedDockerClients :: "(string, nat) gomap"
  dc_made :: "docker_transport list"

definition no_clients :: docker_clients where
  "no_clients = \<lparr>sharedDockerClients = [], dc_made = []\<rparr>"

text \<open>The look under the read lock, the part under the write lock, and the whole call.\<close>

definition client_check :: "docker_clients \<Rightarrow> string \<Rightarrow> nat option" where
  "client_check d socket = map_of (sharedDockerClients d) socket"

definition client_commit :: "docker_clients \<Rightarrow> string \<Rightarrow> docker_clients \<times> nat" where
  "client_commit d socket =
     (case map_of (sharedDockerClients d) socket of
        Some c \<Rightarrow> (d, c)
      | None \<Rightarrow>
          (\<lparr>sharedDockerClients = AList.update socket (length (dc_made d)) (sharedDockerClients d),
            dc_made = dc_made d @ [new_transport socket]\<rparr>, length (dc_made d)))"

definition dockerClientFor :: "docker_clients \<Rightarrow> string \<Rightarrow> docker_clients \<times> nat" where
  "dockerClientFor d socket =
     (case client_check d socket of Some c \<Rightarrow> (d, c) | None \<Rightarrow> client_commit d socket)"

lemma commit_is_call: "client_commit d socket = dockerClientFor d socket"
  by (simp add: dockerClientFor_def client_check_def client_commit_def split: option.splits)

interpretation cl: rechecked client_check client_commit dockerClientFor
  by unfold_locales (simp_all add: dockerClientFor_def client_check_def client_commit_def
    split: option.splits)

text \<open>However the goroutines interleave, the map and the clients given out are those of the same
  calls made one at a time.\<close>

lemma client_calls_linearise:
  assumes "(section_step client_check client_commit)\<^sup>*\<^sup>* (sections_start no_clients) w"
  shows "serial_calls dockerClientFor no_clients (map fst (sc_answers w)) =
    (sc_shared w, sc_answers w)"
  using cl.all_serial [OF assms] by (simp add: behaves_serially_def)

section \<open>One client per socket\<close>

text \<open>A client is kept under the socket it dials, and the map has what was given out and nothing
  else.\<close>

definition clients_ok :: "docker_clients \<Rightarrow> bool" where
  "clients_ok d =
     (dc_made d = map (new_transport \<circ> fst) (sharedDockerClients d) \<and>
      map snd (sharedDockerClients d) = [0..<length (dc_made d)] \<and>
      distinct (map fst (sharedDockerClients d)))"

definition given_ok :: "docker_clients \<Rightarrow> (string \<times> nat) list \<Rightarrow> bool" where
  "given_ok d given =
     (clients_ok d \<and> (\<forall>(s, c)\<in>set given. map_of (sharedDockerClients d) s = Some c) \<and>
      fst ` set (sharedDockerClients d) \<subseteq> fst ` set given)"

lemma AList_update_new: "map_of xs k = None \<Longrightarrow> AList.update k v xs = xs @ [(k, v)]"
  by (induction xs) (auto split: if_splits)

lemma call_cases:
  obtains (hit) c where "map_of (sharedDockerClients d) s = Some c" "dockerClientFor d s = (d, c)"
  | (miss) "map_of (sharedDockerClients d) s = None" "dockerClientFor d s =
      (\<lparr>sharedDockerClients = sharedDockerClients d @ [(s, length (dc_made d))],
        dc_made = dc_made d @ [new_transport s]\<rparr>, length (dc_made d))"
proof (cases "map_of (sharedDockerClients d) s")
  case None
  then show ?thesis
    using miss
    by (simp add: dockerClientFor_def client_check_def client_commit_def AList_update_new)
qed (use hit in \<open>simp add: dockerClientFor_def client_check_def\<close>)

lemma given_ok_call:
  assumes "given_ok d given" "dockerClientFor d s = (d', c)"
  shows "given_ok d' (given @ [(s, c)])"
proof (cases rule: call_cases [of d s])
  case (hit k)
  then show ?thesis using assms by (auto simp: given_ok_def)
next
  case miss
  then have d': "d' = \<lparr>sharedDockerClients = sharedDockerClients d @ [(s, c)],
      dc_made = dc_made d @ [new_transport s]\<rparr>" "c = length (dc_made d)"
    using assms(2) by auto
  have ok: "clients_ok d" "\<forall>(t, k)\<in>set given. map_of (sharedDockerClients d) t = Some k"
    "fst ` set (sharedDockerClients d) \<subseteq> fst ` set given"
    using assms(1) by (simp_all add: given_ok_def)
  have "clients_ok d'" using ok(1) miss(1) by (auto simp: d' clients_ok_def map_of_eq_None_iff)
  moreover have "\<forall>(t, k)\<in>set (given @ [(s, c)]). map_of (sharedDockerClients d') t = Some k"
    using ok(2) miss(1) by (auto simp: d'(1) map_add_def split: option.splits)
  moreover have "fst ` set (sharedDockerClients d') \<subseteq> fst ` set (given @ [(s, c)])"
    using ok(3) by (auto simp: d'(1))
  ultimately show ?thesis by (simp add: given_ok_def)
qed

lemma given_ok_serial:
  "serial_calls dockerClientFor no_clients ss = (d, given) \<Longrightarrow> given_ok d given"
proof (induction ss arbitrary: d given rule: rev_induct)
  case Nil
  then show ?case by (auto simp: given_ok_def no_clients_def clients_ok_def)
next
  case (snoc s ss)
  then show ?case by (auto simp: serial_calls_snoc split: prod.splits intro: given_ok_call)
qed

text \<open>A client in the map dials the socket it is kept under.\<close>

lemma client_dials:
  assumes "clients_ok d" "map_of (sharedDockerClients d) s = Some c"
  shows "dc_made d ! c = new_transport s"
proof -
  obtain i where i: "i < length (sharedDockerClients d)" "sharedDockerClients d ! i = (s, c)"
    using map_of_SomeD [OF assms(2)] by (auto simp: in_set_conv_nth)
  have made: "dc_made d = map (new_transport \<circ> fst) (sharedDockerClients d)"
    "map snd (sharedDockerClients d) = [0..<length (dc_made d)]"
    using assms(1) by (simp_all add: clients_ok_def)
  then have "map snd (sharedDockerClients d) ! i = i" using i(1) by simp
  then show ?thesis using i made(1) by simp
qed

lemma clients_made_card:
  "clients_ok d \<Longrightarrow> length (dc_made d) = card (fst ` set (sharedDockerClients d))"
  unfolding clients_ok_def by (metis distinct_card length_map list.set_map)

text \<open>C40: Goroutines that ask for one socket get one client, which dials that socket, and the agent
  never makes more clients than there are sockets that were asked for, whatever the interleaving:
  nothing piles up over the ticks.\<close>

theorem one_client_per_socket:
  assumes "(section_step client_check client_commit)\<^sup>*\<^sup>* (sections_start no_clients) w"
    "(s, c) \<in> set (sc_answers w)" "(s, c') \<in> set (sc_answers w)"
  shows "c = c' \<and> dc_made (sc_shared w) ! c = new_transport s \<and>
    length (dc_made (sc_shared w)) = card (fst ` set (sc_answers w))"
proof -
  let ?d = "sc_shared w"
  have g: "given_ok ?d (sc_answers w)"
    using given_ok_serial [OF client_calls_linearise [OF assms(1)]] .
  then have ok: "clients_ok ?d" and m: "map_of (sharedDockerClients ?d) s = Some c"
    "map_of (sharedDockerClients ?d) s = Some c'"
    using assms(2,3) by (auto simp: given_ok_def)
  have "fst ` set (sc_answers w) \<subseteq> fst ` set (sharedDockerClients ?d)"
    using g by (fastforce simp: given_ok_def dest: map_of_SomeD intro: rev_image_eqI)
  then have "fst ` set (sharedDockerClients ?d) = fst ` set (sc_answers w)"
    using g by (auto simp: given_ok_def)
  then show ?thesis using m client_dials [OF ok m(1)] clients_made_card [OF ok] by simp
qed

section \<open>A race\<close>

text \<open>Two calls of one socket miss before either creates the client.\<close>

definition raced :: "(docker_clients, string, nat) sections" where
  "raced = \<lparr>sc_shared = \<lparr>sharedDockerClients = [(''s'', 0)], dc_made = [new_transport ''s'']\<rparr>,
     sc_between = [], sc_answers = [(''s'', 0), (''s'', 0)]\<rparr>"

lemma raced_reached:
  "(section_step client_check client_commit)\<^sup>*\<^sup>* (sections_start no_clients) raced"
proof -
  let ?b = "\<lparr>sc_shared = no_clients, sc_between = [''s'', ''s''], sc_answers = []\<rparr>"
  let ?c = "raced\<lparr>sc_between := [''s''], sc_answers := [(''s'', 0)]\<rparr>"
  have b: "(section_step client_check client_commit)\<^sup>*\<^sup>* (sections_start no_clients) ?b"
    by (rule cl.all_leave) (simp add: client_check_def no_clients_def)
  have c: "section_step client_check client_commit ?b ?c"
    using section_step.commits [of ?b "[]" "''s''" "[''s'']" client_commit _ 0 client_check]
    by (simp add: no_clients_def raced_def client_commit_def)
  have d: "section_step client_check client_commit ?c raced"
    using section_step.commits [of ?c "[]" "''s''" "[]" client_commit _ 0 client_check]
    by (simp add: raced_def client_commit_def)
  from b c d show ?thesis by (meson rtranclp.rtrancl_into_rtrancl)
qed

theorem one_client_per_socket_witness:
  "dc_made (sc_shared raced) ! 0 = new_transport ''s'' \<and> length (dc_made (sc_shared raced)) = 1"
  using one_client_per_socket [OF raced_reached, of "''s''" 0 0] by (simp add: raced_def)

end
