(* ===== verification/Collector_Types.thy ===== *)
theory Collector_Types
  imports Agent_Collectors
begin

text \<open>
  The types of the metrics: what each collector of the registry may return, as the server and its
  panels rely on it (the headers of collectors/primitives_*.go and docs/en/collectors.md), and a
  tick in which the collectors share their memory.
\<close>

section \<open>Types\<close>

text \<open>\<open>TyInt\<close> is an \<open>int\<close> or \<open>int64\<close>, \<open>TyFrom n\<close> one from \<open>n\<close> on, \<open>TyNumber\<close> a finite double and
  \<open>TyWithin lo hi\<close> one in a range, \<open>TyDouble\<close> any double, \<open>TyRec req opt\<close> a map that has all
  members of \<open>req\<close> and none beside these and the ones of \<open>opt\<close>, \<open>TySignals\<close> a slice of runtime
  signals, \<open>TyDoc\<close> a decoded document.\<close>

datatype gty =
    TyNil
  | TyBool
  | TyInt
  | TyFrom int
  | TyNumber
  | TyWithin rat rat
  | TyDouble
  | TyStr
  | TyOneOf "string list"
  | TyOr gty gty
  | TyList gty
  | TyRec "(string \<times> gty) list" "(string \<times> gty) list"
  | TySignals
  | TyDoc

fun int_of :: "gval \<Rightarrow> int option" where
  "int_of (VInt i) = Some i"
| "int_of (VInt64 i) = Some i"
| "int_of _ = None"

fun has_ty :: "gval \<Rightarrow> gty \<Rightarrow> bool" where
  "has_ty v (TyOr a b) = (has_ty v a \<or> has_ty v b)"
| "has_ty v TyDoc = True"
| "has_ty v TySignals = False"
| "has_ty v TyNil = (v = VNil)"
| "has_ty v TyBool = (\<exists>b. v = VBool b)"
| "has_ty v TyInt = (int_of v \<noteq> None)"
| "has_ty v (TyFrom n) = (case int_of v of None \<Rightarrow> False | Some i \<Rightarrow> n \<le> i)"
| "has_ty v TyNumber = (case v of VFloat x \<Rightarrow> finite_f64 x | _ \<Rightarrow> False)"
| "has_ty v (TyWithin lo hi) = (case v of VFloat (Fin r) \<Rightarrow> lo \<le> r \<and> r \<le> hi | _ \<Rightarrow> False)"
| "has_ty v TyDouble = (case v of VFloat x \<Rightarrow> True | _ \<Rightarrow> False)"
| "has_ty v TyStr = (case v of VStr s \<Rightarrow> True | _ \<Rightarrow> False)"
| "has_ty v (TyOneOf ss) = (case v of VStr s \<Rightarrow> s \<in> set ss | _ \<Rightarrow> False)"
| "has_ty v (TyList t) = (case v of VList vs \<Rightarrow> (\<forall>x\<in>set vs. has_ty x t) | _ \<Rightarrow> False)"
| "has_ty v (TyRec req opt) =
     (case v of
        VMap es \<Rightarrow>
          distinct (map fst es) \<and> set (map fst req) \<subseteq> set (map fst es) \<and>
          (\<forall>e\<in>set es. case map_of (req @ opt) (fst e) of None \<Rightarrow> False | Some t \<Rightarrow> has_ty (snd e) t)
      | _ \<Rightarrow> False)"

lemma finite_prints [simp]: "gval_prints (VFloat x) \<longleftrightarrow> finite_f64 x"
  by (cases x) (auto simp: gval_prints_VFloat finite_f64_def)

text \<open>Setting a member to a value of its type.\<close>

lemma has_ty_update:
  assumes "has_ty (VMap es) (TyRec req opt)" "map_of (req @ opt) k = Some t" "has_ty v t"
  shows "has_ty (VMap (AList.update k v es)) (TyRec req opt)"
proof -
  let ?ok = "\<lambda>e. case map_of (req @ opt) (fst e) of None \<Rightarrow> False | Some t \<Rightarrow> has_ty (snd e) t"
  have "\<forall>e\<in>set es. ?ok e" "?ok (k, v)" using assms by simp_all
  then have "\<forall>e\<in>set (AList.update k v es). ?ok e" using set_update_subset [of k v es] by blast
  then show ?thesis using assms(1) by (auto simp: distinct_update dom_update keys_update)
qed

section \<open>The result of each collector\<close>

definition rate_ty :: "gargs \<Rightarrow> gty" where
  "rate_ty args = (if argFloat args ''sample_sec'' (Fin 1) = NaN then TyDouble else TyNumber)"

definition disk_ty :: gty where
  "disk_ty = TyRec [(''mount'', TyStr), (''used_pct'', TyNumber), (''total_gb'', TyInt)] []"

definition unit_ty :: gty where
  "unit_ty = TyRec
     [(''unit'', TyStr), (''active_state'', TyStr), (''sub_state'', TyStr), (''load_state'', TyStr)]
     [(''id'', TyStr), (''main_pid'', TyInt), (''memory_mb'', TyInt), (''cpu_ns'', TyInt),
      (''n_restarts'', TyInt)]"

definition container_ty :: gty where
  "container_ty = TyRec
     (map (\<lambda>s. (s, TyFrom 0)) (''total'' # state_buckets) @
      [(''list'', TyList (TyRec [(''name'', TyStr), (''image'', TyStr), (''state'', TyStr),
          (''status'', TyStr), (''restart_count'', TyInt), (''ports'', TyStr)] []))]) []"

definition stats_ty :: gty where
  "stats_ty = TyRec [(''name'', TyStr), (''image'', TyStr), (''state'', TyStr),
     (''cpu_pct'', TyNumber), (''mem_used_mb'', TyInt), (''mem_limit_mb'', TyInt),
     (''mem_pct'', TyNumber), (''restart_count'', TyInt)] []"

definition waf_ty :: gty where
  "waf_ty = TyRec [(''blocked'', TyFrom 0)]
     [(''by_class'', TyRec [] (map (\<lambda>(c, _). (c, TyFrom 1)) wafClassTags))]"

definition nginx_ty :: gty where
  "nginx_ty = TyRec [(''http_4xx'', TyFrom 0), (''http_403'', TyFrom 0), (''http_429'', TyFrom 0)] []"

definition bans_ty :: gty where
  "bans_ty = TyRec [(''banned_total'', TyFrom 0), (''banned_window'', TyFrom 0)]
     [(''recent'', TyList (TyRec [(''ip'', TyStr), (''at'', TyStr), (''reason'', TyStr)] []))]"

definition firewall_ty :: gty where
  "firewall_ty = TyRec [] [(''active'', TyBool), (''dropped_packets'', TyInt)]"

definition snapshot_ty :: gty where
  "snapshot_ty = TyRec [(''collected_at'', TyStr), (''window_seconds'', TyInt)]
     [(''waf'', waf_ty), (''nginx'', nginx_ty), (''fail2ban'', bans_ty), (''firewall'', firewall_ty)]"

text \<open>The type of what a collector returns for its arguments.\<close>

definition result_type :: "string \<Rightarrow> gargs \<Rightarrow> gty" where
  "result_type name args =
     (let field = str_arg args ''field''; pct = (field = [] \<or> field = ''used_pct'') in
      if name = ''procfs.loadavg'' then TyDouble
      else if name = ''procfs.uptime'' then TyInt
      else if name \<in> {''procfs.memory'', ''procfs.swap''} then (if pct then TyNumber else TyInt)
      else if name = ''procfs.cpu_count'' then TyFrom 0
      else if name = ''procfs.cpu_used_pct'' then TyWithin 0 100
      else if name = ''procfs.diskstats'' then
        TyRec [(''read_mbps'', rate_ty args), (''write_mbps'', rate_ty args), (''iops'', TyInt)] []
      else if name = ''procfs.netdev'' then
        TyRec [(''rx_mbps'', rate_ty args), (''tx_mbps'', rate_ty args),
          (''rx_errors'', TyInt), (''tx_errors'', TyInt)] []
      else if name \<in> {''os.release'', ''os.hostname'', ''os.kernel''} then TyStr
      else if name = ''os.arch'' then TyOneOf [''amd64'', ''arm64'']
      else if name \<in> {''reboot.required'', ''systemctl.is_active'', ''tcp.connect''} then TyBool
      else if name = ''disk.usage'' then
        (if str_arg args ''mount'' \<noteq> [] then disk_ty else TyList disk_ty)
      else if name = ''disk.max_used_pct'' then TyNumber
      else if name = ''exec'' then
        (let parse = str_arg args ''parse'' in
         if parse = ''int'' then TyInt else if parse = ''float'' then TyDouble
         else if parse = ''json'' then TyDoc else TyStr)
      else if name = ''systemd.resources'' then TyList unit_ty
      else if name = ''ssl.cert_expiry'' then TyInt
      else if name = ''http.get'' then (if str_arg args ''expect'' = ''ok'' then TyBool else TyInt)
      else if name = ''http.probe'' then
        TyRec [(''up'', TyBool), (''latency_ms'', TyInt), (''status'', TyInt)] []
      else if name = ''file.stat'' then (if field = [] \<or> field = ''exists'' then TyBool else TyInt)
      else if name \<in> {''file.newest_age_seconds'', ''apt.security_count''} then TyFrom (- 1)
      else if name = ''docker.containers'' then container_ty
      else if name = ''docker.stats'' then TyList stats_ty
      else if name = ''runtime.services'' then TySignals
      else if name = ''security.snapshot'' then TyOr TyNil snapshot_ty
      else TyDoc)"

text \<open>A runtime signal names its component, comes from this agent and has one of the two
  statuses.\<close>

definition signal_ty :: "runtimeSignal \<Rightarrow> bool" where
  "signal_ty s = (rs_ProductCode s \<noteq> [] \<and> rs_ComponentCode s \<noteq> [] \<and>
     rs_VersionSource s = ''HOST_AGENT'' \<and> rs_Status s \<in> {''HEALTHY'', ''STALE''})"

fun any_has_ty :: "any_val \<Rightarrow> gty \<Rightarrow> bool" where
  "any_has_ty (AVal g) t = has_ty g t"
| "any_has_ty (ASignals ss) t = (t = TySignals \<and> (\<forall>s\<in>set ss. signal_ty s))"

section \<open>Each collector returns its type\<close>

definition yields :: "string + gval \<Rightarrow> gty \<Rightarrow> bool" where
  "yields r t = (\<forall>v. r = Inr v \<longrightarrow> has_ty v t)"

lemma yields_simps [simp]: "yields (Inl e) t" "yields (Inr v) t = has_ty v t"
  by (simp_all add: yields_def)

lemma yields_bind: "(\<And>x. r = Inr x \<Longrightarrow> yields (k x) t) \<Longrightarrow> yields (result_bind r k) t"
  by (auto simp: yields_def result_bind_Inr_iff)

lemma plain_types:
  "yields (procfsLoadavg h args) TyDouble" "yields (procfsUptime h args) TyInt"
  "yields (procfsCPUCount h args) (TyFrom 0)" "yields (osRelease h args) TyStr"
  "yields (osHostname m args) TyStr" "yields (osKernel h args) TyStr"
  "yields (osArch h args) (TyOneOf [''amd64'', ''arm64''])" "yields (rebootRequired m args) TyBool"
  "yields (systemctlIsActive m args) TyBool" "yields (tcpConnect m args) TyBool"
  "yields (sslCertExpiry m args) TyInt" "yields (fileNewestAgeSeconds m args) (TyFrom (- 1))"
  "yields (aptSecurityCount m args) (TyFrom (- 1))"
  by (auto simp: prim_defs procfsLoadavg_def Let_def intro!: yields_bind split: list.splits option.splits
      sum.splits io_err.splits http_reply.splits prod.splits goarch.splits)

lemma choice_types:
  "yields (procfsMemory h args) (result_type ''procfs.memory'' args)"
  "yields (procfsSwap h args) (result_type ''procfs.swap'' args)"
  "yields (httpGet m args) (result_type ''http.get'' args)"
  "yields (httpProbe m args) (result_type ''http.probe'' args)"
  "yields (fileStat m args) (result_type ''file.stat'' args)"
  "yields (execPrimitive m args) (result_type ''exec'' args)"
proof -
  show "yields (procfsMemory h args) (result_type ''procfs.memory'' args)"
    using memory_prints(1) [of h args]
    by (auto simp: procfsMemory_def result_type_def Let_def yields_def prints_def result_bind_Inr_iff split: if_splits)
  show "yields (procfsSwap h args) (result_type ''procfs.swap'' args)"
    using memory_prints(2) [of h args]
    by (auto simp: procfsSwap_def result_type_def Let_def yields_def prints_def result_bind_Inr_iff split: if_splits)
  show "yields (httpGet m args) (result_type ''http.get'' args)"
    by (auto simp: httpGet_def result_type_def Let_def split: http_reply.splits)
  show "yields (httpProbe m args) (result_type ''http.probe'' args)"
    by (auto simp: httpProbe_def result_type_def Let_def split: http_reply.splits)
  show "yields (fileStat m args) (result_type ''file.stat'' args)"
    by (auto simp: fileStat_def result_type_def Let_def split: sum.splits io_err.splits)
  show "yields (execPrimitive m args) (result_type ''exec'' args)"
    by (auto simp: execPrimitive_def parse_output_def result_type_def Let_def intro!: yields_bind
        split: option.splits prod.splits)
qed

lemma disk_rows_type: "dfRows h b = Inr rows \<Longrightarrow> r \<in> set rows \<Longrightarrow> has_ty (df_val r) disk_ty"
  using df_prints [of h b rows r] by (simp add: df_val_def disk_ty_def)

lemma disk_types:
  "yields (diskUsage h args) (result_type ''disk.usage'' args)"
  "yields (diskMaxUsedPct h args) TyNumber"
proof -
  show "yields (diskUsage h args) (result_type ''disk.usage'' args)"
    using disk_rows_type [of h]
    by (auto simp: diskUsage_def result_type_def Let_def find_Some_iff intro!: yields_bind
        split: option.splits)
  show "yields (diskMaxUsedPct h args) TyNumber"
    using disk_print(2) [of h args]
    by (auto simp: diskMaxUsedPct_def prints_def yields_def result_bind_Inr_iff)
qed

lemma unit_type: "yields (systemdResources m args) (TyList unit_ty)"
  by (auto simp: systemdResources_def systemdShowOne_def unit_row_def missing_unit_def unit_ty_def Let_def
      intro!: yields_bind split: sum.splits option.splits prod.splits)

lemma container_type: "yields (dockerContainers h args) container_ty"
  by (auto simp: dockerContainers_def container_report_def row_val_def container_ty_def state_buckets_def
      Let_def intro!: yields_bind)

lemma stats_type: "yields (dockerStats h args) (TyList stats_ty)"
proof -
  have "has_ty (stats_val (stats_row h socket c)) stats_ty" for socket c
    using stats_row_prints [of h socket c] by (simp add: stats_val_def stats_ty_def)
  then show ?thesis by (auto simp: dockerStats_def Let_def intro!: yields_bind)
qed

lemma rate_types:
  "yields (procfsDiskstats h args) (result_type ''procfs.diskstats'' args)"
  "yields (procfsNetdev h args) (result_type ''procfs.netdev'' args)"
proof -
  have "argFloat args ''sample_sec'' (Fin 1) = NaN \<or>
      prints (procfsDiskstats h args) \<and> prints (procfsNetdev h args)"
    using rates_print by blast
  then show "yields (procfsDiskstats h args) (result_type ''procfs.diskstats'' args)"
    "yields (procfsNetdev h args) (result_type ''procfs.netdev'' args)"
    by (auto simp: procfsDiskstats_def procfsNetdev_def diskRates_def netRates_def result_type_def rate_ty_def
        yields_def prints_def result_bind_Inr_iff Let_def)
qed

section \<open>The collectors that remember\<close>

lemma cpu_type: "snd (cpu_call m st args) = Inr v \<Longrightarrow> any_has_ty v (TyWithin 0 100)"
proof -
  assume v: "snd (cpu_call m st args) = Inr v"
  obtain c r where c: "procfsCPUUsedPct (ma_host m) (ps_cpu st) = (c, r)" by fastforce
  with v obtain g where "r = Inr g" "v = AVal g" by (cases r) (auto simp: cpu_call_def)
  with cpu_used_range [of "ma_host m" "ps_cpu st" c g] c show ?thesis by auto
qed

lemma waf_type: "has_ty (VMap (countWAFBlocks ls)) waf_ty"
  by (auto simp: countWAFBlocks_def waf_ty_def wafClassTags_def Let_def)

lemma nginx_type: "has_ty (VMap (countNginx4xx ls)) nginx_ty"
  by (simp add: countNginx4xx_def nginx_ty_def Let_def)

lemma bans_type: "has_ty (VMap (ban_report s)) bans_ty"
  by (auto simp: ban_report_def ban_row_def bans_ty_def)

lemma firewall_type:
  assumes "snapshot_firewall h args = Some m"
  shows "has_ty (VMap m) firewall_ty"
proof -
  have drops: "collectFirewallDrops h c = Some f \<Longrightarrow> has_ty (VMap f) firewall_ty" for c f
    by (auto simp: collectFirewallDrops_def firewall_ty_def)
  have active: "has_ty (VMap (AList.update ''active'' (VBool a) f)) firewall_ty"
    if "has_ty (VMap f) firewall_ty" for a f
    using that unfolding firewall_ty_def by (rule has_ty_update [where t = TyBool]) simp_all
  have one: "has_ty (VMap [(''active'', VBool a)]) firewall_ty" for a
    by (simp add: firewall_ty_def)
  show ?thesis
    using assms drops active one
    by (auto simp: snapshot_firewall_def Let_def simp del: has_ty.simps split: option.splits)
qed

lemma section_type:
  assumes "has_ty (VMap out) snapshot_ty" "\<And>m. v = Some m \<Longrightarrow> has_ty (VMap m) t"
    "(k, t) \<in> {(''waf'', waf_ty), (''nginx'', nginx_ty), (''fail2ban'', bans_ty), (''firewall'', firewall_ty)}"
  shows "has_ty (VMap (add_section k v out)) snapshot_ty"
proof (cases v)
  case None
  then show ?thesis using assms(1) by (simp add: add_section_def)
next
  case (Some m)
  then show ?thesis
    using assms unfolding snapshot_ty_def
    by (auto simp: add_section_def simp del: has_ty.simps intro!: has_ty_update)
qed

lemma scan_type: "has_ty (VMap (scan_sources h args w)) snapshot_ty"
proof -
  have waf: "snapshot_waf h args since = Some m \<Longrightarrow> has_ty (VMap m) waf_ty" for since m
    by (auto simp: snapshot_waf_def collectWAFBlocksFile_def collectWAFBlocks_def waf_type
        simp del: has_ty.simps split: if_splits)
  have nginx: "snapshot_nginx h args since = Some m \<Longrightarrow> has_ty (VMap m) nginx_ty" for since m
    by (auto simp: snapshot_nginx_def collectNginx4xxFile_def collectNginx4xx_def nginx_type
        simp del: has_ty.simps split: if_splits)
  have bans: "snapshot_bans h args since = Some m \<Longrightarrow> has_ty (VMap m) bans_ty" for since m
    by (auto simp: snapshot_bans_def collectFail2ban_def bans_type simp del: has_ty.simps)
  show ?thesis
    unfolding scan_sources_def Let_def
    by (rule section_type | erule waf nginx bans firewall_type | simp add: snapshot_ty_def)+
qed

definition memory_typed :: "prim_state \<Rightarrow> bool" where
  "memory_typed st = (\<forall>m. sec_cache (ps_sec st) = Some m \<longrightarrow> has_ty (VMap m) snapshot_ty)"

lemma sec_type:
  assumes "memory_typed st"
  shows "memory_typed (fst (sec_call m st args))"
    "snd (sec_call m st args) = Inr v \<Longrightarrow> any_has_ty v (TyOr TyNil snapshot_ty)"
proof -
  let ?typed = "\<lambda>w. has_ty (VMap w) snapshot_ty"
  obtain s r where s: "securitySnapshot (ma_host m) (ps_sec st) args = (s, r)" by fastforce
  have "(\<forall>w. sec_cache s = Some w \<longrightarrow> ?typed w) \<and> (r = VNil \<or> (\<exists>w. r = VMap w \<and> ?typed w))"
    using assms s scan_type
    by (auto simp: securitySnapshot_def memory_typed_def cached_value_def Let_def
        simp del: has_ty.simps split: option.splits if_splits)
  then show "memory_typed (fst (sec_call m st args))"
    "snd (sec_call m st args) = Inr v \<Longrightarrow> any_has_ty v (TyOr TyNil snapshot_ty)"
    using s by (auto simp: sec_call_def memory_typed_def simp del: has_ty.simps(14))
qed

lemma call_keeps_sec: "ps_sec (fst (pure g st args)) = ps_sec st" "ps_sec (fst (cpu_call m st args)) = ps_sec st"
  "ps_sec (fst (signals_call m st args)) = ps_sec st"
  by (simp_all add: pure_def cpu_call_def signals_call_def split: prod.splits)

lemma call_memory_typed:
  assumes "memory_typed st" "(name, f) \<in> set (builtins m)"
  shows "memory_typed (fst (f st args))"
proof (cases "f = sec_call m")
  case True
  then show ?thesis using sec_type(1) assms(1) by simp
next
  case False
  then have "ps_sec (fst (f st args)) = ps_sec st"
    using assms(2) by (auto simp: builtins_def Let_def call_keeps_sec)
  then show ?thesis using assms(1) by (simp add: memory_typed_def)
qed

lemma reach_memory_typed: "prim_reach st \<Longrightarrow> memory_typed st"
  by (induction rule: prim_reach.induct) (simp_all add: call_memory_typed, simp add: memory_typed_def prim_init_def)

section \<open>Runtime signals\<close>

definition signal_head :: "runtimeSignal \<Rightarrow> string \<times> string \<times> string \<times> string" where
  "signal_head s = (rs_ProductCode s, rs_ComponentCode s, rs_VersionSource s, rs_Status s)"

lemma signal_head_keeps [simp]:
  "signal_head (put k v s) = signal_head s" "signal_head (s\<lparr>rs_Notes := e\<rparr>) = signal_head s"
  "signal_head (s\<lparr>rs_RunningVersion := e\<rparr>) = signal_head s" "signal_head (s\<lparr>rs_BuildRef := e\<rparr>) = signal_head s"
  "signal_head (s\<lparr>rs_GitCommit := e\<rparr>) = signal_head s"
  by (simp_all add: signal_head_def put_def)

lemma stages_keep_head:
  "check_container h socket svc s = Inl t \<or> check_container h socket svc s = Inr t \<Longrightarrow>
     signal_head t = signal_head s"
  "check_health h svc s = Inl t \<or> check_health h svc s = Inr t \<Longrightarrow> signal_head t = signal_head s"
  "signal_head (add_info h svc s) = signal_head s"
  by (auto simp: check_container_def check_health_def add_info_def Let_def
      split: if_splits sum.splits option.splits prod.splits)

lemma service_signal_ty:
  assumes "rsc_ProductCode svc \<noteq> []" "rsc_ComponentCode svc \<noteq> []"
  shows "signal_ty (probeRuntimeService h socket svc)"
proof -
  let ?i = "initial_signal h svc"
  have ok: "signal_ty s" "signal_ty (s\<lparr>rs_Status := ''HEALTHY''\<rparr>)"
    if "signal_head s = signal_head ?i" for s
    using that assms by (auto simp: signal_head_def signal_ty_def initial_signal_def)
  show ?thesis
    unfolding probeRuntimeService_def
    by (auto split: sum.splits intro!: ok dest!: stages_keep_head(1) [OF disjI1] stages_keep_head(1) [OF disjI2]
        stages_keep_head(2) [OF disjI1] stages_keep_head(2) [OF disjI2] simp: stages_keep_head(3))
qed

lemma service_item_codes:
  "service_item g = Inr xs \<Longrightarrow> x \<in> set xs \<Longrightarrow> rsc_ProductCode x \<noteq> [] \<and> rsc_ComponentCode x \<noteq> []"
  by (auto simp: service_item_def Let_def split: gval.splits if_splits)

lemma collected_codes:
  "collect service_item gs = Inr svcs \<Longrightarrow> svc \<in> set svcs \<Longrightarrow>
     rsc_ProductCode svc \<noteq> [] \<and> rsc_ComponentCode svc \<noteq> []"
proof (induction gs arbitrary: svcs)
  case (Cons g gs)
  from Cons.prems(1) obtain xs ys where "service_item g = Inr xs" "collect service_item gs = Inr ys"
    "svcs = xs @ ys"
    by (auto simp: result_bind_Inr_iff split: sum.splits)
  then show ?case using Cons.IH Cons.prems(2) service_item_codes by (metis Un_iff set_append)
qed simp

lemma configs_have_codes:
  assumes "runtimeServiceConfigs raw = Inr svcs" "svc \<in> set svcs"
  shows "rsc_ProductCode svc \<noteq> []" "rsc_ComponentCode svc \<noteq> []"
  using assms collected_codes by (auto simp: runtimeServiceConfigs_def split: gval.splits)

lemma signals_type: "snd (signals_call m st args) = Inr v \<Longrightarrow> any_has_ty v TySignals"
  by (auto simp: signals_call_def runtimeServices_def result_bind_Inr_iff
      dest: configs_have_codes intro!: service_signal_ty)

text \<open>Every call of every collector, in every memory that calls leave behind.\<close>

lemma pure_type: "yields (g args) t \<Longrightarrow> snd (pure g st args) = Inr v \<Longrightarrow> any_has_ty v t"
  by (cases "g args") (auto simp: pure_def)

definition typed :: "string \<Rightarrow> primitive \<Rightarrow> bool" where
  "typed name f =
     (\<forall>st args v. memory_typed st \<longrightarrow> snd (f st args) = Inr v \<longrightarrow> any_has_ty v (result_type name args))"

lemma typed_pure: "(\<And>args. yields (g args) (result_type name args)) \<Longrightarrow> typed name (pure g)"
  unfolding typed_def by (blast intro: pure_type)

lemma yields_doc: "yields r TyDoc"
  by (simp add: yields_def)

lemma typed_choice:
  "typed ''procfs.memory'' (pure (procfsMemory h))" "typed ''procfs.swap'' (pure (procfsSwap h))"
  "typed ''http.get'' (pure (httpGet m))" "typed ''http.probe'' (pure (httpProbe m))"
  "typed ''file.stat'' (pure (fileStat m))" "typed ''exec'' (pure (execPrimitive m))"
  "typed ''disk.usage'' (pure (diskUsage h))" "typed ''procfs.diskstats'' (pure (procfsDiskstats h))"
  "typed ''procfs.netdev'' (pure (procfsNetdev h))"
  by (rule typed_pure, rule choice_types disk_types rate_types)+

lemma typed_plain:
  "typed ''procfs.loadavg'' (pure (procfsLoadavg h))" "typed ''procfs.uptime'' (pure (procfsUptime h))"
  "typed ''procfs.cpu_count'' (pure (procfsCPUCount h))" "typed ''os.release'' (pure (osRelease h))"
  "typed ''os.hostname'' (pure (osHostname m))" "typed ''os.kernel'' (pure (osKernel h))"
  "typed ''os.arch'' (pure (osArch h))" "typed ''reboot.required'' (pure (rebootRequired m))"
  "typed ''systemctl.is_active'' (pure (systemctlIsActive m))" "typed ''tcp.connect'' (pure (tcpConnect m))"
  "typed ''ssl.cert_expiry'' (pure (sslCertExpiry m))"
  "typed ''file.newest_age_seconds'' (pure (fileNewestAgeSeconds m))"
  "typed ''apt.security_count'' (pure (aptSecurityCount m))"
  "typed ''disk.max_used_pct'' (pure (diskMaxUsedPct h))"
  "typed ''systemd.resources'' (pure (systemdResources m))"
  "typed ''docker.containers'' (pure (dockerContainers h))" "typed ''docker.stats'' (pure (dockerStats h))"
  "typed ''http.get_json'' (pure (httpGetJSON m))"
  by (rule typed_pure, simp add: result_type_def plain_types disk_types(2) unit_type container_type
      stats_type yields_doc del: yields_simps has_ty.simps)+

lemma typed_states:
  "typed ''procfs.cpu_used_pct'' (cpu_call m)" "typed ''security.snapshot'' (sec_call m)"
  "typed ''runtime.services'' (signals_call m)"
  using cpu_type sec_type(2) signals_type
  by (simp_all add: typed_def result_type_def del: has_ty.simps any_has_ty.simps)

lemma builtins_typed: "\<forall>(name, f)\<in>set (builtins m). typed name f"
  by (simp add: builtins_def Let_def typed_choice typed_plain typed_states)

lemma collectors_typed:
  assumes "(name, f) \<in> set (builtins m)" "prim_reach st" "snd (f st args) = Inr v"
  shows "any_has_ty v (result_type name args)"
  using builtins_typed [of m] reach_memory_typed [OF assms(2)] assms(1,3) by (auto simp: typed_def)

end
