(* ===== verification/Shared_Tick.thy ===== *)
theory Shared_Tick
  imports Collector_Types
begin

text \<open>
  \<open>collectors.Run\<close> (collectors/runner.go) on the collectors of the registry with the memory they
  share: each goroutine finds what the calls that finished before it left behind, on a machine that
  changes meanwhile.
\<close>

section \<open>A tick\<close>

record tick_state =
  tk_mem :: prim_state
  tk_pending :: "Binding list"
  tk_out :: metrics

text \<open>The bindings for which \<open>Run\<close> starts a goroutine.\<close>

definition usable :: "Binding \<Rightarrow> bool" where
  "usable b = (OutputKey b \<noteq> [] \<and> Primitive b \<in> set DefaultRegistry)"

definition tick_init :: "prim_state \<Rightarrow> Binding list \<Rightarrow> tick_state" where
  "tick_init st bs = \<lparr>tk_mem = st, tk_pending = filter usable bs, tk_out = []\<rparr>"

text \<open>One goroutine on the machine as it is then: the collector with the memory, and the merge of
  its result.\<close>

definition call_builtin :: "machine \<Rightarrow> Binding \<Rightarrow> prim_state \<Rightarrow> prim_state \<times> (string + any_val)" where
  "call_builtin m b st =
     (case map_of (builtins m) (Primitive b) of
        None \<Rightarrow> (st, Inl ''unknown primitive'')
      | Some f \<Rightarrow> f st (Args b))"

definition tick_write :: "Binding \<Rightarrow> string + any_val \<Rightarrow> metrics \<Rightarrow> metrics" where
  "tick_write b r out =
     (case r of
        Inl e \<Rightarrow> out
      | Inr v \<Rightarrow> AList.update (OutputKey b) (mergeBindingValue (mget out (OutputKey b)) v) out)"

text \<open>The documents that the machine's decoder returns hold numbers in the range of a double:
  \<open>encoding/json\<close> refuses others.\<close>

inductive tick_step :: "tick_state \<Rightarrow> tick_state \<Rightarrow> bool" where
  finish: "tk_pending s = xs @ b # ys \<Longrightarrow> docs_finite (ma_host m) \<Longrightarrow>
    tick_step s \<lparr>tk_mem = fst (call_builtin m b (tk_mem s)), tk_pending = xs @ ys,
      tk_out = tick_write b (snd (call_builtin m b (tk_mem s))) (tk_out s)\<rparr>"

text \<open>\<open>Tick st bs st' out\<close>: started with the memory \<open>st\<close>, \<open>Run\<close> returns \<open>out\<close> in some schedule and
  leaves \<open>st'\<close>.\<close>

definition Tick :: "prim_state \<Rightarrow> Binding list \<Rightarrow> prim_state \<Rightarrow> metrics \<Rightarrow> bool" where
  "Tick st bs st' out = tick_step\<^sup>*\<^sup>* (tick_init st bs) \<lparr>tk_mem = st', tk_pending = [], tk_out = out\<rparr>"

text \<open>The schedule that finishes the bindings in their order, on one machine.\<close>

fun tick_in_order :: "machine \<Rightarrow> prim_state \<Rightarrow> Binding list \<Rightarrow> metrics \<Rightarrow> prim_state \<times> metrics" where
  "tick_in_order m st [] out = (st, out)"
| "tick_in_order m st (b # bs) out =
     (case call_builtin m b st of (st', r) \<Rightarrow> tick_in_order m st' bs (tick_write b r out))"

section \<open>Facts\<close>

lemma tick_in_order_steps:
  "docs_finite (ma_host m) \<Longrightarrow> tick_in_order m st bs out = (st', out') \<Longrightarrow>
     tick_step\<^sup>*\<^sup>* \<lparr>tk_mem = st, tk_pending = bs, tk_out = out\<rparr> \<lparr>tk_mem = st', tk_pending = [], tk_out = out'\<rparr>"
proof (induction bs arbitrary: st out)
  case (Cons b bs)
  let ?s = "\<lparr>tk_mem = st, tk_pending = b # bs, tk_out = out\<rparr>"
  obtain st1 r where c: "call_builtin m b st = (st1, r)" by fastforce
  have "tick_step ?s \<lparr>tk_mem = st1, tk_pending = bs, tk_out = tick_write b r out\<rparr>"
    using finish [of ?s "[]" b bs m] c Cons.prems by simp
  moreover have "tick_in_order m st1 bs (tick_write b r out) = (st', out')" using Cons.prems c by simp
  ultimately show ?case using Cons.IH Cons.prems(1) by (metis converse_rtranclp_into_rtranclp)
qed simp

text \<open>A tick never gets stuck: from every state some schedule finishes.\<close>

lemma Tick_in_order:
  "docs_finite (ma_host m) \<Longrightarrow> tick_in_order m st (filter usable bs) [] = (st', out) \<Longrightarrow> Tick st bs st' out"
  unfolding Tick_def tick_init_def by (rule tick_in_order_steps)

lemma call_builtin_reach: "prim_reach st \<Longrightarrow> prim_reach (fst (call_builtin m b st))"
  by (auto simp: call_builtin_def split: option.split intro: prim_reach.call dest: map_of_SomeD)

lemma call_builtin_typed:
  "prim_reach st \<Longrightarrow> snd (call_builtin m b st) = Inr v \<Longrightarrow> any_has_ty v (result_type (Primitive b) (Args b))"
  by (auto simp: call_builtin_def split: option.splits intro: collectors_typed dest: map_of_SomeD)

text \<open>What a key holds came from a binding of that key, with the type of that binding.\<close>

definition metric_from :: "Binding list \<Rightarrow> string \<times> any_val \<Rightarrow> bool" where
  "metric_from bs e =
     (\<exists>b\<in>set bs. usable b \<and> OutputKey b = fst e \<and> any_has_ty (snd e) (result_type (Primitive b) (Args b)))"

lemma merge_typed:
  assumes "any_has_ty v t" "any_has_ty old u \<or> old = AVal VNil"
  shows "any_has_ty (mergeBindingValue old v) t"
  using assms by (cases old; cases v) (auto simp: mergeBindingValue_def)

lemma tick_write_from:
  assumes "\<forall>e\<in>set out. metric_from bs e" "b \<in> set bs" "usable b"
    "\<And>v. r = Inr v \<Longrightarrow> any_has_ty v (result_type (Primitive b) (Args b))"
  shows "\<forall>e\<in>set (tick_write b r out). metric_from bs e"
proof (cases r)
  case Inl
  then show ?thesis using assms(1) by (simp add: tick_write_def)
next
  case (Inr v)
  let ?k = "OutputKey b"
  have "(\<exists>u. any_has_ty (mget out ?k) u) \<or> mget out ?k = AVal VNil"
    using assms(1) by (cases "map_of out ?k") (fastforce simp: mget_def metric_from_def dest: map_of_SomeD)+
  then have "metric_from bs (?k, mergeBindingValue (mget out ?k) v)"
    using assms(2-4) Inr merge_typed unfolding metric_from_def by fastforce
  then show ?thesis
    using assms(1) set_update_subset [of ?k "mergeBindingValue (mget out ?k) v" out] Inr
    by (auto simp: tick_write_def)
qed

definition tick_inv :: "Binding list \<Rightarrow> tick_state \<Rightarrow> bool" where
  "tick_inv bs s =
     (prim_reach (tk_mem s) \<and> set (tk_pending s) \<subseteq> set (filter usable bs) \<and>
      distinct (map fst (tk_out s)) \<and> (\<forall>e\<in>set (tk_out s). metric_from bs e))"

lemma tick_step_inv: "tick_step s s' \<Longrightarrow> tick_inv bs s \<Longrightarrow> tick_inv bs s'"
proof (induction rule: tick_step.induct)
  case (finish s xs b ys m)
  let ?r = "snd (call_builtin m b (tk_mem s))"
  have b: "b \<in> set bs" "usable b" and st: "prim_reach (tk_mem s)"
    using finish by (auto simp: tick_inv_def)
  then have "\<forall>e\<in>set (tick_write b ?r (tk_out s)). metric_from bs e"
    using finish.prems call_builtin_typed by (intro tick_write_from) (auto simp: tick_inv_def)
  moreover have "distinct (map fst (tick_write b ?r (tk_out s)))"
    using finish.prems by (auto simp: tick_write_def tick_inv_def distinct_update split: sum.split)
  ultimately show ?case
    using finish call_builtin_reach [OF st] by (auto simp: tick_inv_def)
qed

lemma Tick_inv:
  assumes "prim_reach st" "Tick st bs st' out"
  shows "tick_inv bs \<lparr>tk_mem = st', tk_pending = [], tk_out = out\<rparr>"
proof -
  have "tick_inv bs (tick_init st bs)" using assms(1) by (auto simp: tick_inv_def tick_init_def)
  with assms(2) show ?thesis
    unfolding Tick_def by (induction rule: rtranclp_induct) (auto intro: tick_step_inv)
qed

text \<open>What a tick collects prints, unless a binding may read a number that is none.\<close>

lemma call_builtin_prints:
  "docs_finite (ma_host m) \<Longrightarrow> prim_reach st \<Longrightarrow> \<not> may_not_print (Primitive b) (Args b) \<Longrightarrow>
     snd (call_builtin m b st) = Inr v \<Longrightarrow> any_prints v"
  by (auto simp: call_builtin_def split: option.splits intro: builtin_prints dest: map_of_SomeD)

lemma tick_write_prints:
  assumes "\<forall>e\<in>set out. any_prints (snd e)" "\<And>v. r = Inr v \<Longrightarrow> any_prints v"
  shows "\<forall>e\<in>set (tick_write b r out). any_prints (snd e)"
proof (cases r)
  case (Inr v)
  have "any_prints (mget out (OutputKey b))"
    using assms(1) by (cases "map_of out (OutputKey b)") (fastforce simp: mget_def dest: map_of_SomeD)+
  then show ?thesis
    using assms Inr set_update_subset [of "OutputKey b" "mergeBindingValue (mget out (OutputKey b)) v" out]
    by (auto simp: tick_write_def merge_prints)
qed (use assms in \<open>simp add: tick_write_def\<close>)

lemma Tick_prints:
  assumes "prim_reach st" "Tick st bs st' out" "\<forall>b\<in>set bs. \<not> may_not_print (Primitive b) (Args b)"
  shows "\<forall>e\<in>set out. any_prints (snd e)"
proof -
  have step: "tick_step s s' \<Longrightarrow> tick_inv bs s \<Longrightarrow> \<forall>e\<in>set (tk_out s). any_prints (snd e) \<Longrightarrow>
      \<forall>e\<in>set (tk_out s'). any_prints (snd e)" for s s'
  proof (induction rule: tick_step.induct)
    case (finish s xs b ys m)
    then have "b \<in> set bs" "prim_reach (tk_mem s)" by (auto simp: tick_inv_def)
    then have prints: "any_prints v" if "snd (call_builtin m b (tk_mem s)) = Inr v" for v
      using call_builtin_prints finish.hyps(2) assms(3) that by blast
    show ?case using tick_write_prints [OF finish.prems(2) prints] by simp
  qed
  have init: "tick_inv bs (tick_init st bs)" using assms(1) by (auto simp: tick_inv_def tick_init_def)
  have "tick_step\<^sup>*\<^sup>* (tick_init st bs) s \<Longrightarrow> tick_inv bs s \<and> (\<forall>e\<in>set (tk_out s). any_prints (snd e))" for s
    by (induction rule: rtranclp_induct)
      (use init step in \<open>auto simp: tick_init_def intro: tick_step_inv\<close>)
  then show ?thesis using assms(2) unfolding Tick_def by fastforce
qed

section \<open>Properties\<close>

text \<open>C15: Every metric has the type its collector promises: however the collectors of a tick
  interleave, whatever the machine answers to each of them and whatever earlier ticks left in the
  memory they share, the memory stays one that calls can leave behind, each key is there once, and
  what it holds has the type of a usable binding of that key, by the binding's own collector and
  arguments.\<close>

theorem metrics_typed:
  assumes "prim_reach st" "Tick st bs st' out"
  shows "prim_reach st' \<and> distinct (map fst out) \<and>
    (\<forall>e\<in>set out. \<exists>b\<in>set bs. OutputKey b = fst e \<and> Primitive b \<in> set DefaultRegistry \<and>
       any_has_ty (snd e) (result_type (Primitive b) (Args b)))"
  using Tick_inv [OF assms] by (auto simp: tick_inv_def metric_from_def usable_def)

text \<open>C29: the heartbeat cannot be silenced by the values the collectors find: when no binding reads
  a float from a command or the load file or samples over an interval that is not a number, every
  payload prints, whatever the machine, the containers, the probed documents and the collectors that
  finished before answer, in every schedule, and a server that accepts hears the host.\<close>

theorem heartbeat_never_silenced:
  assumes "prim_reach st" "Tick st (tick_bindings s ti) st' out"
    and "\<forall>b\<in>set (tick_bindings s ti). \<not> may_not_print (Primitive b) (Args b)"
    and "send_payload parse w s (finish_payload out (tick_summaries s ti) (ti_now ti)) d = (r, e)"
  shows "r \<noteq> Inl MarshalFailed \<and>
    (\<forall>status body clean. out_reply w = Reply status body clean \<and> status < 400 \<longrightarrow> is_ok r)"
proof -
  have "gomap_ok out" using Tick_inv [OF assms(1,2)] by (simp add: tick_inv_def gomap_ok_def)
  then have "marshals (withoutMetric ''runtime_instances''
      (finish_payload out (tick_summaries s ti) (ti_now ti)))"
    using Tick_prints [OF assms(1-3)] by (intro finish_prints) (force dest: map_of_SomeD)+
  with assms(4) show ?thesis by (auto simp: send_payload_def Let_def split: reply.splits if_splits)
qed

section \<open>A concrete tick\<close>

definition demo_shared_bindings :: "Binding list" where
  "demo_shared_bindings =
     [\<lparr>ID = ''arch'', Primitive = ''os.arch'', Args = [], OutputKey = ''arch''\<rparr>,
      \<lparr>ID = ''bad'', Primitive = ''nosuch'', Args = [], OutputKey = ''bad''\<rparr>,
      \<lparr>ID = ''sec'', Primitive = ''security.snapshot'', Args = [], OutputKey = ''security''\<rparr>,
      \<lparr>ID = ''svc'', Primitive = ''runtime.services'', Args = [(''services'', demo_services)],
        OutputKey = ''runtime_instances''\<rparr>]"

lemma demo_docs_finite: "docs_finite (ma_host (demo_machine []))"
  by (simp add: docs_finite_def demo_machine_def demo_host_def)

lemma demo_services_served: "\<exists>v. runtimeServices h [(''services'', demo_services)] = Inr v"
  by (simp add: runtimeServices_def gget_def demo_services_def runtimeServiceConfigs_def
      service_item_def service_config_def argString_def)

lemma demo_shared_tick:
  "\<exists>st out. tick_in_order (demo_machine []) prim_init (filter usable demo_shared_bindings) [] = (st, out) \<and>
     map fst out = [''arch'', ''security'', ''runtime_instances'']"
proof -
  let ?m = "demo_machine []" and ?bs = demo_shared_bindings
  have usable: "filter usable ?bs = [?bs ! 0, ?bs ! 2, ?bs ! 3]"
    by (simp add: demo_shared_bindings_def usable_def DefaultRegistry_def)
  obtain v0 where 0: "call_builtin ?m (?bs ! 0) prim_init = (prim_init, Inr v0)"
    by (simp add: call_builtin_def demo_shared_bindings_def builtins_def Let_def pure_def osArch_def
        demo_machine_def demo_host_def)
  have "\<exists>st v. call_builtin ?m (?bs ! 2) prim_init = (st, Inr v)"
    by (simp add: call_builtin_def demo_shared_bindings_def builtins_def Let_def sec_call_def split: prod.split)
  then obtain st v2 where 2: "call_builtin ?m (?bs ! 2) prim_init = (st, Inr v2)" by blast
  obtain v3 where 3: "call_builtin ?m (?bs ! 3) st = (st, Inr v3)"
    using demo_services_served [of "ma_host ?m"]
    by (auto simp: call_builtin_def demo_shared_bindings_def builtins_def Let_def signals_call_def)
  have keys: "OutputKey (?bs ! 0) = ''arch''" "OutputKey (?bs ! 2) = ''security''"
    "OutputKey (?bs ! 3) = ''runtime_instances''"
    by (simp_all add: demo_shared_bindings_def)
  have "fst (tick_in_order ?m prim_init [?bs ! 0, ?bs ! 2, ?bs ! 3] []) = st"
    "map fst (snd (tick_in_order ?m prim_init [?bs ! 0, ?bs ! 2, ?bs ! 3] [])) =
       [''arch'', ''security'', ''runtime_instances'']"
    by (simp_all add: 0 2 3 tick_write_def keys)
  then show ?thesis unfolding usable by (metis prod.collapse)
qed

theorem metrics_typed_witness:
  "\<exists>st out. Tick prim_init demo_shared_bindings st out \<and> prim_reach st \<and>
     map fst out = [''arch'', ''security'', ''runtime_instances''] \<and>
     (\<forall>e\<in>set out. \<exists>b\<in>set demo_shared_bindings. OutputKey b = fst e \<and>
        any_has_ty (snd e) (result_type (Primitive b) (Args b)))"
proof -
  obtain st out where run: "tick_in_order (demo_machine []) prim_init (filter usable demo_shared_bindings) [] = (st, out)"
    and keys: "map fst out = [''arch'', ''security'', ''runtime_instances'']"
    using demo_shared_tick by auto
  have t: "Tick prim_init demo_shared_bindings st out"
    by (rule Tick_in_order [OF demo_docs_finite run])
  show ?thesis
    using metrics_typed [OF prim_reach.init t] keys t by (intro exI [of _ st] exI [of _ out]) auto
qed

theorem heartbeat_never_silenced_witness:
  "\<exists>st out. Tick prim_init demo_bindings st out \<and>
     is_ok (fst (send_payload demo_reply demo_outside demo_sender
       (finish_payload out (tick_summaries demo_sender demo_tick) (ti_now demo_tick)) Map.empty))"
proof -
  obtain st out where "tick_in_order (demo_machine []) prim_init (filter usable demo_bindings) [] = (st, out)"
    by fastforce
  then have t: "Tick prim_init demo_bindings st out"
    by (rule Tick_in_order [OF demo_docs_finite])
  have b: "tick_bindings demo_sender demo_tick = demo_bindings" by (rule demo_tick_input(1))
  have "\<forall>b\<in>set demo_bindings. \<not> may_not_print (Primitive b) (Args b)"
    by (simp add: demo_bindings_def may_not_print_def)
  moreover obtain r e where sent: "send_payload demo_reply demo_outside demo_sender
      (finish_payload out (tick_summaries demo_sender demo_tick) (ti_now demo_tick)) Map.empty = (r, e)"
    by fastforce
  ultimately have "is_ok r"
    using heartbeat_never_silenced [OF prim_reach.init _ _ sent] t by (auto simp: b demo_outside_def)
  with t sent show ?thesis by (intro exI [of _ st] exI [of _ out]) simp
qed

end
