(* ===== verification/Agent_Process.thy ===== *)
theory Agent_Process
  imports Shared_Tick Agent_Main Control_Channel
begin

text \<open>
  The running process (\<open>main\<close> in cmd/agent/main.go) with everything that runs in it at a time: the
  heartbeat loop with its ticker, the signal handler, the loop that keeps the control channel up and
  the sessions it opened, whose jobs may outlive their socket.
\<close>

section \<open>The state\<close>

text \<open>What is fixed once the process runs: the agent that \<open>start\<close> made, the environment and the
  architecture, and how JSON and YAML read.\<close>

record setting =
  se_agent :: agent
  se_env :: "string \<Rightarrow> string"
  se_arch :: goarch
  se_parse :: "string \<Rightarrow> json option"
  se_yaml :: "string \<Rightarrow> ControlConfig option"
  se_services :: "string \<Rightarrow> serviceDef option"

abbreviation config_of :: "setting \<Rightarrow> Config" where
  "config_of g \<equiv> ag_cfg (se_agent g)"

text \<open>The collectors come with their memory, through \<open>Tick\<close>, so the registry of the sender stays
  unused.\<close>

definition sender_of :: "setting \<Rightarrow> Sender" where
  "sender_of g = NewSender Map.empty (config_of g) (ag_collectorDir (se_agent g))"

datatype process_end = Exited int | Panicked

text \<open>Where \<open>main\<close> is: before the ticker, before the first heartbeat, in the loop, gone. Where the
  goroutine of the control channel is, with its backoff.\<close>

datatype main_phase = Launching | FirstBeat ticking | Looping ticking | Ended process_end

datatype channel_phase =
    Dialling nat
  | Handshaking nat
  | Connected nat
  | Pausing nat
  | ChannelReturned

record process =
  pr_main :: main_phase
  pr_stopping :: bool
  pr_mem :: prim_state
  pr_disk :: disk
  pr_results :: "(send_error + int) list"
  pr_requests :: "http_request list"
  pr_channel :: channel_phase
  pr_dials :: "(string \<times> (string \<times> string) list) list"
  pr_sessions :: "session list"

definition ended :: "process \<Rightarrow> bool" where
  "ended s = (case pr_main s of Ended _ \<Rightarrow> True | _ \<Rightarrow> False)"

definition process_init :: "disk \<Rightarrow> process" where
  "process_init d =
     \<lparr>pr_main = Launching, pr_stopping = False, pr_mem = prim_init, pr_disk = d, pr_results = [],
      pr_requests = [], pr_channel = Dialling 1, pr_dials = [], pr_sessions = []\<rparr>"

section \<open>The heartbeat loop\<close>

definition launch :: "setting \<Rightarrow> main_phase" where
  "launch g =
     (case start_ticker (HeartbeatIntervalSeconds (config_of g)) of
        None \<Rightarrow> Ended Panicked
      | Some t \<Rightarrow> FirstBeat t)"

definition beating :: "main_phase \<Rightarrow> ticking option" where
  "beating p = (case p of FirstBeat t \<Rightarrow> Some t | Looping t \<Rightarrow> Some t | _ \<Rightarrow> None)"

text \<open>What a heartbeat leaves: an error is logged, a reply may retune the ticker.\<close>

definition next_phase :: "ticking \<Rightarrow> send_error + int \<Rightarrow> main_phase" where
  "next_phase t r =
     (case r of
        Inl err \<Rightarrow> Looping t
      | Inr desired \<Rightarrow>
          (case applyInterval desired t of None \<Rightarrow> Ended Panicked | Some t' \<Rightarrow> Looping t'))"

definition after_beat ::
  "ticking \<Rightarrow> prim_state \<Rightarrow> (send_error + int) \<times> effects \<Rightarrow> process \<Rightarrow> process" where
  "after_beat t mem re s =
     s\<lparr>pr_main := next_phase t (fst re), pr_mem := mem, pr_disk := eff_disk (snd re),
       pr_results := pr_results s @ [fst re],
       pr_requests := pr_requests s @ eff_requests (snd re)\<rparr>"

section \<open>The control channel\<close>

definition dial_request :: "setting \<Rightarrow> string \<times> (string \<times> string) list" where
  "dial_request g =
     (controlURL (ICLICUrl (config_of g)),
      [(''Authorization'', ''Bearer '' @ bearer (config_of g)),
       (''User-Agent'', ''iclic-host-agent/'' @ AgentVersion)])"

definition after_connect :: "nat \<Rightarrow> connect_result \<Rightarrow> process \<Rightarrow> process" where
  "after_connect b r s =
     (case r of
        Serving h new \<Rightarrow> s\<lparr>pr_channel := Connected b, pr_sessions := pr_sessions s @ [new]\<rparr>
      | _ \<Rightarrow> s\<lparr>pr_channel := Pausing b\<rparr>)"

text \<open>The socket of a session is gone; its jobs are not told.\<close>

definition drop_session :: "session \<Rightarrow> session" where
  "drop_session x = x\<lparr>sock_closed := True\<rparr>"

text \<open>The cancellation of the process context reaches every job of every session and closes the
  sockets.\<close>

definition shutdown_session :: "session \<Rightarrow> session" where
  "shutdown_session x = x\<lparr>sock_closed := True, jobs := map (\<lambda>j. j\<lparr>j_done := True\<rparr>) (jobs x)\<rparr>"

section \<open>Steps\<close>

text \<open>\<open>pr_requests\<close> and \<open>pr_dials\<close> are the requests of the heartbeat sender and the dials of the control
  channel. The answers that the collectors of a beat get from other hosts and sockets are inputs of
  \<open>Tick\<close>. A signal may come at any time; \<open>main\<close> sees it between two heartbeats only. A session that was
  dropped goes on with the jobs it has. When \<open>main\<close> is gone nothing runs.\<close>

inductive process_step :: "setting \<Rightarrow> process \<Rightarrow> process \<Rightarrow> bool" for g where
  new_ticker: "pr_main s = Launching \<Longrightarrow> process_step g s (s\<lparr>pr_main := launch g\<rparr>)"
| beat: "beating (pr_main s) = Some t \<Longrightarrow> Tick (pr_mem s) (tick_bindings (sender_of g) ti) mem out \<Longrightarrow>
    out_env w = se_env g \<Longrightarrow>
    process_step g s
      (after_beat t mem
        (send_payload (se_parse g) w (sender_of g)
          (finish_payload out (tick_summaries (sender_of g) ti) (ti_now ti)) (pr_disk s)) s)"
| signal: "\<not> ended s \<Longrightarrow>
    process_step g s (s\<lparr>pr_stopping := True, pr_sessions := map shutdown_session (pr_sessions s)\<rparr>)"
| quit: "pr_main s = Looping t \<Longrightarrow> pr_stopping s \<Longrightarrow>
    process_step g s (s\<lparr>pr_main := Ended (Exited exitOK)\<rparr>)"
| dial: "\<not> ended s \<Longrightarrow> pr_channel s = Dialling b \<Longrightarrow> \<not> pr_stopping s \<Longrightarrow>
    process_step g s (s\<lparr>pr_channel := Handshaking b, pr_dials := pr_dials s @ [dial_request g]\<rparr>)"
| handshake: "\<not> ended s \<Longrightarrow> pr_channel s = Handshaking b \<Longrightarrow> hello_sent \<longrightarrow> \<not> pr_stopping s \<Longrightarrow>
    process_step g s
      (after_connect b
        (connectOnce (se_arch g) (se_env g) fs (se_yaml g) (se_services g) AgentVersion dialled hello_sent) s)"
| serve: "\<not> ended s \<Longrightarrow> i < length (pr_sessions s) \<Longrightarrow> ev \<noteq> Shutdown \<Longrightarrow>
    session_step (se_arch g) (se_parse g) (pr_sessions s ! i) ev x \<Longrightarrow>
    process_step g s (s\<lparr>pr_sessions := (pr_sessions s)[i := x]\<rparr>)"
| disconnect: "\<not> ended s \<Longrightarrow> pr_channel s = Connected b \<Longrightarrow> pending (last (pr_sessions s)) = [] \<Longrightarrow>
    process_step g s
      (s\<lparr>pr_channel := Pausing b,
         pr_sessions := butlast (pr_sessions s) @ [drop_session (last (pr_sessions s))]\<rparr>)"
| retry: "\<not> ended s \<Longrightarrow> pr_channel s = Pausing b \<Longrightarrow>
    process_step g s (s\<lparr>pr_channel := Dialling (next_backoff b)\<rparr>)"
| channel_returns: "\<not> ended s \<Longrightarrow> pr_channel s = Dialling b \<or> pr_channel s = Pausing b \<Longrightarrow> pr_stopping s \<Longrightarrow>
    process_step g s (s\<lparr>pr_channel := ChannelReturned\<rparr>)"

text \<open>The states of the process; between its steps other programs may write to the disk, as the
  updater does that takes the desired version.\<close>

inductive process_reach :: "setting \<Rightarrow> process \<Rightarrow> bool" for g where
  init: "process_reach g (process_init d)"
| step: "process_reach g s \<Longrightarrow> process_step g s s' \<Longrightarrow> process_reach g s'"
| others: "process_reach g s \<Longrightarrow> process_reach g (s\<lparr>pr_disk := d\<rparr>)"

section \<open>Sessions side by side\<close>

text \<open>Components that move one at a time: what each move keeps of its own component, the moves keep of
  all of them.\<close>

locale side_by_side =
  fixes move :: "'x \<Rightarrow> 'x \<Rightarrow> bool"
    and inv :: "'x \<Rightarrow> bool"
  assumes move_keeps: "move x y \<Longrightarrow> inv x \<Longrightarrow> inv y"
begin

lemma one_moves: "\<forall>x\<in>set xs. inv x \<Longrightarrow> i < length xs \<Longrightarrow> move (xs ! i) y \<Longrightarrow> \<forall>x\<in>set (xs[i := y]). inv x"
  using move_keeps set_update_subset_insert [of xs i y] by fastforce

lemma all_move: "\<forall>x\<in>set xs. inv x \<Longrightarrow> (\<And>x. move x (f x)) \<Longrightarrow> \<forall>x\<in>set (map f xs). inv x"
  using move_keeps by auto

lemma last_moves: "\<forall>x\<in>set xs. inv x \<Longrightarrow> xs \<noteq> [] \<Longrightarrow> move (last xs) y \<Longrightarrow> \<forall>x\<in>set (butlast xs @ [y]). inv x"
  using move_keeps by (auto dest: in_set_butlastD)

end

definition session_moves :: "setting \<Rightarrow> session \<Rightarrow> session \<Rightarrow> bool" where
  "session_moves g x y = (\<exists>ev. session_step (se_arch g) (se_parse g) x ev y)"

text \<open>A session of the process: the invariant of Control_Session under an allow-list that was read
  from the files of its own connection.\<close>

definition opened :: "setting \<Rightarrow> session \<Rightarrow> bool" where
  "opened g x =
     (session_good (se_arch g) x \<and>
      (\<exists>fs. cfg x = loadControlConfig (se_env g) fs (se_yaml g) (se_services g)))"

interpretation sessions: side_by_side "session_moves g" "opened g" for g
  by unfold_locales (auto simp: session_moves_def opened_def session_step_cfg intro: session_good_step)

lemma session_moves_simps:
  "session_moves g x (drop_session x)" "session_moves g x (shutdown_session x)"
  by (auto simp: session_moves_def drop_session_def shutdown_session_def intro: session_step.hangup
      session_step.shutdown)

lemma opened_new:
  "connectOnce (se_arch g) (se_env g) fs (se_yaml g) (se_services g) v d said = Serving h x \<Longrightarrow> opened g x"
  by (auto simp: connectOnce_def Let_def opened_def session_good_new split: if_splits)
    (auto simp: new_session_def)

section \<open>Invariants\<close>

definition sessions_ok :: "setting \<Rightarrow> process \<Rightarrow> bool" where
  "sessions_ok g s =
     ((\<forall>x\<in>set (pr_sessions s). opened g x) \<and> ((\<exists>b. pr_channel s = Connected b) \<longrightarrow> pr_sessions s \<noteq> []))"

lemma step_sessions_ok: "process_step g s s' \<Longrightarrow> sessions_ok g s \<Longrightarrow> sessions_ok g s'"
proof (induction rule: process_step.induct)
  case (signal s)
  then show ?case
    unfolding sessions_ok_def using sessions.all_move [of "pr_sessions s" g shutdown_session] session_moves_simps
    by simp
next
  case (handshake s b said fs d)
  then show ?case by (auto simp: sessions_ok_def after_connect_def opened_new split: connect_result.split)
next
  case (serve s i ev x)
  then have "session_moves g (pr_sessions s ! i) x" by (auto simp: session_moves_def)
  with serve show ?case using sessions.one_moves by (auto simp: sessions_ok_def)
next
  case (disconnect s b)
  then show ?case
    using sessions.last_moves [OF _ _ session_moves_simps(1)] by (auto simp: sessions_ok_def)
qed (auto simp: sessions_ok_def after_beat_def)

text \<open>Whatever leaves the process goes to the configured server.\<close>

definition traffic_ok :: "setting \<Rightarrow> process \<Rightarrow> bool" where
  "traffic_ok g s =
     ((\<forall>rq\<in>set (pr_requests s). prefix (ICLICUrl (config_of g) @ ''/api/v1/server/'') (rq_url rq) \<and>
        map_of (rq_headers rq) ''Authorization'' = Some (''Bearer '' @ bearer (config_of g))) \<and>
      (\<forall>d\<in>set (pr_dials s). d = dial_request g))"

lemma sent_requests:
  assumes "rq \<in> set (eff_requests (snd (send_payload parse w s p d)))"
  shows "(\<exists>p. rq = heartbeat_request s p) \<or> (\<exists>x. rq = runtime_request s x)"
proof -
  obtain r e where re: "send_payload parse w s p d = (r, e)" by fastforce
  then have "rq \<in> set (eff_requests e)" using assms by simp
  with re show ?thesis by (cases rule: send_payload_cases) (auto dest: post_signals_set)
qed

lemma step_traffic_ok: "process_step g s s' \<Longrightarrow> traffic_ok g s \<Longrightarrow> traffic_ok g s'"
proof (induction rule: process_step.induct)
  case (beat s t ti mem out w)
  then show ?case
    by (auto simp: traffic_ok_def after_beat_def heartbeat_request_def runtime_request_def post_headers_def
        sender_of_def NewSender_def bearer_def dest!: sent_requests)
qed (auto simp: traffic_ok_def after_connect_def split: connect_result.split)

text \<open>The heartbeat loop is the one of Agent_Main on the results of its heartbeats, and the process
  ends from it.\<close>

lemma heartbeats_snoc:
  "heartbeats (rs @ [r]) t =
     (case heartbeats rs t of None \<Rightarrow> None
      | Some t' \<Rightarrow> (case r of Inl e \<Rightarrow> Some t' | Inr desired \<Rightarrow> applyInterval desired t'))"
  by (induction rs t rule: heartbeats.induct) (auto split: sum.split option.split)

definition loop_ok :: "setting \<Rightarrow> process \<Rightarrow> bool" where
  "loop_ok g s =
     (case pr_main s of
        Launching \<Rightarrow> pr_results s = []
      | FirstBeat t \<Rightarrow> pr_results s = [] \<and> main_loop (config_of g) (pr_results s) = Some t
      | Looping t \<Rightarrow> pr_results s \<noteq> [] \<and> main_loop (config_of g) (pr_results s) = Some t
      | Ended Panicked \<Rightarrow> main_loop (config_of g) (pr_results s) = None
      | Ended (Exited code) \<Rightarrow>
          code = exitOK \<and> pr_stopping s \<and> pr_results s \<noteq> [] \<and> main_loop (config_of g) (pr_results s) \<noteq> None)"

lemma step_loop_ok: "process_step g s s' \<Longrightarrow> loop_ok g s \<Longrightarrow> loop_ok g s'"
proof (induction rule: process_step.induct)
  case (new_ticker s)
  then show ?case
    by (auto simp: loop_ok_def launch_def main_loop_def split: option.split)
next
  case (beat s t ti mem out w)
  then have "main_loop (config_of g) (pr_results s) = Some t"
    by (auto simp: loop_ok_def beating_def split: main_phase.splits)
  then show ?case
    by (auto simp: loop_ok_def after_beat_def next_phase_def main_loop_def heartbeats_snoc
        split: option.splits sum.split)
next
  case (handshake s b said fs d)
  then show ?case
    by (auto simp: loop_ok_def after_connect_def split: connect_result.split main_phase.splits process_end.splits)
qed (auto simp: loop_ok_def split: main_phase.splits process_end.splits)

lemma process_invariants:
  assumes "process_reach g s"
  shows "sessions_ok g s" "traffic_ok g s" "loop_ok g s"
  using assms
proof (induction rule: process_reach.induct)
  case (init d)
  case 1 show ?case by (simp add: sessions_ok_def process_init_def)
  case 2 show ?case by (simp add: traffic_ok_def process_init_def)
  case 3 show ?case by (simp add: loop_ok_def process_init_def)
next
  case (step s s')
  case 1 show ?case using step step_sessions_ok by blast
  case 2 show ?case using step step_traffic_ok by blast
  case 3 show ?case using step step_loop_ok by blast
next
  case (others s d)
  case 1 show ?case using others by (simp add: sessions_ok_def)
  case 2 show ?case using others by (simp add: traffic_ok_def)
  case 3 show ?case using others by (auto simp: loop_ok_def split: main_phase.splits process_end.splits)
qed

text \<open>The interval that made \<open>main_loop\<close> panic.\<close>

lemma panic_overflows:
  assumes "main_loop c rs = None" "10 \<le> HeartbeatIntervalSeconds c"
  shows "\<exists>d > 9223372036. d = HeartbeatIntervalSeconds c \<or> Inr d \<in> set rs"
proof (rule ccontr)
  assume small: "\<not> ?thesis"
  then have "seconds (HeartbeatIntervalSeconds c) = HeartbeatIntervalSeconds c * 1000000000"
    using assms(2) by (intro seconds_small) force+
  moreover have "\<forall>d. Inr d \<in> set rs \<longrightarrow> d \<le> 9223372036" using small by (auto simp: not_less)
  ultimately show False
    using assms by (simp add: main_loop_def start_ticker_def heartbeats_track)
qed

lemma started_config:
  "start env fs parse openable flock verify args = Inr ag \<Longrightarrow> 10 \<le> HeartbeatIntervalSeconds (ag_cfg ag)"
  by (auto simp: start_def Let_def Load_valid split: cli.splits if_splits sum.splits)

text \<open>The files that a heartbeat writes.\<close>

lemma recordDesiredVersion_files:
  "f \<notin> {desired_path env, desired_path env @ ''.tmp''} \<Longrightarrow> recordDesiredVersion env fo v d f = d f"
  "recordDesiredVersion env fo v d (desired_path env) \<in> {d (desired_path env), Some (v @ [CHR 0x0A])}"
  "v = [] \<Longrightarrow> recordDesiredVersion env fo v d = d"
  by (auto simp: recordDesiredVersion_def Let_def split: write_outcome.split rename_outcome.split option.splits)

lemma sent_disk:
  assumes "out_env w = env" "f \<noteq> desired_path env @ ''.tmp''"
    "eff_disk (snd (send_payload parse w s p d)) f \<noteq> d f"
  shows "f = desired_path env \<and> (\<exists>body v. v = snd (wishes parse body) \<and> v \<noteq> [] \<and> trim_space v = v \<and>
    eff_disk (snd (send_payload parse w s p d)) f = Some (v @ [CHR 0x0A]))"
proof -
  obtain r e where re: "send_payload parse w s p d = (r, e)" by fastforce
  then show ?thesis
  proof (cases rule: send_payload_cases)
    case (failed x)
    with assms re show ?thesis by simp
  next
    case (accepted status body clean)
    let ?v = "snd (wishes parse (read_limited 4096 body clean))"
    have "?v \<noteq> []" using accepted assms re recordDesiredVersion_files(3) by fastforce
    moreover have "f = desired_path env" using accepted assms re recordDesiredVersion_files(1) by fastforce
    ultimately show ?thesis
      using accepted assms re recordDesiredVersion_files(2) [of env "out_files w" ?v d] wishes_trimmed
      by auto
  qed
qed

text \<open>The backoff grows with the dials and is never reset.\<close>

definition backoff_ok :: "process \<Rightarrow> bool" where
  "backoff_ok s =
     (let n = length (pr_dials s) in
      case pr_channel s of
        Dialling b \<Rightarrow> b = min maxBackoff (2 ^ n)
      | ChannelReturned \<Rightarrow> True
      | Handshaking b \<Rightarrow> 0 < n \<and> b = min maxBackoff (2 ^ (n - 1))
      | Connected b \<Rightarrow> 0 < n \<and> b = min maxBackoff (2 ^ (n - 1))
      | Pausing b \<Rightarrow> 0 < n \<and> b = min maxBackoff (2 ^ (n - 1)))"

lemma step_backoff_ok: "process_step g s s' \<Longrightarrow> backoff_ok s \<Longrightarrow> backoff_ok s'"
proof (induction rule: process_step.induct)
  case (retry s b)
  then show ?case
    by (cases "pr_dials s") (simp_all add: backoff_ok_def next_backoff_min)
next
  case (handshake s b said fs d)
  then show ?case by (auto simp: backoff_ok_def after_connect_def Let_def split: connect_result.split)
qed (auto simp: backoff_ok_def after_beat_def Let_def split: channel_phase.splits)

lemma reach_backoff_ok: "process_reach g s \<Longrightarrow> backoff_ok s"
proof (induction rule: process_reach.induct)
  case (init d)
  show ?case by (simp add: backoff_ok_def process_init_def maxBackoff_def)
next
  case (step s s')
  then show ?case by (blast intro: step_backoff_ok)
next
  case (others s d)
  then show ?case by (simp add: backoff_ok_def)
qed

text \<open>Losing the socket tells no job: the channel goes on to the next dial and what the session runs
  goes on under its own deadline, until a write fails.\<close>

lemma dropped_stream_lives:
  assumes "process_reach g s" "\<not> ended s" "pr_channel s = Connected b" "pending (last (pr_sessions s)) = []"
  shows "\<exists>s'. process_step g s s' \<and> pr_channel s' = Pausing b \<and>
    map jobs (pr_sessions s') = map jobs (pr_sessions s) \<and> sock_closed (last (pr_sessions s'))"
proof -
  obtain xs x where x: "pr_sessions s = xs @ [x]"
    using process_invariants(1) [OF assms(1)] assms(3) by (metis rev_exhaust sessions_ok_def)
  let ?s' = "s\<lparr>pr_channel := Pausing b, pr_sessions := butlast (pr_sessions s) @ [drop_session (last (pr_sessions s))]\<rparr>"
  have "process_step g s ?s'" by (rule process_step.disconnect [OF assms(2-4)])
  then show ?thesis using x by (intro exI [of _ ?s']) (simp add: drop_session_def)
qed

section \<open>Properties\<close>

text \<open>C2: The sessions and the reports of the process are confined, whatever the server, the collectors, the
  clock and the files do and however its goroutines interleave: every process that any of its sessions
  ever started, also one whose socket is gone, is permitted by the allow-list that was read when that
  session connected; every request of the heartbeat sender (heartbeats and runtime signals) has a URL
  under the configured address and every dial of the control channel goes to the control URL of that
  address, both with the agent's bearer. What the collectors themselves contact while a beat gathers
  its metrics (probes of HTTP endpoints, TCP ports and \<open>dockerd\<close>) is not among these requests and dials.\<close>

theorem process_confined:
  assumes "process_reach g s"
  shows "(\<forall>x\<in>set (pr_sessions s).
      (\<exists>fs. cfg x = loadControlConfig (se_env g) fs (se_yaml g) (se_services g)) \<and>
      (\<forall>k argv. (k, argv) \<in> set (ran x) \<longrightarrow> permitted (cfg x) argv)) \<and>
    (\<forall>rq\<in>set (pr_requests s). prefix (ICLICUrl (config_of g) @ ''/api/v1/server/'') (rq_url rq) \<and>
      map_of (rq_headers rq) ''Authorization'' = Some (''Bearer '' @ bearer (config_of g))) \<and>
    (\<forall>d\<in>set (pr_dials s). fst d = controlURL (ICLICUrl (config_of g)) \<and>
      map_of (snd d) ''Authorization'' = Some (''Bearer '' @ bearer (config_of g)))"
proof (intro conjI)
  note inv = process_invariants(1,2) [OF assms]
  show "\<forall>x\<in>set (pr_sessions s).
      (\<exists>fs. cfg x = loadControlConfig (se_env g) fs (se_yaml g) (se_services g)) \<and>
      (\<forall>k argv. (k, argv) \<in> set (ran x) \<longrightarrow> permitted (cfg x) argv)"
    using inv(1) by (fastforce simp: sessions_ok_def opened_def session_good_def)
qed (use process_invariants(2) [OF assms] in \<open>auto simp: traffic_ok_def dial_request_def\<close>)

text \<open>C25: The heartbeat loop of the process refines the loop of Agent_Main: at any time the ticker is
  the one that \<open>main_loop\<close> has after the results of the heartbeats so far, and the process panics only
  where \<open>main_loop\<close> does. As long as the configured and the requested intervals stay below 9223372037
  seconds, that is the last positive one the server asked for, or else the configured one.\<close>

theorem process_refines_loop:
  assumes "process_reach g s"
  shows "(\<forall>t. beating (pr_main s) = Some t \<longrightarrow> main_loop (config_of g) (pr_results s) = Some t \<and>
      (10 \<le> HeartbeatIntervalSeconds (config_of g) \<and> HeartbeatIntervalSeconds (config_of g) \<le> 9223372036 \<and>
       (\<forall>d. Inr d \<in> set (pr_results s) \<longrightarrow> d \<le> 9223372036) \<longrightarrow>
       tk_interval t = last_asked (pr_results s) (HeartbeatIntervalSeconds (config_of g)) \<and>
       tk_period t = tk_interval t * 1000000000)) \<and>
    (\<forall>t. pr_main s = FirstBeat t \<longrightarrow> pr_results s = []) \<and>
    (pr_main s = Ended Panicked \<longrightarrow> main_loop (config_of g) (pr_results s) = None)"
proof -
  have loop: "loop_ok g s" using process_invariants(3) [OF assms] .
  then have m: "main_loop (config_of g) (pr_results s) = Some t" if "beating (pr_main s) = Some t" for t
    using that by (auto simp: loop_ok_def beating_def split: main_phase.splits)
  from loop m show ?thesis
    using ticker_follows_server [of "config_of g" "pr_results s"]
    by (auto simp: loop_ok_def split: main_phase.splits process_end.splits)
qed

text \<open>C26: An agent that came up ends in two ways only: with exit code 0, after a signal and at least
  one heartbeat, or by the panic of its ticker, and that only when the configured interval or one that
  the server asked for exceeds 9223372036 seconds.\<close>

theorem process_ends:
  assumes "start (se_env g) fs (se_parse g) openable flock verify args = Inr (se_agent g)"
    and "process_reach g s" "pr_main s = Ended e"
  shows "e = Exited 0 \<and> pr_stopping s \<and> pr_results s \<noteq> [] \<or>
    e = Panicked \<and> (\<exists>d > 9223372036. d = HeartbeatIntervalSeconds (config_of g) \<or> Inr d \<in> set (pr_results s))"
  using process_invariants(3) [OF assms(2)] assms(3) panic_overflows [OF _ started_config [OF assms(1)]]
  by (cases e) (auto simp: loop_ok_def exitOK_def)

text \<open>C27: The agent writes to two files only: a step of the process leaves every file alone but the
  one of the desired version and the temporary one beside it, and when the former changes it holds the
  whole version that a reply of the server asked for, not empty and without surrounding white space, followed by a
  line feed: one line, unless the version itself has a line feed inside.\<close>

theorem process_writes:
  assumes "process_step g s s'" "f \<noteq> desired_path (se_env g) @ ''.tmp''" "pr_disk s' f \<noteq> pr_disk s f"
  shows "f = desired_path (se_env g) \<and>
    (\<exists>body v. v = snd (wishes (se_parse g) body) \<and> v \<noteq> [] \<and> trim_space v = v \<and>
       pr_disk s' f = Some (v @ [CHR 0x0A]))"
  using assms
proof cases
  case (beat t ti mem out w)
  let ?re = "send_payload (se_parse g) w (sender_of g)
    (finish_payload out (tick_summaries (sender_of g) ti) (ti_now ti)) (pr_disk s)"
  have d: "pr_disk s' = eff_disk (snd ?re)" using beat(1) by (simp add: after_beat_def)
  have "eff_disk (snd ?re) f \<noteq> pr_disk s f" using assms(3) by (simp add: d)
  from sent_disk [OF beat(4) assms(2) this] show ?thesis unfolding d .
qed (auto simp: after_connect_def split: connect_result.splits)

text \<open>C28: The backoff of the control channel is a function of the number of dials alone: after the
  n-th dial the channel waits the smaller of 30 and 2 to the n-1 seconds, also when the connection stood
  for days in between.\<close>

theorem channel_backoff:
  assumes "process_reach g s"
  shows "(\<forall>b. pr_channel s = Dialling b \<longrightarrow> b = min 30 (2 ^ length (pr_dials s))) \<and>
    (\<forall>b. pr_channel s \<in> {Handshaking b, Connected b, Pausing b} \<longrightarrow>
       pr_dials s \<noteq> [] \<and> b = min 30 (2 ^ (length (pr_dials s) - 1)))"
  using reach_backoff_ok [OF assms] by (auto simp: backoff_ok_def Let_def maxBackoff_def)

section \<open>A concrete process\<close>

text \<open>A host without collectors that serves \<open>proc.top\<close>.\<close>

definition demo_agent_json :: "string \<Rightarrow> json option" where
  "demo_agent_json data = (if data = ''config'' then demo_config_json data
     else if data = ''wish'' then demo_reply data else demo_parse data)"

definition demo_agent :: agent where
  "demo_agent =
     \<lparr>ag_cfg = demo_config, ag_collectorDir = defaultCollectorDir, ag_lock = NoLock,
      ag_memLimit = Some defaultGoMemLimitBytes, ag_pprof = Some defaultPprofAddr\<rparr>"

definition demo_setting :: setting where
  "demo_setting =
     \<lparr>se_agent = demo_agent, se_env = demo_env, se_arch = Amd64, se_parse = demo_agent_json,
      se_yaml = (\<lambda>_. Some demo_control), se_services = (\<lambda>_. None)\<rparr>"

definition demo_allowed :: ControlConfig where
  "demo_allowed = loadControlConfig demo_env (demo_config_fs\<lparr>fs_file := \<lambda>_. Inr ''control''\<rparr>)
     (\<lambda>_. Some demo_control) (\<lambda>_. None)"

lemma demo_started:
  "start demo_env demo_config_fs demo_agent_json (\<lambda>_. False) (\<lambda>_. False) (\<lambda>_ _. Inr ()) [] = Inr demo_agent"
proof -
  have "Load demo_env demo_config_fs demo_agent_json = Load demo_env demo_config_fs demo_config_json"
    by (simp add: Load_def file_config_def demo_config_fs_def unmarshal_config_def demo_agent_json_def
        demo_env_def env_names config_path_def)
  then show ?thesis
    by (simp add: start_def handleCLIArgs_def version_flag_def demo_Load acquireSingleInstanceLock_def
        demo_agent_def demo_env_def env_names applyMemoryLimit_def startPprof_def
        defaultPprofAddr_def Let_def)
qed

definition demo_ticking :: ticking where
  "demo_ticking = \<lparr>tk_interval = 30, tk_period = 30000000000\<rparr>"

definition demo_first :: process where
  "demo_first = (process_init Map.empty)\<lparr>pr_main := FirstBeat demo_ticking\<rparr>"

definition demo_quiet_tick :: tick_input where
  "demo_quiet_tick = demo_tick\<lparr>ti_fs := \<lparr>fs_dir = \<lambda>_. DirNotExist, fs_file = \<lambda>_. Inl NotExist\<rparr>\<rparr>"

definition demo_sent_by :: "outside \<Rightarrow> (send_error + int) \<times> effects" where
  "demo_sent_by w =
     send_payload demo_agent_json w (sender_of demo_setting) (finish_payload [] (Inr []) (ti_now demo_quiet_tick))
       Map.empty"

lemma demo_first_reach: "process_reach demo_setting demo_first"
proof -
  have "launch demo_setting = FirstBeat demo_ticking"
    using seconds_small [of 30]
    by (simp add: launch_def demo_setting_def demo_agent_def demo_config_def start_ticker_def demo_ticking_def)
  then show ?thesis
    using process_reach.step [OF process_reach.init process_step.new_ticker, of Map.empty demo_setting]
    by (simp add: demo_first_def process_init_def)
qed

lemma demo_first_beat:
  assumes "out_env w = demo_env"
  shows "process_step demo_setting demo_first (after_beat demo_ticking prim_init (demo_sent_by w) demo_first)"
proof -
  have "tick_bindings (sender_of demo_setting) demo_quiet_tick = []"
    "tick_summaries (sender_of demo_setting) demo_quiet_tick = Inr []"
    by (simp_all add: tick_bindings_def LoadDir_def LoadServiceDir_def loadServiceDefs_def demo_quiet_tick_def
        tick_summaries_def LoadServiceSummaries_def)
  moreover have "Tick prim_init [] prim_init []" by (rule Tick_in_order [OF demo_docs_finite]) simp
  moreover have "pr_mem demo_first = prim_init" "pr_disk demo_first = Map.empty"
    "beating (pr_main demo_first) = Some demo_ticking"
    by (simp_all add: demo_first_def process_init_def beating_def)
  moreover have "se_env demo_setting = demo_env" "se_parse demo_setting = demo_agent_json"
    by (simp_all add: demo_setting_def)
  ultimately show ?thesis
    using process_step.beat [of demo_first demo_ticking demo_setting demo_quiet_tick prim_init "[]" w] assms
    by (simp add: demo_sent_by_def)
qed

lemma demo_marshals_quiet:
  "marshals (withoutMetric ''runtime_instances'' (finish_payload [] (Inr []) now))"
  by (simp add: marshals_def printable_def finish_payload_def Let_def any_json_def withoutMetric_def)

lemma demo_beating:
  "\<exists>s. process_reach demo_setting s \<and> pr_main s = Looping demo_ticking \<and>
     pr_requests s \<noteq> [] \<and> pr_results s \<noteq> [] \<and> \<not> pr_stopping s \<and> pr_channel s = Dialling 1 \<and> pr_sessions s = []"
proof -
  let ?w = "demo_outside\<lparr>out_reply := NoReply, out_env := demo_env\<rparr>"
  let ?s = "after_beat demo_ticking prim_init (demo_sent_by ?w) demo_first"
  have "fst (demo_sent_by ?w) = Inl PostFailed" "eff_requests (snd (demo_sent_by ?w)) \<noteq> []"
    using demo_marshals_quiet by (simp_all add: demo_sent_by_def send_payload_def Let_def)
  moreover have "process_reach demo_setting ?s"
    by (rule process_reach.step [OF demo_first_reach demo_first_beat]) simp
  ultimately show ?thesis
    by (intro exI [of _ ?s]) (simp add: after_beat_def next_phase_def demo_first_def process_init_def)
qed

text \<open>Its session: the server asks for \<open>proc.top\<close> and the process starts.\<close>

lemma demo_allowed_top: "procTopJob arch demo_allowed (demo_req ty) = Command demo_argv 21 None"
  by (simp add: procTopJob_def demo_allowed_def loadControlConfig_def demo_control_def zero_config_def
      topEnabled_def argInt_def clampInt_def demo_argv_def Let_def split: sum.split)

lemma demo_agent_unmarshal: "unmarshal_req demo_agent_json ''req'' = Some (demo_req ''req'')"
proof -
  have "unmarshal_req demo_agent_json ''req'' = unmarshal_req demo_parse ''req''"
    by (simp add: unmarshal_req_def demo_agent_json_def)
  then show ?thesis by (simp add: demo_unmarshal)
qed

definition demo_x1 :: session where
  "demo_x1 = dispatch demo_agent_json ''req'' (new_session demo_allowed)"

definition demo_x2 :: session where
  "demo_x2 = (set_phase 0 (Streaming 21 None 0) demo_x1)\<lparr>ran := ran demo_x1 @ [(0, demo_argv)]\<rparr>"

lemma demo_x_steps:
  "session_step Amd64 demo_agent_json (new_session demo_allowed) (Recv ''req'') demo_x1"
  "session_step Amd64 demo_agent_json demo_x1 (Start 0 True) demo_x2"
  "ran demo_x2 = [(0, demo_argv)]" "pending demo_x2 = []" "sock_closed demo_x2 = False"
proof -
  have x1: "demo_x1 = (new_session demo_allowed)\<lparr>streams := [(''x'', 0)], jobs := [demo_job Starting]\<rparr>"
    by (simp add: demo_x1_def dispatch_def demo_agent_unmarshal handleReq_def demo_verb spawn_def addStream_def
        new_session_def demo_job_def)
  show "session_step Amd64 demo_agent_json (new_session demo_allowed) (Recv ''req'') demo_x1"
    unfolding demo_x1_def by (rule session_step.recv) (simp_all add: new_session_def readLimitBytes_def)
  show "session_step Amd64 demo_agent_json demo_x1 (Start 0 True) demo_x2"
    unfolding demo_x2_def
    by (rule session_step.start_command)
      (simp_all add: x1 new_session_def demo_job_def plan_of_def demo_allowed_top)
  show "ran demo_x2 = [(0, demo_argv)]" "pending demo_x2 = []" "sock_closed demo_x2 = False"
    by (simp_all add: demo_x2_def x1 new_session_def set_phase_def upd_job_def)
qed

lemma demo_serving:
  "\<exists>s. process_reach demo_setting s \<and> pr_main s = Looping demo_ticking \<and>
     pr_requests s \<noteq> [] \<and> pr_results s \<noteq> [] \<and> \<not> pr_stopping s \<and> pr_channel s = Connected 1 \<and>
     pr_sessions s = [demo_x2] \<and> pr_dials s \<noteq> []"
proof -
  let ?g = demo_setting
  obtain s where s: "process_reach ?g s" "pr_main s = Looping demo_ticking" "pr_requests s \<noteq> []" "pr_results s \<noteq> []"
    "\<not> pr_stopping s" "pr_channel s = Dialling 1" "pr_sessions s = []"
    using demo_beating by blast
  let ?s1 = "s\<lparr>pr_channel := Handshaking 1, pr_dials := pr_dials s @ [dial_request ?g]\<rparr>"
  have r1: "process_reach ?g ?s1"
    by (rule process_reach.step [OF s(1) process_step.dial]) (use s in \<open>simp_all add: ended_def\<close>)
  let ?c = "connectOnce (se_arch ?g) (se_env ?g) (demo_config_fs\<lparr>fs_file := \<lambda>_. Inr ''control''\<rparr>) (se_yaml ?g)
      (se_services ?g) AgentVersion True True"
  have c: "\<exists>h. ?c = Serving h (new_session demo_allowed)"
    by (simp add: connectOnce_def Let_def demo_allowed_def demo_setting_def)
  have r2: "process_reach ?g (after_connect 1 ?c ?s1)"
    by (rule process_reach.step [OF r1 process_step.handshake]) (use s in \<open>simp_all add: ended_def\<close>)
  let ?s2 = "?s1\<lparr>pr_channel := Connected 1, pr_sessions := [new_session demo_allowed]\<rparr>"
  have "after_connect 1 ?c ?s1 = ?s2" using c s(7) by (auto simp: after_connect_def)
  with r2 have r2: "process_reach ?g ?s2" by simp
  let ?s3 = "?s2\<lparr>pr_sessions := (pr_sessions ?s2)[0 := demo_x1]\<rparr>"
  have r3: "process_reach ?g ?s3"
    by (rule process_reach.step [OF r2 process_step.serve [where ev = "Recv ''req''"]])
      (use s demo_x_steps(1) in \<open>simp_all add: ended_def demo_setting_def\<close>)
  let ?s4 = "?s3\<lparr>pr_sessions := (pr_sessions ?s3)[0 := demo_x2]\<rparr>"
  have "process_reach ?g ?s4"
    by (rule process_reach.step [OF r3 process_step.serve [where ev = "Start 0 True"]])
      (use s demo_x_steps(2) in \<open>simp_all add: ended_def demo_setting_def\<close>)
  then show ?thesis using s by (intro exI [of _ ?s4]) simp
qed

text \<open>A signal, and the loop sees it.\<close>

lemma demo_stopped:
  "\<exists>s. process_reach demo_setting s \<and> pr_main s = Ended (Exited exitOK)"
proof -
  obtain s where s: "process_reach demo_setting s"
    "pr_main s = Looping demo_ticking"
    using demo_beating by blast
  let ?s1 = "s\<lparr>pr_stopping := True, pr_sessions := map shutdown_session (pr_sessions s)\<rparr>"
  have "process_reach demo_setting ?s1"
    by (rule process_reach.step [OF s(1) process_step.signal]) (simp add: ended_def s)
  then have "process_reach demo_setting (?s1\<lparr>pr_main := Ended (Exited exitOK)\<rparr>)"
    by (rule process_reach.step [OF _ process_step.quit]) (simp_all add: s)
  then show ?thesis by (intro exI [of _ "?s1\<lparr>pr_main := Ended (Exited exitOK)\<rparr>"]) simp
qed

theorem process_confined_witness:
  "\<exists>s. process_reach demo_setting s \<and> pr_requests s \<noteq> [] \<and> pr_dials s \<noteq> [] \<and>
     (\<exists>x\<in>set (pr_sessions s). (0, demo_argv) \<in> set (ran x) \<and> permitted (cfg x) demo_argv) \<and>
     (\<forall>rq\<in>set (pr_requests s). map_of (rq_headers rq) ''Authorization'' = Some ''Bearer kid.sec'')"
proof -
  obtain s where s: "process_reach demo_setting s" "pr_requests s \<noteq> []" "pr_sessions s = [demo_x2]" "pr_dials s \<noteq> []"
    using demo_serving by blast
  have "bearer (config_of demo_setting) = ''kid.sec''"
    by (simp add: bearer_def demo_setting_def demo_agent_def demo_config_def)
  with process_confined [OF s(1)] s demo_x_steps(3) show ?thesis by (intro exI [of _ s]) auto
qed

theorem process_refines_loop_witness:
  "\<exists>s t. process_reach demo_setting s \<and> beating (pr_main s) = Some t \<and> pr_results s \<noteq> [] \<and>
     main_loop demo_config (pr_results s) = Some t"
proof -
  obtain s where s: "process_reach demo_setting s" "pr_results s \<noteq> []"
    "pr_main s = Looping demo_ticking"
    using demo_beating by blast
  then have "beating (pr_main s) = Some demo_ticking" by (simp add: beating_def)
  moreover have "config_of demo_setting = demo_config" by (simp add: demo_setting_def demo_agent_def)
  ultimately show ?thesis using process_refines_loop [OF s(1)] s by (intro exI [of _ s]) auto
qed

theorem process_ends_witness:
  "\<exists>s. process_reach demo_setting s \<and> pr_main s = Ended (Exited 0) \<and> pr_stopping s \<and> pr_results s \<noteq> []"
proof -
  obtain s where s: "process_reach demo_setting s" "pr_main s = Ended (Exited exitOK)"
    using demo_stopped by blast
  have "start (se_env demo_setting) demo_config_fs (se_parse demo_setting) (\<lambda>_. False) (\<lambda>_. False) (\<lambda>_ _. Inr ()) []
      = Inr (se_agent demo_setting)"
    using demo_started by (simp add: demo_setting_def)
  from process_ends [OF this s] s show ?thesis by (auto simp: exitOK_def)
qed

theorem channel_backoff_witness:
  "\<exists>s. process_reach demo_setting s \<and> pr_channel s = Connected 1 \<and> (1::nat) = min 30 (2 ^ (length (pr_dials s) - 1))"
proof -
  obtain s where s: "process_reach demo_setting s" "pr_channel s = Connected 1"
    using demo_serving by blast
  with channel_backoff [OF s(1)] show ?thesis by (intro exI [of _ s]) simp
qed

theorem process_writes_witness:
  "\<exists>s s'. process_reach demo_setting s \<and> process_step demo_setting s s' \<and>
     pr_disk s (desired_path demo_env) = None \<and>
     (\<exists>v. v \<noteq> [] \<and> pr_disk s' (desired_path demo_env) = Some (v @ [CHR 0x0A]))"
proof -
  let ?w = "demo_outside\<lparr>out_env := demo_env\<rparr>" and ?f = "desired_path demo_env"
  let ?s' = "after_beat demo_ticking prim_init (demo_sent_by ?w) demo_first"
  have wishes: "wishes demo_agent_json (Some ''wish'') = (120, ''v0.27.0'')"
    using demo_wishes [of "''wish''"] by (simp add: wishes_def unmarshal_response_def demo_agent_json_def)
  have "desired_path demo_env \<noteq> desired_path demo_env @ ''.tmp''" by simp
  then have "eff_disk (snd (demo_sent_by ?w)) ?f \<noteq> None"
    using demo_marshals_quiet wishes
    by (simp add: demo_sent_by_def send_payload_def Let_def demo_outside_def read_limited_def recordDesiredVersion_def)
  moreover have before: "pr_disk demo_first ?f = None" by (simp add: demo_first_def process_init_def)
  ultimately have changed: "pr_disk ?s' ?f \<noteq> pr_disk demo_first ?f" by (simp add: after_beat_def)
  have step: "process_step demo_setting demo_first ?s'" by (rule demo_first_beat) simp
  have env: "se_env demo_setting = demo_env" by (simp add: demo_setting_def)
  show ?thesis
    using process_writes [OF step, of ?f] changed step before demo_first_reach env
    by (intro exI [of _ demo_first] exI [of _ ?s']) auto
qed

end
