(* ===== verification/Stream_Relay.thy ===== *)
theory Stream_Relay
  imports Stream_Pipe Primitive_Args
begin

text \<open>
  A session together with the pipes behind its streams (\<open>streamCommand\<close> in control/control.go): the
  lines that the session relays are the lines that the scanner finds in what the command wrote.
\<close>

section \<open>Lines\<close>

text \<open>The lines of \<open>bufio.ScanLines\<close>: those that end with a newline, and at the end of the file the
  rest, if there is one; a carriage return at the end of a line is dropped.\<close>

definition whole_lines :: "string \<Rightarrow> string list" where
  "whole_lines s = map drop_cr (butlast (split_on CHR 0x0A s))"

definition all_lines :: "string \<Rightarrow> string list" where
  "all_lines s =
     whole_lines s @ (let rest = last (split_on CHR 0x0A s) in if rest = [] then [] else [drop_cr rest])"

text \<open>What the scanner can hand out of what it has read.\<close>

definition in_hand :: "stream_pipe \<Rightarrow> string list" where
  "in_hand p = (if sp_closed p then all_lines (sp_read p) else whole_lines (sp_read p))"

lemma butlast_split_append: "\<exists>ls. butlast (split_on c (s @ t)) = butlast (split_on c s) @ ls"
proof (induction s)
  case (Cons x s)
  obtain w ws w' ws' where "split_on c s = w # ws" "split_on c (s @ t) = w' # ws'"
    by (meson list.exhaust split_on_nonempty)
  with Cons show ?case by (auto split: if_splits)
qed simp

lemma whole_lines_append: "\<exists>ls. whole_lines (s @ t) = whole_lines s @ ls"
  using butlast_split_append [of "CHR 0x0A" s t] by (auto simp: whole_lines_def)

lemma length_split_on: "length (split_on c s) = Suc (length (filter (\<lambda>x. x = c) s))"
proof (induction s)
  case (Cons x s)
  then show ?case by (cases "split_on c s") auto
qed simp

lemma length_whole_lines: "length (whole_lines s) = lines_in s"
  by (simp add: whole_lines_def lines_in_def length_split_on)

section \<open>Steps\<close>

text \<open>The pipes by the number of the job.\<close>

record relay =
  rl_session :: session
  rl_pipes :: "nat \<Rightarrow> stream_pipe option"

text \<open>The events that belong to the stream of a command.\<close>

definition stream_event :: "goarch \<Rightarrow> session \<Rightarrow> event \<Rightarrow> bool" where
  "stream_event arch s ev =
     (case ev of
        Line k raw ok \<Rightarrow> True
      | StreamEnd k \<Rightarrow> True
      | Start k ok \<Rightarrow> ok \<and> (case plan_of arch s k of Command argv n t \<Rightarrow> True | _ \<Rightarrow> False)
      | _ \<Rightarrow> False)"

text \<open>\<open>starts\<close>: the command runs with a fresh pipe. \<open>flows\<close>: a step of the command, the copier, the
  kernel or \<open>Wait\<close>, or the scanner reading on, which it does when no line is in hand. \<open>relays\<close>: the
  scanner hands out the next line; over the cap or when the frame is lost it leaves the loop. \<open>ends\<close>:
  it has seen the end of the file, or the line fills its buffer. \<open>other\<close>: the rest of the session.\<close>

inductive relay_step :: "goarch \<Rightarrow> (string \<Rightarrow> json option) \<Rightarrow> relay \<Rightarrow> relay \<Rightarrow> bool" for arch parse where
  starts: "plan_of arch (rl_session r) k = Command argv n t \<Longrightarrow>
    session_step arch parse (rl_session r) (Start k True) s \<Longrightarrow>
    relay_step arch parse r \<lparr>rl_session = s, rl_pipes = (rl_pipes r)(k \<mapsto> pipe_start)\<rparr>"
| flows: "rl_pipes r k = Some p \<Longrightarrow> plan_of arch (rl_session r) k = Command argv n t \<Longrightarrow> pipe_step n p p' \<Longrightarrow>
    sp_reader p' = sp_reader p \<Longrightarrow>
    (sp_read p' \<noteq> sp_read p \<longrightarrow> at_phase (rl_session r) k (Streaming n t (length (in_hand p)))) \<Longrightarrow>
    relay_step arch parse r (r\<lparr>rl_pipes := (rl_pipes r)(k \<mapsto> p')\<rparr>)"
| relays: "rl_pipes r k = Some p \<Longrightarrow> at_phase (rl_session r) k (Streaming n t seq) \<Longrightarrow> seq < length (in_hand p) \<Longrightarrow>
    session_step arch parse (rl_session r) (Line k (in_hand p ! seq) ok) s \<Longrightarrow>
    relay_step arch parse r \<lparr>rl_session = s, rl_pipes = (rl_pipes r)(k \<mapsto>
      (if at_phase s k (Streaming n t (seq + 1)) then p else p\<lparr>sp_reader := Stopped\<rparr>))\<rparr>"
| ends: "rl_pipes r k = Some p \<Longrightarrow> at_phase (rl_session r) k (Streaming n t seq) \<Longrightarrow> length (in_hand p) \<le> seq \<Longrightarrow>
    sp_closed p \<and> rd = AtEof \<or> lineBufferBytes \<le> unfinished (sp_read p) \<and> rd = Stopped \<Longrightarrow>
    session_step arch parse (rl_session r) (StreamEnd k) s \<Longrightarrow>
    relay_step arch parse r \<lparr>rl_session = s, rl_pipes = (rl_pipes r)(k \<mapsto> p\<lparr>sp_reader := rd\<rparr>)\<rparr>"
| other: "session_step arch parse (rl_session r) ev s \<Longrightarrow> \<not> stream_event arch (rl_session r) ev \<Longrightarrow>
    relay_step arch parse r (r\<lparr>rl_session := s\<rparr>)"

inductive relay_reach :: "goarch \<Rightarrow> (string \<Rightarrow> json option) \<Rightarrow> ControlConfig \<Rightarrow> relay \<Rightarrow> bool" for arch parse c where
  init: "relay_reach arch parse c \<lparr>rl_session = new_session c, rl_pipes = Map.empty\<rparr>"
| step: "relay_reach arch parse c r \<Longrightarrow> relay_step arch parse r r' \<Longrightarrow> relay_reach arch parse c r'"

text \<open>The texts of the data frames of a job.\<close>

definition frame_text :: "out_frame \<Rightarrow> string option" where
  "frame_text fr = (case fr of ResFrame rid i d \<Rightarrow> Some d | _ \<Rightarrow> None)"

definition texts :: "nat \<Rightarrow> session \<Rightarrow> string list" where
  "texts k s = List.map_filter frame_text (frames_of k s)"

section \<open>What the rest of the session leaves alone\<close>

lemma texts_write:
  "texts k (write_frame w fr ok s) =
     texts k s @ (if ok \<and> w = Some k then (case frame_text fr of None \<Rightarrow> [] | Some d \<Rightarrow> [d]) else [])"
  by (auto simp: texts_def frames_of_write List.map_filter_simps List.map_filter_def split: option.split)

lemma texts_cong: "sent s = sent s' \<Longrightarrow> texts k s = texts k s'"
  by (simp add: texts_def frames_of_def)

text \<open>A job whose command has been started.\<close>

definition begun :: "goarch \<Rightarrow> session \<Rightarrow> nat \<Rightarrow> bool" where
  "begun arch s k =
     (k < length (jobs s) \<and> j_phase (jobs s ! k) \<noteq> Starting \<and>
      (case plan_of arch s k of Command argv n t \<Rightarrow> True | _ \<Rightarrow> False))"

text \<open>What the steps of the rest keep of it.\<close>

definition keeps :: "goarch \<Rightarrow> nat \<Rightarrow> session \<Rightarrow> session \<Rightarrow> bool" where
  "keeps arch k s s' =
     (begun arch s' k \<and> plan_of arch s' k = plan_of arch s k \<and> texts k s' = texts k s \<and>
      (\<forall>n t q. at_phase s' k (Streaming n t q) \<longleftrightarrow> at_phase s k (Streaming n t q)))"

lemma upd_nth: "k < length xs \<Longrightarrow> xs[i := x] ! k = (if i = k then x else xs ! k)"
  by auto

lemma keeps_frame:
  assumes "begun arch s k" "cfg s' = cfg s" "sent s' = sent s" "k < length (jobs s')"
    "j_req (jobs s' ! k) = j_req (jobs s ! k)" "j_job (jobs s' ! k) = j_job (jobs s ! k)"
    "j_phase (jobs s' ! k) = j_phase (jobs s ! k)"
  shows "keeps arch k s s'"
  using assms texts_cong [of s' s k] by (auto simp: keeps_def begun_def plan_of_def)

text \<open>A step of another job, or one that ends it.\<close>

lemma keeps_phase:
  assumes "begun arch s k" "k = i \<longrightarrow> (\<forall>n t q. ph \<noteq> Streaming n t q \<and> j_phase (jobs s ! k) \<noteq> Streaming n t q) \<and> ph \<noteq> Starting \<and>
      (ok \<longrightarrow> frame_text fr = None)"
  shows "keeps arch k s (write_frame (Some i) fr ok (set_phase i ph s))"
  using assms texts_cong [of "set_phase i ph s" s k]
  by (cases "k = i") (auto simp: keeps_def begun_def plan_of_def texts_write frame_simps job_op_defs upd_nth)

lemma keeps_set_phase:
  assumes "begun arch s k" "k = i \<longrightarrow> (\<forall>n t q. ph \<noteq> Streaming n t q \<and> j_phase (jobs s ! k) \<noteq> Streaming n t q) \<and> ph \<noteq> Starting"
  shows "keeps arch k s (set_phase i ph s)"
  using keeps_phase [OF assms(1), of i ph False undefined] assms(2) by (simp add: write_frame_def)

lemma keeps_more:
  assumes "keeps arch k s s'" "cfg t = cfg s'" "sent t = sent s'" "jobs t = jobs s'"
  shows "keeps arch k s t"
  using assms texts_cong [of t s' k] by (auto simp: keeps_def begun_def plan_of_def)

lemma keeps_trans: "keeps arch k s s' \<Longrightarrow> keeps arch k s' s'' \<Longrightarrow> keeps arch k s s''"
  by (simp add: keeps_def)

lemma begun_phase:
  assumes "session_good arch s" "begun arch s k"
  shows "j_phase (jobs s ! k) \<noteq> Sampling q" "j_phase (jobs s ! k) = Ending fr \<Longrightarrow> frame_text fr = None"
  using job_good_at [OF assms(1), of k] assms(2)
  by (auto simp: begun_def plan_of_def job_good_def phase_good_def terminal_def frame_text_def split: plan.splits)

lemma session_keeps:
  assumes "session_step arch parse s ev s'" "session_good arch s" "begun arch s k"
    "event_job ev \<noteq> Some k \<or> \<not> stream_event arch s ev"
  shows "keeps arch k s s'"
  using assms(1)
proof cases
  case (recv data)
  show ?thesis
    unfolding recv(2)
    using assms(3)
    by (cases rule: dispatch_cases [of parse data s])
      (auto simp: begun_def frame_simps job_op_defs nth_append upd_nth intro!: keeps_frame)
next
  case (reader_write fr frs ok)
  have "keeps arch k s (s\<lparr>pending := frs\<rparr>)" using assms(3) by (intro keeps_frame) (simp_all add: begun_def)
  then show ?thesis
    unfolding reader_write(2) by (auto simp: keeps_def begun_def plan_of_def texts_write frame_simps)
next
  case (expire i n t seq)
  then show ?thesis using assms(3) by (auto simp: begun_def frame_simps job_op_defs upd_nth intro!: keeps_frame)
next
  case (start_command i argv n t)
  then have "keeps arch k s (set_phase i (Streaming n t 0) s)"
    using assms(3) by (intro keeps_set_phase) (auto simp: begun_def)
  then show ?thesis unfolding start_command(2) by (rule keeps_more) simp_all
next
  case (line i n t seq ok raw)
  then show ?thesis using assms(3,4) by (auto simp: stream_event_def event_job_def intro!: keeps_phase)
next
  case (sample i seq ok payload)
  then show ?thesis using assms(3) begun_phase(1) [OF assms(2,3)] by (auto intro!: keeps_phase)
next
  case (final i fr ok)
  then show ?thesis
    using assms(3) begun_phase(2) [OF assms(2,3)] by (auto intro!: keeps_phase)
next
  case (leave i)
  have c: "keeps arch k s (cancel_job i s)"
    using assms(3) by (intro keeps_frame) (auto simp: begun_def frame_simps job_op_defs upd_nth)
  moreover have "keeps arch k (cancel_job i s) (set_phase i Gone (cancel_job i s))"
    using c leave assms(3)
    by (intro keeps_set_phase) (auto simp: keeps_def begun_def frame_simps job_op_defs upd_nth)
  ultimately have "keeps arch k s (set_phase i Gone (cancel_job i s))" by (rule keeps_trans)
  then show ?thesis unfolding leave(2) by (rule keeps_more) (simp_all add: frame_simps)
qed (use assms(3,4) begun_phase(1) [OF assms(2,3)] in
  \<open>auto simp: begun_def stream_event_def event_job_def frame_simps intro!: keeps_frame keeps_set_phase\<close>)

section \<open>The invariant\<close>

text \<open>What the session relayed is a beginning of what the scanner could hand out, masked.\<close>

definition relayed :: "session \<Rightarrow> nat \<Rightarrow> stream_pipe \<Rightarrow> bool" where
  "relayed s k p =
     (let m = length (texts k s) in
      m \<le> length (in_hand p) \<and> texts k s = map redact (take m (in_hand p)) \<and>
      (\<forall>n t q. at_phase s k (Streaming n t q) \<longrightarrow> q = m \<and> sp_reader p = Reading) \<and>
      (sp_reader p = AtEof \<longrightarrow> sp_closed p \<and> m = length (in_hand p)))"

definition relay_ok :: "goarch \<Rightarrow> relay \<Rightarrow> bool" where
  "relay_ok arch r =
     (session_good arch (rl_session r) \<and>
      (\<forall>k p. rl_pipes r k = Some p \<longrightarrow>
         begun arch (rl_session r) k \<and> pipe_ok p \<and> relayed (rl_session r) k p))"

lemma relayed_keeps: "keeps arch k s s' \<Longrightarrow> relayed s k p \<Longrightarrow> relayed s' k p"
  by (simp add: keeps_def relayed_def)

lemma kept:
  "keeps arch k s s' \<Longrightarrow> pipe_ok p \<and> relayed s k p \<Longrightarrow> begun arch s' k \<and> pipe_ok p \<and> relayed s' k p"
  using relayed_keeps by (simp add: keeps_def) blast

text \<open>Reading on, closing and what the command writes only add to the lines in hand.\<close>

lemma in_hand_grows:
  assumes "pipe_step n p p'" "pipe_ok p"
  shows "\<exists>ls. in_hand p' = in_hand p @ ls" "sp_closed p \<Longrightarrow> sp_closed p'" "sp_closed p \<Longrightarrow> in_hand p' = in_hand p"
proof -
  have ext: "\<exists>ls. all_lines s = whole_lines s @ ls" for s by (simp add: all_lines_def Let_def)
  show "\<exists>ls. in_hand p' = in_hand p @ ls"
    using assms ext by cases (auto simp: in_hand_def pipe_ok_def whole_lines_append)
  show "sp_closed p \<Longrightarrow> sp_closed p'" "sp_closed p \<Longrightarrow> in_hand p' = in_hand p"
    using assms by (cases; auto simp: in_hand_def pipe_ok_def)+
qed

lemma relayed_grows:
  assumes "relayed s k p" "in_hand p' = in_hand p @ ls" "sp_reader p' = sp_reader p"
    "sp_closed p \<longrightarrow> sp_closed p' \<and> ls = []"
  shows "relayed s k p'"
  using assms by (auto simp: relayed_def Let_def)

text \<open>One component changes: the others are as before, and it is as the argument says.\<close>

lemma relay_okI:
  assumes "session_good arch s" "begun arch s k" "pipe_ok q" "relayed s k q"
    "\<And>i p. i \<noteq> k \<Longrightarrow> pipes i = Some p \<Longrightarrow> begun arch s i \<and> pipe_ok p \<and> relayed s i p"
  shows "relay_ok arch \<lparr>rl_session = s, rl_pipes = pipes(k \<mapsto> q)\<rparr>"
  using assms by (auto simp: relay_ok_def)

lemma others_kept:
  assumes "relay_ok arch r" "session_step arch parse (rl_session r) ev s" "event_job ev = Some k"
    "i \<noteq> k" "rl_pipes r i = Some p"
  shows "begun arch s i \<and> pipe_ok p \<and> relayed s i p"
proof -
  have "keeps arch i (rl_session r) s" using assms by (intro session_keeps) (auto simp: relay_ok_def)
  then show ?thesis using assms(1,5) by (intro kept) (auto simp: relay_ok_def)
qed

lemma fresh_job_silent:
  assumes "session_good arch s" "at_phase s k Starting"
  shows "texts k s = []"
proof -
  have "frames_of k s = []"
    using job_good_at [OF assms(1), of k] assms(2) by (auto simp: job_good_def phase_good_def)
  then show ?thesis by (simp add: texts_def List.map_filter_simps)
qed

lemma begun_phase_change:
  assumes "begun arch s k" "ph \<noteq> Starting"
  shows "begun arch (set_phase k ph s) k" "texts k (set_phase k ph s) = texts k s"
    "at_phase (set_phase k ph s) k ph' \<longleftrightarrow> ph' = ph"
  using assms texts_cong [of "set_phase k ph s" s k]
  by (auto simp: begun_def plan_of_def frame_simps job_op_defs upd_nth)

lemma begun_frame:
  "begun arch (write_frame w fr ok s) k = begun arch s k" "begun arch (s\<lparr>ran := rs\<rparr>) k = begun arch s k"
  "at_phase (write_frame w fr ok s) k ph = at_phase s k ph"
  by (simp_all add: begun_def plan_of_def frame_simps)

lemma in_hand_reader [simp]: "in_hand (p\<lparr>sp_reader := rd\<rparr>) = in_hand p"
  by (simp add: in_hand_def)

text \<open>The scanner stops and the job goes to its last frame; or it goes on after a line.\<close>

lemma relayed_stops:
  assumes "begun arch s k" "relayed s k p" "rd = AtEof \<longrightarrow> sp_closed p \<and> length (in_hand p) \<le> length (texts k s)"
  shows "begun arch (set_phase k (Ending fr) s) k \<and> relayed (set_phase k (Ending fr) s) k (p\<lparr>sp_reader := rd\<rparr>)"
  using assms begun_phase_change [OF assms(1), of "Ending fr"] by (auto simp: relayed_def Let_def)

lemma relayed_line:
  assumes "begun arch s k" "relayed s k p" "sp_reader p = Reading" "length (texts k s) < length (in_hand p)"
  shows "relayed (write_frame (Some k) (ResFrame rid i (redact (in_hand p ! length (texts k s)))) True
      (set_phase k (Streaming n t (length (texts k s) + 1)) s)) k p"
proof -
  let ?m = "length (texts k s)"
  have "texts k s @ [redact (in_hand p ! ?m)] = map redact (take (Suc ?m) (in_hand p))"
    using assms(2,4) by (simp add: relayed_def Let_def take_Suc_conv_app_nth)
  then show ?thesis
    using begun_phase_change [OF assms(1), of "Streaming n t (?m + 1)"] assms(3,4)
    by (auto simp: relayed_def Let_def texts_write frame_text_def begun_frame)
qed

lemma step_relay_ok:
  assumes "relay_step arch parse r r'" "relay_ok arch r"
  shows "relay_ok arch r'"
  using assms
proof (induction rule: relay_step.induct)
  case (starts r k argv n t s)
  let ?s = "rl_session r"
  have g: "session_good arch ?s" using starts.prems by (simp add: relay_ok_def)
  have s: "s = (set_phase k (Streaming n t 0) ?s)\<lparr>ran := ran ?s @ [(k, argv)]\<rparr>" "at_phase ?s k Starting"
    using starts.hyps(2,1) by (cases; auto)+
  have "texts k s = []"
    using fresh_job_silent [OF g s(2)] texts_cong [of s ?s k] s(1) by (simp add: frame_simps job_op_defs)
  moreover have "begun arch s k"
    using s starts.hyps(1) by (simp add: begun_def plan_of_def frame_simps job_op_defs)
  moreover have "pipe_ok pipe_start" "in_hand pipe_start = []"
    by (simp_all add: pipe_ok_def pipe_start_def in_flight_def in_hand_def whole_lines_def)
  moreover have "at_phase s k ph \<Longrightarrow> ph = Streaming n t 0" for ph
    using s by (simp add: frame_simps job_op_defs)
  ultimately show ?case
    using session_good_step [OF starts.hyps(2) g] others_kept [OF starts.prems starts.hyps(2)]
    by (intro relay_okI) (auto simp: relayed_def pipe_start_def event_job_def)
next
  case (flows r k p argv n t p')
  then have p: "begun arch (rl_session r) k" "pipe_ok p" "relayed (rl_session r) k p"
    by (auto simp: relay_ok_def)
  have "relayed (rl_session r) k p'"
    using in_hand_grows [OF flows.hyps(3) p(2)] relayed_grows [OF p(3) _ flows.hyps(4)] by fastforce
  then show ?case
    using flows.prems p(1) pipe_ok_step [OF flows.hyps(3) p(2)] by (auto simp: relay_ok_def)
next
  case (relays r k p n t seq ok s)
  let ?s = "rl_session r" and ?raw = "in_hand p ! seq"
  have p: "begun arch ?s k" "pipe_ok p" "relayed ?s k p" and g: "session_good arch ?s"
    using relays by (auto simp: relay_ok_def)
  then have m: "seq = length (texts k ?s)" "sp_reader p = Reading" "texts k ?s = map redact (take seq (in_hand p))"
    using relays.hyps(2) by (auto simp: relayed_def Let_def)
  let ?q = "if at_phase s k (Streaming n t (seq + 1)) then p else p\<lparr>sp_reader := Stopped\<rparr>"
  have "begun arch s k \<and> relayed s k ?q"
    using relays.hyps(4)
  proof cases
    case (line_over n' t' seq')
    then show ?thesis using relayed_stops [OF p(1,3), of Stopped] begun_phase_change(3) [OF p(1)] by simp
  next
    case (line n' t' seq')
    then have n': "n' = n" "t' = t" "seq' = seq" using relays.hyps(2) by auto
    show ?thesis
    proof (cases ok)
      case True
      then show ?thesis
        using line n' relayed_line [OF p(1,3) m(2)] relays.hyps(3) m(1) begun_phase_change [OF p(1), of "Streaming n t (seq + 1)"]
        by (simp add: begun_frame)
    next
      case False
      then show ?thesis
        using line n' relayed_stops [OF p(1,3), of Stopped] begun_phase_change(3) [OF p(1)]
        by (simp add: write_frame_def)
    qed
  qed
  moreover have "pipe_ok ?q" using p(2) by (auto simp: pipe_ok_def in_flight_def)
  ultimately show ?case
    using session_good_step [OF relays.hyps(4) g] others_kept [OF relays.prems relays.hyps(4)]
    by (intro relay_okI) (auto simp: event_job_def)
next
  case (ends r k p n t seq rd s)
  let ?s = "rl_session r"
  have p: "begun arch ?s k" "pipe_ok p" "relayed ?s k p" and g: "session_good arch ?s"
    using ends by (auto simp: relay_ok_def)
  have s: "s = set_phase k (Ending (EofFrame (req_id ?s k))) ?s"
    using ends.hyps(5) by cases auto
  have "length (in_hand p) \<le> length (texts k ?s)"
    using p(3) ends.hyps(2,3) by (auto simp: relayed_def Let_def)
  then have "begun arch s k \<and> relayed s k (p\<lparr>sp_reader := rd\<rparr>)"
    unfolding s using relayed_stops [OF p(1,3)] ends.hyps(4) by auto
  moreover have "pipe_ok (p\<lparr>sp_reader := rd\<rparr>)" using p(2) ends.hyps(4) by (auto simp: pipe_ok_def in_flight_def)
  ultimately show ?case
    using session_good_step [OF ends.hyps(5) g] others_kept [OF ends.prems ends.hyps(5)]
    by (intro relay_okI) (auto simp: event_job_def)
next
  case (other r ev s)
  have "begun arch s k \<and> pipe_ok p \<and> relayed s k p" if "rl_pipes r k = Some p" for k p
    using other that by (intro kept [of arch k "rl_session r"] session_keeps) (auto simp: relay_ok_def)
  then show ?case using other session_good_step by (auto simp: relay_ok_def)
qed

lemma reach_relay_ok: "relay_reach arch parse c r \<Longrightarrow> relay_ok arch r"
proof (induction rule: relay_reach.induct)
  case init
  show ?case by (simp add: relay_ok_def session_good_new)
next
  case (step r r')
  then show ?case by (blast intro: step_relay_ok)
qed

text \<open>The session is one of the session model.\<close>

lemma relay_session_reach:
  "relay_reach arch parse c r \<Longrightarrow> reach arch parse (\<lambda>_ _. True) c (rl_session r)"
proof (induction rule: relay_reach.induct)
  case init
  show ?case by (simp add: reach.init)
next
  case (step r r')
  from step.hyps(2) step.IH show ?case by cases (auto intro: reach.step)
qed

lemma in_hand_written:
  assumes "pipe_ok p"
  shows "\<exists>ls. all_lines (sp_written p) = in_hand p @ ls" "sp_closed p \<Longrightarrow> all_lines (sp_written p) = in_hand p"
proof -
  have w: "sp_written p = sp_read p @ in_flight p" using assms by (simp add: pipe_ok_def)
  show c: "sp_closed p \<Longrightarrow> all_lines (sp_written p) = in_hand p"
    using assms by (simp add: pipe_ok_def in_flight_def in_hand_def)
  obtain ls where "whole_lines (sp_written p) = whole_lines (sp_read p) @ ls"
    using whole_lines_append w by metis
  then show "\<exists>ls. all_lines (sp_written p) = in_hand p @ ls"
    using c by (cases "sp_closed p") (auto simp: in_hand_def all_lines_def Let_def)
qed

section \<open>Each stream is a run of its pipe\<close>

lemma split_on_none: "c \<notin> set s \<Longrightarrow> split_on c s = [s]"
  by (induction s) auto

lemma unfinished_last: "unfinished s = length (last (split_on CHR 0x0A s))"
proof (induction s)
  case Nil
  show ?case by (simp add: unfinished_def)
next
  case (Cons x s)
  show ?case
  proof (cases "CHR 0x0A \<in> set s")
    case True
    then have "unfinished (x # s) = unfinished s" by (simp add: unfinished_def takeWhile_append1)
    moreover have "0 < length (filter (\<lambda>x. x = CHR 0x0A) s)" using True by (auto simp: filter_empty_conv)
    then obtain w v ws where "split_on CHR 0x0A s = w # v # ws"
      using length_split_on [of "CHR 0x0A" s] by (cases "split_on CHR 0x0A s"; cases "tl (split_on CHR 0x0A s)") auto
    ultimately show ?thesis using Cons.IH by auto
  next
    case False
    then have "unfinished (x # s) = (if x = CHR 0x0A then length s else Suc (length s))"
      by (auto simp: unfinished_def takeWhile_append)
    then show ?thesis using split_on_none [OF False] by simp
  qed
qed

lemma length_in_hand: "length (in_hand p) = lines_of (sp_closed p) (sp_read p)"
  by (simp add: in_hand_def all_lines_def Let_def lines_of_def length_whole_lines unfinished_last)

definition piped :: "goarch \<Rightarrow> relay \<Rightarrow> bool" where
  "piped arch r =
     (\<forall>k p argv n t. rl_pipes r k = Some p \<longrightarrow> plan_of arch (rl_session r) k = Command argv n t \<longrightarrow>
        (pipe_step n)\<^sup>*\<^sup>* pipe_start p)"

lemma session_plan:
  assumes "session_step arch' parse s ev s'" "k < length (jobs s)"
  shows "plan_of arch s' k = plan_of arch s k"
  using assms(1)
proof cases
  case (recv data)
  show ?thesis
    unfolding recv(2)
    using assms(2)
    by (cases rule: dispatch_cases [of parse data s])
      (auto simp: plan_of_def frame_simps job_op_defs nth_append upd_nth)
qed (use assms(2) in \<open>auto simp: plan_of_def frame_simps job_op_defs upd_nth\<close>)

lemma pipe_stops:
  assumes "sp_reader p = Reading" "0 < length (in_hand p)"
  shows "pipe_step n p (p\<lparr>sp_reader := Stopped\<rparr>)"
  using assms by (intro frame_lost) (simp_all add: length_in_hand)

lemma streaming_capped:
  assumes "session_good arch s" "at_phase s k (Streaming n t q)"
  shows "\<exists>argv. plan_of arch s k = Command argv n t" "0 < n \<longrightarrow> q \<le> n"
  using job_good_at [OF assms(1), of k] assms(2)
  by (auto simp: job_good_def phase_good_def plan_good_def plan_of_def)

lemma piped_step:
  assumes "piped arch r" "\<And>i q. rl_pipes r i = Some q \<Longrightarrow> plan_of arch s i = plan_of arch (rl_session r) i"
    "rl_pipes r k = Some p"
    "\<And>argv n t. plan_of arch (rl_session r) k = Command argv n t \<Longrightarrow> (pipe_step n)\<^sup>*\<^sup>* p q"
  shows "piped arch \<lparr>rl_session = s, rl_pipes = (rl_pipes r)(k \<mapsto> q)\<rparr>"
proof -
  have "(pipe_step n)\<^sup>*\<^sup>* pipe_start q" if "plan_of arch (rl_session r) k = Command argv n t" for argv n t
    using assms(1,3,4) that unfolding piped_def by (meson rtranclp_trans)
  then show ?thesis using assms(1-3) by (auto simp: piped_def)
qed

lemma step_piped:
  assumes "relay_step arch parse r r'" "relay_ok arch r" "piped arch r"
  shows "piped arch r'"
  using assms
proof (induction rule: relay_step.induct)
  case (starts r k argv n t s)
  then show ?case
    using session_plan [OF starts.hyps(2)] by (auto simp: piped_def relay_ok_def begun_def)
next
  case (flows r k p argv n t p')
  then have "(pipe_step n)\<^sup>*\<^sup>* pipe_start p" by (auto simp: piped_def)
  then have "(pipe_step n)\<^sup>*\<^sup>* pipe_start p'" using flows.hyps(3) by (rule rtranclp.rtrancl_into_rtrancl)
  with flows show ?case by (auto simp: piped_def)
next
  case (relays r k p n t seq ok s)
  then have "pipe_step i p (p\<lparr>sp_reader := Stopped\<rparr>)" for i
    by (intro pipe_stops) (auto simp: relay_ok_def relayed_def Let_def)
  with relays show ?case
    using session_plan [OF relays.hyps(4)]
    by (intro piped_step) (auto simp: relay_ok_def begun_def)
next
  case (ends r k p n t seq rd s)
  have g: "session_good arch (rl_session r)" and p: "sp_reader p = Reading" and k: "k < length (jobs (rl_session r))"
    using ends by (auto simp: relay_ok_def relayed_def Let_def)
  have "pipe_step i p (p\<lparr>sp_reader := rd\<rparr>)" if "plan_of arch (rl_session r) k = Command argv i u" for argv i u
  proof -
    have "\<not> over_the_cap i p"
      using streaming_capped [OF g ends.hyps(2)] that ends.hyps(3) by (auto simp: over_the_cap_def length_in_hand)
    then show ?thesis using ends.hyps(4) p by (auto intro: sees_eof line_too_long)
  qed
  with ends show ?case
    using session_plan [OF ends.hyps(5)]
    by (intro piped_step) (auto simp: relay_ok_def begun_def)
next
  case (other r ev s)
  then show ?case using session_plan [OF other.hyps(1)] by (auto simp: piped_def relay_ok_def begun_def)
qed

lemma reach_piped: "relay_reach arch parse c r \<Longrightarrow> piped arch r"
proof (induction rule: relay_reach.induct)
  case init
  show ?case by (simp add: piped_def)
next
  case (step r r')
  then show ?case using step_piped reach_relay_ok by blast
qed

section \<open>Properties\<close>

text \<open>C5: What the server sees of a command is what the command wrote: the data frames of its job carry
  the first lines of the output, in order, none lost, none twice, each masked; and when the scanner has
  seen the end of the file, all of them. The session is a run of the session model and the pipes behind
  the job are a run of theirs.\<close>

theorem stream_relays_output:
  assumes "relay_reach arch parse c r" "rl_pipes r k = Some p"
  shows "reach arch parse (\<lambda>_ _. True) c (rl_session r) \<and>
    (\<exists>argv n t. plan_of arch (rl_session r) k = Command argv n t \<and> (pipe_step n)\<^sup>*\<^sup>* pipe_start p) \<and>
    (\<exists>m \<le> length (all_lines (sp_written p)).
      texts k (rl_session r) = map redact (take m (all_lines (sp_written p))) \<and>
      (sp_reader p = AtEof \<longrightarrow> m = length (all_lines (sp_written p))))"
proof (intro conjI)
  show "reach arch parse (\<lambda>_ _. True) c (rl_session r)" using assms(1) by (rule relay_session_reach)
  have p: "begun arch (rl_session r) k" "pipe_ok p" "relayed (rl_session r) k p"
    using reach_relay_ok [OF assms(1)] assms(2) by (auto simp: relay_ok_def)
  show "\<exists>argv n t. plan_of arch (rl_session r) k = Command argv n t \<and> (pipe_step n)\<^sup>*\<^sup>* pipe_start p"
    using p(1) reach_piped [OF assms(1)] assms(2) by (auto simp: begun_def piped_def split: plan.splits)
  obtain ls where "all_lines (sp_written p) = in_hand p @ ls" "sp_closed p \<longrightarrow> ls = []"
    using in_hand_written [OF p(2)] by fastforce
  with p(3) show "\<exists>m \<le> length (all_lines (sp_written p)).
      texts k (rl_session r) = map redact (take m (all_lines (sp_written p))) \<and>
      (sp_reader p = AtEof \<longrightarrow> m = length (all_lines (sp_written p)))"
    by (intro exI [of _ "length (texts k (rl_session r))"]) (auto simp: relayed_def Let_def)
qed

section \<open>A concrete stream\<close>

definition demo_line :: string where
  "demo_line = ''token=abc'' @ [CHR 0x0A]"

definition demo_read :: stream_pipe where
  "demo_read = pipe_start\<lparr>sp_written := demo_line, sp_read := demo_line\<rparr>"

lemma demo_session_steps:
  "session_step arch demo_parse (demo_session [] [] [] []) (Recv ''req'') (demo_session [(''x'', 0)] [demo_job Starting] [] [])"
  "session_step arch demo_parse (demo_session [(''x'', 0)] [demo_job Starting] [] []) (Start 0 True)
     (demo_session [(''x'', 0)] [demo_job (Streaming 21 None 0)] [] [(0, demo_argv)])"
  "session_step arch demo_parse (demo_session [(''x'', 0)] [demo_job (Streaming 21 None 0)] [] [(0, demo_argv)])
     (Line 0 ''token=abc'' True)
     (demo_session [(''x'', 0)] [demo_job (Streaming 21 None 1)] [demo_fr] [(0, demo_argv)])"
proof -
  let ?a = "demo_session [] [] [] []" and ?b = "demo_session [(''x'', 0)] [demo_job Starting] [] []"
  let ?c = "demo_session [(''x'', 0)] [demo_job (Streaming 21 None 0)] [] [(0, demo_argv)]"
  have "session_step arch demo_parse ?a (Recv ''req'') (dispatch demo_parse ''req'' ?a)"
    by (rule session_step.recv) (simp_all add: demo_session_def readLimitBytes_def)
  then show "session_step arch demo_parse ?a (Recv ''req'') ?b" by (simp add: demo_dispatch)
  have "session_step arch demo_parse ?b (Start 0 True)
      ((set_phase 0 (Streaming 21 None 0) ?b)\<lparr>ran := ran ?b @ [(0, demo_argv)]\<rparr>)"
    by (rule session_step.start_command) (simp_all add: demo_session_def demo_job_def plan_of_def demo_plan)
  then show "session_step arch demo_parse ?b (Start 0 True) ?c"
    by (simp add: demo_session_def demo_job_def job_op_defs upd_job_def)
  have "session_step arch demo_parse ?c (Line 0 ''token=abc'' True)
      (write_frame (Some 0) (ResFrame (req_id ?c 0) 0 (redact ''token=abc'')) True
        (set_phase 0 (if True then Streaming 21 None (0 + 1) else Ending (EofFrame (req_id ?c 0))) ?c))"
    by (rule session_step.line) (simp_all add: demo_session_def demo_job_def lineBufferBytes_def)
  then show "session_step arch demo_parse ?c (Line 0 ''token=abc'' True)
      (demo_session [(''x'', 0)] [demo_job (Streaming 21 None 1)] [demo_fr] [(0, demo_argv)])"
    by (simp add: demo_session_def demo_job_def job_op_defs upd_job_def write_frame_def
        demo_redact demo_fr_def del: redact.simps)
qed

lemma demo_lines: "all_lines demo_line = [''token=abc'']" "in_hand demo_read = [''token=abc'']"
  by (simp_all add: all_lines_def whole_lines_def demo_line_def drop_cr_def in_hand_def demo_read_def pipe_start_def)

lemma demo_relay:
  "relay_reach arch demo_parse demo_control
     \<lparr>rl_session = demo_session [(''x'', 0)] [demo_job (Streaming 21 None 1)] [demo_fr] [(0, demo_argv)],
      rl_pipes = [0 \<mapsto> demo_read]\<rparr>"
proof -
  let ?a = "demo_session [] [] [] []" and ?b = "demo_session [(''x'', 0)] [demo_job Starting] [] []"
  let ?c = "demo_session [(''x'', 0)] [demo_job (Streaming 21 None 0)] [] [(0, demo_argv)]"
  let ?d = "demo_session [(''x'', 0)] [demo_job (Streaming 21 None 1)] [demo_fr] [(0, demo_argv)]"
  let ?p1 = "pipe_start\<lparr>sp_kernel := demo_line, sp_written := demo_line\<rparr>"
  let ?p2 = "?p1\<lparr>sp_copier := Writing demo_line, sp_kernel := []\<rparr>"
  let ?r = "relay_reach arch demo_parse demo_control" and ?step = "relay_step arch demo_parse"
  let ?with = "\<lambda>s p. \<lparr>rl_session = s, rl_pipes = [0 \<mapsto> p]\<rparr>"
  have plan: "plan_of arch ?b 0 = Command demo_argv 21 None" "plan_of arch ?c 0 = Command demo_argv 21 None"
    by (simp_all add: plan_of_def demo_session_def demo_job_def demo_plan)
  have phase: "at_phase ?c 0 (Streaming 21 None 0)" "at_phase ?d 0 (Streaming 21 None 1)"
    by (simp_all add: demo_session_def demo_job_def)
  have "?r \<lparr>rl_session = ?a, rl_pipes = Map.empty\<rparr>"
    using relay_reach.init [of arch demo_parse demo_control] by (simp add: new_session_def demo_session_def)
  moreover have "?step \<lparr>rl_session = ?a, rl_pipes = Map.empty\<rparr> \<lparr>rl_session = ?b, rl_pipes = Map.empty\<rparr>"
    using relay_step.other [of arch demo_parse "\<lparr>rl_session = ?a, rl_pipes = Map.empty\<rparr>" "Recv ''req''" ?b]
      demo_session_steps(1) by (simp add: stream_event_def)
  ultimately have b: "?r \<lparr>rl_session = ?b, rl_pipes = Map.empty\<rparr>" by (rule relay_reach.step)
  have "?step \<lparr>rl_session = ?b, rl_pipes = Map.empty\<rparr> (?with ?c pipe_start)"
    using relay_step.starts [of arch "\<lparr>rl_session = ?b, rl_pipes = Map.empty\<rparr>" 0 demo_argv 21 None demo_parse ?c]
      plan(1) demo_session_steps(2) by simp
  with b have "?r (?with ?c pipe_start)" by (rule relay_reach.step)
  moreover have "?step (?with ?c pipe_start) (?with ?c ?p1)"
    using relay_step.flows [of "?with ?c pipe_start" 0 pipe_start arch demo_argv 21 None ?p1 demo_parse] plan(2)
      prints [of pipe_start 21 demo_line] by (simp add: pipe_start_def)
  ultimately have "?r (?with ?c ?p1)" by (rule relay_reach.step)
  moreover have "?step (?with ?c ?p1) (?with ?c ?p2)"
    using relay_step.flows [of "?with ?c ?p1" 0 ?p1 arch demo_argv 21 None ?p2 demo_parse] plan(2)
      copies [of ?p1 demo_line "[]" 21] by (simp add: pipe_start_def demo_line_def)
  ultimately have "?r (?with ?c ?p2)" by (rule relay_reach.step)
  moreover have "?step (?with ?c ?p2) (?with ?c demo_read)"
  proof -
    have "pipe_step 21 ?p2 demo_read"
      using hands_over [of ?p2 demo_line "[]" 21]
      by (simp add: pipe_start_def demo_read_def demo_line_def over_the_cap_def lines_of_def lines_in_def
          unfinished_def lineBufferBytes_def)
    then show ?thesis
      using relay_step.flows [of "?with ?c ?p2" 0 ?p2 arch demo_argv 21 None demo_read demo_parse] plan(2) phase(1)
      by (simp add: pipe_start_def demo_read_def in_hand_def whole_lines_def)
  qed
  ultimately have "?r (?with ?c demo_read)" by (rule relay_reach.step)
  moreover have "?step (?with ?c demo_read) (?with ?d demo_read)"
    using relay_step.relays [of "?with ?c demo_read" 0 demo_read 21 None 0 arch demo_parse True ?d]
      demo_session_steps(3) phase demo_lines(2) by simp
  ultimately show ?thesis by (rule relay_reach.step)
qed

theorem stream_relays_output_witness:
  "all_lines (sp_written demo_read) = [''token=abc''] \<and>
   texts 0 (demo_session [(''x'', 0)] [demo_job (Streaming 21 None 1)] [demo_fr] [(0, demo_argv)]) = [''token=***''] \<and>
   (pipe_step 21)\<^sup>*\<^sup>* pipe_start demo_read"
proof -
  let ?s = "demo_session [(''x'', 0)] [demo_job (Streaming 21 None 1)] [demo_fr] [(0, demo_argv)]"
  have "plan_of Amd64 ?s 0 = Command demo_argv 21 None"
    by (simp add: plan_of_def demo_session_def demo_job_def demo_plan)
  then have "(pipe_step 21)\<^sup>*\<^sup>* pipe_start demo_read"
    using stream_relays_output [OF demo_relay [of Amd64], of 0 demo_read] by simp
  moreover have "texts 0 ?s = [''token=***'']"
    by (simp add: texts_def frames_of_def demo_session_def demo_fr_def List.map_filter_simps frame_text_def)
  moreover have "sp_written demo_read = demo_line" by (simp add: demo_read_def)
  ultimately show ?thesis using demo_lines(1) by simp
qed

end
