(* ===== verification/Live_Stream.thy ===== *)
theory Live_Stream
  imports Stream_Relay Live_Metrics Heartbeat_Signals
begin

text \<open>
  A session together with the samplers behind its metrics.live jobs (\<open>metricsLiveJob\<close> in
  control/control.go over control/metrics.go): what the frames of such a job hold is what a list
  function makes of the readings of \<open>/proc\<close>.
\<close>

section \<open>The samples of a list of ticks\<close>

text \<open>What the ticks find: the file system and the clock (\<open>UnixMilli\<close>). A tick at which
  \<open>/proc/stat\<close> has no CPU line does not count.\<close>

type_synonym live_tick = "filesys \<times> int"

definition reading :: "live_tick \<Rightarrow> (live_tick \<times> cpuSample) option" where
  "reading tk = (case readCPUSample (fst tk) of Inl _ \<Rightarrow> None | Inr cur \<Rightarrow> Some (tk, cur))"

definition readings :: "live_tick list \<Rightarrow> (live_tick \<times> cpuSample) list" where
  "readings tks = List.map_filter reading tks"

definition live_sample ::
  "goarch \<Rightarrow> (string \<Rightarrow> f64 option) \<Rightarrow> cpuSample \<Rightarrow> live_tick \<times> cpuSample \<Rightarrow> liveMetrics" where
  "live_sample arch pf prev r =
     \<lparr>lm_Ts = snd (fst r), lm_CPU = cpuPct arch prev (snd r), lm_Mem = readMemPct arch (fst (fst r)),
      lm_Load1 = readLoad1 pf (fst (fst r))\<rparr>"

definition sample_prints :: "liveMetrics \<Rightarrow> bool" where
  "sample_prints m = (finite_f64 (lm_CPU m) \<and> finite_f64 (lm_Mem m) \<and> finite_f64 (lm_Load1 m))"

text \<open>The samples: each reading against the one before it, less those that JSON cannot print.\<close>

definition live_samples ::
  "goarch \<Rightarrow> (string \<Rightarrow> f64 option) \<Rightarrow> cpuSample \<Rightarrow> live_tick list \<Rightarrow> liveMetrics list" where
  "live_samples arch pf first tks =
     (let rs = readings tks
      in filter sample_prints (map2 (live_sample arch pf) (first # map snd rs) rs))"

definition last_reading :: "cpuSample \<Rightarrow> live_tick list \<Rightarrow> cpuSample" where
  "last_reading first tks = last (first # map snd (readings tks))"

text \<open>\<open>json.Marshal\<close> of a sample that prints.\<close>

definition float_json :: "f64 \<Rightarrow> json" where
  "float_json x = (case x of Fin r \<Rightarrow> number_json r | _ \<Rightarrow> JNull)"

definition metrics_json :: "liveMetrics \<Rightarrow> json" where
  "metrics_json m =
     JObj [(''ts'', JInt (lm_Ts m)), (''cpu'', float_json (lm_CPU m)), (''mem'', float_json (lm_Mem m)),
           (''load1'', float_json (lm_Load1 m))]"

lemma readings_simps:
  "readings [] = []"
  "readings (tks @ [tk]) = readings tks @ (case reading tk of None \<Rightarrow> [] | Some r \<Rightarrow> [r])"
  by (auto simp: readings_def List.map_filter_def split: option.split)

lemma zip_against_before:
  "length xs = length ys \<Longrightarrow>
     map2 f (x # xs @ [z]) (ys @ [y]) = map2 f (x # xs) ys @ [f (last (x # xs)) y]"
  by (induction xs ys arbitrary: x rule: list_induct2) auto

text \<open>One tick more.\<close>

lemma live_samples_snoc:
  "last_reading first (tks @ [(fs, now)]) = fst (metrics_tick arch pf fs now (last_reading first tks))"
  "live_samples arch pf first (tks @ [(fs, now)]) =
     live_samples arch pf first tks @
     (case snd (metrics_tick arch pf fs now (last_reading first tks)) of None \<Rightarrow> [] | Some m \<Rightarrow> [m])"
proof -
  show "last_reading first (tks @ [(fs, now)]) = fst (metrics_tick arch pf fs now (last_reading first tks))"
    by (auto simp: last_reading_def readings_simps reading_def metrics_tick_def Let_def split: sum.split)
  show "live_samples arch pf first (tks @ [(fs, now)]) =
     live_samples arch pf first tks @
     (case snd (metrics_tick arch pf fs now (last_reading first tks)) of None \<Rightarrow> [] | Some m \<Rightarrow> [m])"
  proof (cases "readCPUSample fs")
    case (Inl e)
    then show ?thesis by (simp add: live_samples_def readings_simps reading_def metrics_tick_def)
  next
    case (Inr cur)
    then show ?thesis
      using zip_against_before [of "map snd (readings tks)" "readings tks" "live_sample arch pf" first cur "((fs, now), cur)"]
      by (simp add: live_samples_def readings_simps reading_def metrics_tick_def Let_def last_reading_def
          sample_prints_def live_sample_def del: zip_Cons_Cons)
  qed
qed

lemma live_samples_range:
  "m \<in> set (live_samples arch pf first tks) \<Longrightarrow> \<exists>p. lm_CPU m = Fin p \<and> 0 \<le> p \<and> p \<le> 100"
  using cpuPct_range by (auto simp: live_samples_def Let_def live_sample_def)

section \<open>Steps\<close>

text \<open>What \<open>metricsLiveJob\<close> holds of a job, \<open>prev\<close>, and beside it what it has met: its first reading
  and its ticks.\<close>

record feed =
  fd_prev :: cpuSample
  fd_first :: cpuSample
  fd_ticks :: "live_tick list"

record live =
  li_session :: session
  li_feeds :: "nat \<Rightarrow> feed option"

text \<open>The events that belong to a sampler.\<close>

definition feed_event :: "goarch \<Rightarrow> session \<Rightarrow> event \<Rightarrow> bool" where
  "feed_event arch s ev =
     (case ev of
        Sample_tick k payload ok \<Rightarrow> True
      | Start k ok \<Rightarrow> (case plan_of arch s k of Sample d t \<Rightarrow> True | _ \<Rightarrow> False)
      | _ \<Rightarrow> False)"

text \<open>\<open>starts\<close> and \<open>unavailable\<close>: the first reading. \<open>skips\<close> and \<open>sends\<close>: a tick, which reads, and
  writes a frame unless there is no sample or JSON refuses it. \<open>other\<close>: the rest of the session.
  \<open>pf\<close> is \<open>ParseFloat\<close> and \<open>show_doc\<close> prints a document.\<close>

inductive live_step ::
  "goarch \<Rightarrow> (string \<Rightarrow> json option) \<Rightarrow> (string \<Rightarrow> f64 option) \<Rightarrow> (json \<Rightarrow> string) \<Rightarrow> live \<Rightarrow> live \<Rightarrow> bool"
  for arch parse pf show_doc where
  starts: "plan_of arch (li_session l) k = Sample d t \<Longrightarrow> readCPUSample fs = Inr cur \<Longrightarrow>
    session_step arch parse (li_session l) (Start k True) s \<Longrightarrow>
    live_step arch parse pf show_doc l \<lparr>li_session = s,
      li_feeds = (li_feeds l)(k \<mapsto> \<lparr>fd_prev = cur, fd_first = cur, fd_ticks = []\<rparr>)\<rparr>"
| unavailable: "plan_of arch (li_session l) k = Sample d t \<Longrightarrow> readCPUSample fs = Inl e \<Longrightarrow>
    session_step arch parse (li_session l) (Start k False) s \<Longrightarrow>
    live_step arch parse pf show_doc l (l\<lparr>li_session := s\<rparr>)"
| skips: "li_feeds l k = Some f \<Longrightarrow> at_phase (li_session l) k (Sampling seq) \<Longrightarrow>
    metrics_tick arch pf fs now (fd_prev f) = (cur, None) \<Longrightarrow>
    live_step arch parse pf show_doc l (l\<lparr>li_feeds := (li_feeds l)(k \<mapsto>
      f\<lparr>fd_prev := cur, fd_ticks := fd_ticks f @ [(fs, now)]\<rparr>)\<rparr>)"
| sends: "li_feeds l k = Some f \<Longrightarrow> at_phase (li_session l) k (Sampling seq) \<Longrightarrow>
    metrics_tick arch pf fs now (fd_prev f) = (cur, Some m) \<Longrightarrow>
    session_step arch parse (li_session l) (Sample_tick k (show_doc (metrics_json m)) ok) s \<Longrightarrow>
    live_step arch parse pf show_doc l \<lparr>li_session = s, li_feeds = (li_feeds l)(k \<mapsto>
      f\<lparr>fd_prev := cur, fd_ticks := fd_ticks f @ [(fs, now)]\<rparr>)\<rparr>"
| other: "session_step arch parse (li_session l) ev s \<Longrightarrow> \<not> feed_event arch (li_session l) ev \<Longrightarrow>
    live_step arch parse pf show_doc l (l\<lparr>li_session := s\<rparr>)"

inductive live_reach ::
  "goarch \<Rightarrow> (string \<Rightarrow> json option) \<Rightarrow> (string \<Rightarrow> f64 option) \<Rightarrow> (json \<Rightarrow> string) \<Rightarrow> ControlConfig \<Rightarrow> live \<Rightarrow> bool"
  for arch parse pf show_doc c where
  init: "live_reach arch parse pf show_doc c \<lparr>li_session = new_session c, li_feeds = Map.empty\<rparr>"
| step: "live_reach arch parse pf show_doc c l \<Longrightarrow> live_step arch parse pf show_doc l l' \<Longrightarrow>
    live_reach arch parse pf show_doc c l'"

section \<open>What the rest of the session leaves alone\<close>

lemma session_unmoved:
  assumes "session_step arch parse s ev s'" "k < length (jobs s)" "event_job ev \<noteq> Some k"
  shows "k < length (jobs s') \<and> j_phase (jobs s' ! k) = j_phase (jobs s ! k) \<and> texts k s' = texts k s"
  using assms(1)
proof cases
  case (recv data)
  show ?thesis
    unfolding recv(2)
    using assms(2) texts_cong
    by (cases rule: dispatch_cases [of parse data s])
      (auto simp: frame_simps job_op_defs nth_append upd_nth texts_def frames_of_def)
qed (use assms(2,3) in
  \<open>auto simp: event_job_def frame_simps job_op_defs upd_nth texts_write texts_cong nth_list_update
      texts_def frames_of_def\<close>)

definition sampled :: "goarch \<Rightarrow> session \<Rightarrow> nat \<Rightarrow> bool" where
  "sampled arch s k =
     (k < length (jobs s) \<and> j_phase (jobs s ! k) \<noteq> Starting \<and> (\<exists>d t. plan_of arch s k = Sample d t))"

lemma session_moved:
  assumes "session_step arch parse s ev s'" "session_good arch s" "sampled arch s k"
    "event_job ev = Some k" "\<not> feed_event arch s ev"
  shows "k < length (jobs s') \<and> j_phase (jobs s' ! k) \<noteq> Starting \<and> (\<forall>q. j_phase (jobs s' ! k) \<noteq> Sampling q) \<and>
    texts k s' = texts k s"
proof -
  have no_stream: "j_phase (jobs s ! k) \<noteq> Streaming n t q" for n t q
    using good_streaming [OF assms(2), of k n t q] assms(3) by (auto simp: sampled_def)
  have ends: "frame_text fr = None" if "j_phase (jobs s ! k) = Ending fr" for fr
    using job_good_at [OF assms(2), of k] assms(3) that
    by (auto simp: sampled_def job_good_def phase_good_def terminal_def frame_text_def)
  show ?thesis
    using assms(1)
    by cases (use assms(3-5) no_stream ends in
      \<open>auto simp: sampled_def event_job_def feed_event_def frame_simps job_op_defs upd_nth texts_write
         texts_def frames_of_def List.map_filter_def\<close>)
qed

section \<open>The invariant\<close>

text \<open>The frames are the samples of the ticks so far; a job that is over may have lost the frame of the
  last one.\<close>

definition fed ::
  "goarch \<Rightarrow> (string \<Rightarrow> f64 option) \<Rightarrow> (json \<Rightarrow> string) \<Rightarrow> session \<Rightarrow> nat \<Rightarrow> feed \<Rightarrow> bool" where
  "fed arch pf show_doc s k f =
     (let frs = map (show_doc \<circ> metrics_json) (live_samples arch pf (fd_first f) (fd_ticks f))
      in fd_prev f = last_reading (fd_first f) (fd_ticks f) \<and>
         (texts k s = frs \<or> texts k s = butlast frs \<and> (\<forall>q. j_phase (jobs s ! k) \<noteq> Sampling q)))"

definition live_ok :: "goarch \<Rightarrow> (string \<Rightarrow> f64 option) \<Rightarrow> (json \<Rightarrow> string) \<Rightarrow> live \<Rightarrow> bool" where
  "live_ok arch pf show_doc l =
     (session_good arch (li_session l) \<and>
      (\<forall>k f. li_feeds l k = Some f \<longrightarrow>
         sampled arch (li_session l) k \<and> fed arch pf show_doc (li_session l) k f))"

text \<open>A step that is not of the sampler of job \<open>k\<close>.\<close>

lemma fed_other:
  assumes "session_step arch' parse s ev s'" "session_good arch' s" "sampled arch' s k" "fed arch pf show_doc s k f"
    "event_job ev \<noteq> Some k \<or> \<not> feed_event arch' s ev"
  shows "sampled arch' s' k \<and> fed arch pf show_doc s' k f"
proof (cases "event_job ev = Some k")
  case True
  with session_moved [OF assms(1-3)] session_plan [OF assms(1), of k] assms(3-5) show ?thesis
    by (auto simp: sampled_def fed_def Let_def)
next
  case False
  with session_unmoved [OF assms(1), of k] session_plan [OF assms(1), of k] assms(3,4) show ?thesis
    by (auto simp: sampled_def fed_def Let_def)
qed

lemma live_okI:
  assumes "session_good arch s" "sampled arch s k" "fed arch pf show_doc s k g"
    "\<And>i f. i \<noteq> k \<Longrightarrow> feeds i = Some f \<Longrightarrow> sampled arch s i \<and> fed arch pf show_doc s i f"
  shows "live_ok arch pf show_doc \<lparr>li_session = s, li_feeds = feeds(k \<mapsto> g)\<rparr>"
  using assms by (auto simp: live_ok_def)

lemma others_fed:
  assumes "live_ok arch pf show_doc l" "session_step arch parse (li_session l) ev s" "event_job ev = Some k"
    "i \<noteq> k" "li_feeds l i = Some f"
  shows "sampled arch s i \<and> fed arch pf show_doc s i f"
  using assms by (intro fed_other [OF assms(2)]) (auto simp: live_ok_def)

lemma step_live_ok:
  assumes "live_step arch parse pf show_doc l l'" "live_ok arch pf show_doc l"
  shows "live_ok arch pf show_doc l'"
  using assms
proof (induction rule: live_step.induct)
  case (starts l k d t fs cur s)
  let ?s = "li_session l"
  have g: "session_good arch ?s" using starts.prems by (simp add: live_ok_def)
  have s: "s = set_phase k (Sampling 0) ?s" "at_phase ?s k Starting"
    using starts.hyps(3,1) by (cases; auto)+
  have "texts k s = []"
    using fresh_job_silent [OF g s(2)] texts_cong [of s ?s k] s(1) by (simp add: frame_simps job_op_defs)
  moreover have "sampled arch s k"
    using s starts.hyps(1) by (simp add: sampled_def plan_of_def frame_simps job_op_defs)
  ultimately show ?case
    using session_good_step [OF starts.hyps(3) g] others_fed [OF starts.prems starts.hyps(3)]
    by (intro live_okI) (auto simp: fed_def last_reading_def live_samples_def readings_simps event_job_def)
next
  case (unavailable l k d t fs e s)
  have "at_phase (li_session l) k Starting" using unavailable.hyps(3) by cases auto
  then have "li_feeds l k = None"
    using unavailable.prems by (cases "li_feeds l k") (auto simp: live_ok_def sampled_def)
  then have "sampled arch s i \<and> fed arch pf show_doc s i f" if "li_feeds l i = Some f" for i f
    using others_fed [OF unavailable.prems unavailable.hyps(3), of k i f] that
    by (cases "i = k") (auto simp: event_job_def)
  then show ?case
    using session_good_step [OF unavailable.hyps(3)] unavailable.prems by (auto simp: live_ok_def)
next
  case (skips l k f seq fs now cur)
  then have "fed arch pf show_doc (li_session l) k f" by (auto simp: live_ok_def)
  then have "fed arch pf show_doc (li_session l) k (f\<lparr>fd_prev := cur, fd_ticks := fd_ticks f @ [(fs, now)]\<rparr>)"
    using skips.hyps(2,3) by (auto simp: fed_def Let_def live_samples_snoc [where arch = arch and pf = pf])
  with skips show ?case by (auto simp: live_ok_def)
next
  case (sends l k f seq fs now cur m ok s)
  let ?s = "li_session l" and ?g = "f\<lparr>fd_prev := cur, fd_ticks := fd_ticks f @ [(fs, now)]\<rparr>"
  let ?ms = "live_samples arch pf (fd_first f) (fd_ticks f)"
  have f: "fed arch pf show_doc ?s k f" and g: "session_good arch ?s" and k: "sampled arch ?s k"
    using sends by (auto simp: live_ok_def)
  then have t: "texts k ?s = map (show_doc \<circ> metrics_json) ?ms" and p: "fd_prev f = last_reading (fd_first f) (fd_ticks f)"
    using sends.hyps(2) by (auto simp: fed_def Let_def)
  have ms: "live_samples arch pf (fd_first f) (fd_ticks f @ [(fs, now)]) = ?ms @ [m]"
      "last_reading (fd_first f) (fd_ticks f @ [(fs, now)]) = cur"
    using sends.hyps(3) p by (simp_all add: live_samples_snoc [where arch = arch and pf = pf])
  have s: "s = write_frame (Some k) (ResFrame (req_id ?s k) seq (show_doc (metrics_json m))) ok
      (set_phase k (if ok then Sampling (seq + 1) else Returned) ?s)"
    using sends.hyps(4,2) by cases auto
  have x: "texts k (upd_job k h ?s) = texts k ?s" for h
    by (rule texts_cong) (simp add: frame_simps)
  have "sampled arch s k"
    using k sends.hyps(2) unfolding s by (auto simp: sampled_def plan_of_def frame_simps job_op_defs)
  moreover have "fed arch pf show_doc s k ?g"
    using t ms sends.hyps(2) unfolding s
    by (auto simp: fed_def Let_def texts_write x frame_text_def frame_simps job_op_defs)
  ultimately show ?case
    using session_good_step [OF sends.hyps(4) g] others_fed [OF sends.prems sends.hyps(4)]
    by (intro live_okI) (auto simp: event_job_def)
next
  case (other l ev s)
  have "sampled arch s i \<and> fed arch pf show_doc s i f" if "li_feeds l i = Some f" for i f
    using other that by (intro fed_other [OF other.hyps(1)]) (auto simp: live_ok_def)
  then show ?case using other session_good_step by (auto simp: live_ok_def)
qed

lemma reach_live_ok: "live_reach arch parse pf show_doc c l \<Longrightarrow> live_ok arch pf show_doc l"
proof (induction rule: live_reach.induct)
  case init
  show ?case by (simp add: live_ok_def session_good_new)
next
  case (step l l')
  then show ?case by (blast intro: step_live_ok)
qed

text \<open>The session is one of the session model, and only the allow-list lets a job sample.\<close>

lemma live_session_reach:
  "live_reach arch parse pf show_doc c l \<Longrightarrow> reach arch parse (\<lambda>_ _. True) c (li_session l)"
proof (induction rule: live_reach.induct)
  case init
  show ?case by (simp add: reach.init)
next
  case (step l l')
  from step.hyps(2) step.IH show ?case by cases (auto intro: reach.step)
qed

lemma verb_job_samples:
  "verb_job v = Some job \<Longrightarrow> job arch c f = Sample d t \<Longrightarrow> metricsEnabled c"
  by (drule verb_job_cases)
    (auto simp: logsJob_def procTopJob_def procTopLiveJob_def diskDfJob_def netListenJob_def cronListJob_def
      svcStatusJob_def svcListJob_def pkgListJob_def dockerPsJob_def metricsLiveJob_def not_permitted_def Let_def
      split: if_splits option.splits sum.splits)

lemma sampled_enabled:
  assumes "session_good arch s" "sampled arch s k"
  shows "metricsEnabled (cfg s)"
proof -
  have "job_known (jobs s ! k)" using assms by (auto simp: session_good_def sampled_def)
  then have "verb_job (f_Verb (j_req (jobs s ! k))) = Some (j_job (jobs s ! k))" by (simp add: job_known_def)
  moreover obtain d t where "j_job (jobs s ! k) arch (cfg s) (j_req (jobs s ! k)) = Sample d t"
    using assms(2) by (auto simp: sampled_def plan_of_def)
  ultimately show ?thesis using verb_job_samples by blast
qed

section \<open>Properties\<close>

text \<open>C6: The frames of a metrics.live job, which runs only under an allow-list with metrics, are the
  samples of its ticks, in order: each successful reading of /proc/stat against the one before it, less
  the samples that JSON cannot print; only the last can be missing, from a job that is over. The CPU
  value of each is between 0 and 100, also when a counter wraps.\<close>

theorem live_frames_are_samples:
  assumes "live_reach arch parse pf show_doc c l" "li_feeds l k = Some f"
  shows "reach arch parse (\<lambda>_ _. True) c (li_session l) \<and> metricsEnabled c \<and>
    (let ms = live_samples arch pf (fd_first f) (fd_ticks f);
             frs = map (show_doc \<circ> metrics_json) ms
         in (texts k (li_session l) = frs \<or>
             texts k (li_session l) = butlast frs \<and> (\<forall>q. \<not> at_phase (li_session l) k (Sampling q))) \<and>
            list_all (\<lambda>m. \<exists>p. lm_CPU m = Fin p \<and> 0 \<le> p \<and> p \<le> 100) ms)"
proof -
  have r: "reach arch parse (\<lambda>_ _. True) c (li_session l)" using assms(1) by (rule live_session_reach)
  have f: "fed arch pf show_doc (li_session l) k f" "session_good arch (li_session l)" "sampled arch (li_session l) k"
    using reach_live_ok [OF assms(1)] assms(2) by (auto simp: live_ok_def)
  then have "metricsEnabled c" using sampled_enabled reach_cfg [OF r] by blast
  with r f(1) show ?thesis using live_samples_range by (fastforce simp: fed_def Let_def list_all_iff)
qed

section \<open>A concrete stream\<close>

definition live_control :: ControlConfig where
  "live_control = zero_config\<lparr>Control :=
     (Control zero_config)\<lparr>ctl_Enabled := True, Metrics := \<lparr>sv_Enabled = True\<rparr>\<rparr>\<rparr>"

definition live_req :: reqFrame where
  "live_req = \<lparr>f_Type = ''req'', f_ReqID = ''m'', f_Verb = ''metrics.live'', f_Target = [], f_Args = None\<rparr>"

definition live_parse :: "string \<Rightarrow> json option" where
  "live_parse data =
     (if data = ''req'' then Some (JObj [(''type'', JStr ''req''), (''reqId'', JStr ''m''), (''verb'', JStr ''metrics.live'')])
      else None)"

definition live_job :: "phase \<Rightarrow> job_state" where
  "live_job ph = \<lparr>j_req = live_req, j_job = metricsLiveJob, j_phase = ph, j_done = False\<rparr>"

definition live_session :: "job_state list \<Rightarrow> (nat option \<times> out_frame) list \<Rightarrow> session" where
  "live_session js se = \<lparr>cfg = live_control, streams = map (\<lambda>j. (''m'', 0)) js, jobs = js, pending = [],
     sent = se, ran = [], sock_closed = False\<rparr>"

definition live_fs :: "nat list \<Rightarrow> filesys" where
  "live_fs vs = \<lparr>fs_dir = (\<lambda>_. DirNotExist), fs_file = (\<lambda>path. if path = ''/proc/stat''
     then Inr (cpu_line vs @ CHR 0x0A # ''intr 0'') else Inl NotExist)\<rparr>"

definition live_before :: cpuSample where "live_before = \<lparr>cpu_total = 100, cpu_idle = 85\<rparr>"
definition live_after :: cpuSample where "live_after = \<lparr>cpu_total = 200, cpu_idle = 160\<rparr>"

definition live_m :: "goarch \<Rightarrow> liveMetrics" where
  "live_m arch = \<lparr>lm_Ts = 1700, lm_CPU = cpuPct arch live_before live_after, lm_Mem = Fin 0, lm_Load1 = Fin 0\<rparr>"

lemma live_unmarshal: "unmarshal_req live_parse ''req'' = Some live_req"
  by code_simp

lemma live_plan: "metricsLiveJob arch live_control live_req = Sample 2 maxLiveStreamSeconds"
  by (simp add: metricsLiveJob_def live_control_def zero_config_def metricsEnabled_def live_req_def argInt_def
      clampInt_def)

lemma live_readings:
  "readCPUSample (live_fs [10, 0, 5, 80, 5]) = Inr live_before"
  "readCPUSample (live_fs [30, 0, 10, 150, 10]) = Inr live_after"
  using readCPUSample_reads [of "[10, 0, 5, 80, 5]" "live_fs [10, 0, 5, 80, 5]" "''intr 0''"]
    readCPUSample_reads [of "[30, 0, 10, 150, 10]" "live_fs [30, 0, 10, 150, 10]" "''intr 0''"]
  by (simp_all add: live_fs_def live_before_def live_after_def word_sum_def numeral_3_eq_3)

lemma live_tick:
  "metrics_tick arch pf (live_fs [30, 0, 10, 150, 10]) 1700 live_before = (live_after, Some (live_m arch))"
proof -
  obtain p where "cpuPct arch live_before live_after = Fin p" using cpuPct_range by blast
  then show ?thesis
    by (simp add: metrics_tick_def live_readings live_m_def readMemPct_def readLoad1_def finite_f64_def)
      (simp add: live_fs_def)
qed

lemma live_run:
  "live_reach arch live_parse pf show_doc live_control
     \<lparr>li_session = live_session [live_job (Sampling 1)] [(Some 0, ResFrame ''m'' 0 (show_doc (metrics_json (live_m arch))))],
      li_feeds = [0 \<mapsto> \<lparr>fd_prev = live_after, fd_first = live_before, fd_ticks = [(live_fs [30, 0, 10, 150, 10], 1700)]\<rparr>]\<rparr>"
proof -
  let ?r = "live_reach arch live_parse pf show_doc live_control" and ?ls = "live_step arch live_parse pf show_doc"
  let ?ss = "session_step arch live_parse" and ?doc = "show_doc (metrics_json (live_m arch))"
  let ?a = "live_session [] []" and ?b = "live_session [live_job Starting] []" and ?c = "live_session [live_job (Sampling 0)] []"
  let ?d = "live_session [live_job (Sampling 1)] [(Some 0, ResFrame ''m'' 0 ?doc)]"
  let ?l0 = "\<lparr>li_session = ?a, li_feeds = Map.empty\<rparr>" and ?l1 = "\<lparr>li_session = ?b, li_feeds = Map.empty\<rparr>"
  let ?f = "\<lparr>fd_prev = live_before, fd_first = live_before, fd_ticks = []\<rparr>"
  let ?l2 = "\<lparr>li_session = ?c, li_feeds = [0 \<mapsto> ?f]\<rparr>"
  have "?ss ?a (Recv ''req'') (dispatch live_parse ''req'' ?a)"
    by (rule session_step.recv) (simp_all add: live_session_def readLimitBytes_def)
  then have s1: "?ss ?a (Recv ''req'') ?b"
    by (simp add: dispatch_def live_unmarshal handleReq_def verb_job_def spawn_def addStream_def live_session_def
        live_job_def live_req_def)
  have plan: "plan_of arch ?b 0 = Sample 2 maxLiveStreamSeconds"
    by (simp add: plan_of_def live_session_def live_job_def live_plan)
  then have "?ss ?b (Start 0 True) (set_phase 0 (Sampling 0) ?b)"
    by (intro session_step.start_sampling) (simp_all add: live_session_def live_job_def)
  then have s2: "?ss ?b (Start 0 True) ?c"
    by (simp add: live_session_def live_job_def job_op_defs upd_job_def)
  have "?ss ?c (Sample_tick 0 ?doc True) (write_frame (Some 0) (ResFrame (req_id ?c 0) 0 ?doc) True
      (set_phase 0 (if True then Sampling (0 + 1) else Returned) ?c))"
    by (rule session_step.sample) (simp_all add: live_session_def live_job_def)
  then have s3: "?ss ?c (Sample_tick 0 ?doc True) ?d"
    by (simp add: live_session_def live_job_def live_req_def job_op_defs upd_job_def write_frame_def)
  have "?r ?l0"
    using live_reach.init [of arch live_parse pf show_doc live_control] by (simp add: new_session_def live_session_def)
  moreover have "?ls ?l0 ?l1"
    using live_step.other [of arch live_parse ?l0 "Recv ''req''" ?b pf show_doc] s1 by (simp add: feed_event_def)
  ultimately have "?r ?l1" by (rule live_reach.step)
  moreover have "?ls ?l1 ?l2"
    using live_step.starts [of arch ?l1 0 2 maxLiveStreamSeconds _ live_before live_parse ?c pf show_doc]
      plan live_readings(1) s2 by simp
  ultimately have "?r ?l2" by (rule live_reach.step)
  moreover have "?ls ?l2 \<lparr>li_session = ?d, li_feeds = [0 \<mapsto> \<lparr>fd_prev = live_after, fd_first = live_before,
      fd_ticks = [(live_fs [30, 0, 10, 150, 10], 1700)]\<rparr>]\<rparr>"
    using live_step.sends [of ?l2 0 ?f 0 arch pf "live_fs [30, 0, 10, 150, 10]" 1700 live_after "live_m arch"
        live_parse show_doc True ?d] live_tick s3
    by (simp add: live_session_def live_job_def)
  ultimately show ?thesis by (rule live_reach.step)
qed

theorem live_frames_are_samples_witness:
  "\<exists>m. texts 0 (live_session [live_job (Sampling 1)] [(Some 0, ResFrame ''m'' 0 ((\<lambda>_. ''{}'') (metrics_json (live_m Arm64))))]) =
       [(\<lambda>_. ''{}'') (metrics_json m)] \<and>
     lm_Ts m = 1700 \<and> (\<exists>p. lm_CPU m = Fin p \<and> 0 \<le> p \<and> p \<le> 100)"
proof -
  have "live_samples Arm64 (\<lambda>_. None) live_before [(live_fs [30, 0, 10, 150, 10], 1700)] = [live_m Arm64]"
    using live_samples_snoc(2) [of Arm64 "\<lambda>_. None" live_before "[]"] live_tick
    by (simp add: live_samples_def readings_simps last_reading_def)
  then show ?thesis
    using live_frames_are_samples [OF live_run [of Arm64 "\<lambda>_. None" "\<lambda>_. ''{}''"], of 0]
    by (intro exI [of _ "live_m Arm64"]) (auto simp: live_m_def Let_def live_session_def live_job_def)
qed

end
