(* ===== verification/Process_Traffic.thy ===== *)
theory Process_Traffic
  imports Agent_Process
begin

text \<open>
  What the heartbeat sender of the running process sends (\<open>SendOnce\<close> in heartbeat/heartbeat.go over \<open>Run\<close> in
  collectors/runner.go, tick after tick): the bodies of all its requests.
\<close>

section \<open>Bodies\<close>




section \<open>The payload of a tick\<close>






section \<open>The invariant\<close>







section \<open>Properties\<close>



end
