(* ===== verification/Service_Views.thy ===== *)
theory Service_Views
  imports Heartbeat Control_Jobs
begin

text \<open>
  The service definitions of the host (services.d) as the two halves of the agent use them: the
  heartbeat collects their metrics and advertises them (heartbeat/heartbeat.go over
  collectors/services.go), the control channel serves their logs (control/config.go).
\<close>

section \<open>One reading of the directory\<close>

text \<open>The allow-list's file and the directory of the services beside it.\<close>

definition control_path :: "(string \<Rightarrow> string) \<Rightarrow> string" where
  "control_path env =
     (if env envControlConfigPath = [] then defaultControlConfigPath else env envControlConfigPath)"

definition control_services_dir :: "(string \<Rightarrow> string) \<Rightarrow> string" where
  "control_services_dir env = path_join (path_dir (control_path env)) ''services.d''"

text \<open>The log sources the operator lists, where the allow-list can be read and decoded and has the channel and its
  logs switched on.\<close>

definition operator_logs ::
    "(string \<Rightarrow> string) \<Rightarrow> filesys \<Rightarrow> (string \<Rightarrow> ControlConfig option) \<Rightarrow> (string, logSource) gomap option" where
  "operator_logs env fs yaml =
     (case fs_file fs (control_path env) of
        Inl _ \<Rightarrow> None
      | Inr data \<Rightarrow>
          (case yaml data of
             None \<Rightarrow> None
           | Some c \<Rightarrow>
               if ctl_Enabled (Control c) \<and> logs_Enabled (Logs (Control c)) then Some (Sources (Logs (Control c)))
               else None))"

text \<open>The bindings that do not come from services.\<close>

definition own_bindings :: "Sender \<Rightarrow> tick_input \<Rightarrow> Binding list" where
  "own_bindings s ti =
     (case LoadDir (ti_fs ti) (ti_bindings ti) (snd_collectorDir s) of Inl _ \<Rightarrow> [] | Inr bs \<Rightarrow> bs)"

text \<open>A service whose logs the heartbeat advertises.\<close>

definition logs_advertised :: "serviceDef \<Rightarrow> bool" where
  "logs_advertised s = (sd_Logs s \<noteq> [] \<and> logsStr (sd_Logs s) ''type'' \<noteq> [])"

lemma summaries_of_defs:
  "LoadServiceSummaries fs parse dir = Inr rows \<longleftrightarrow>
     (\<exists>defs. loadServiceDefs fs parse dir = Inr defs \<and> rows = map service_summary defs)"
  by (auto simp: LoadServiceSummaries_def result_bind_Inr_iff)

lemma log_sources_of_defs:
  "loadServiceDefs fs parse dir = Inr defs \<Longrightarrow>
     LoadServiceLogSources fs parse dir = Inr (map service_log_source (filter (\<lambda>s. sd_Logs s \<noteq> []) defs))"
  by (simp add: LoadServiceLogSources_def result_bind_def)

text \<open>What the merge makes of a name: the operator's entry, or that of the first service of the name
  whose logs are advertised.\<close>

lemma first_service_of_defs:
  "first_service name (map service_log_source (filter (\<lambda>s. sd_Logs s \<noteq> []) defs)) =
     map_option service_log_source (find (\<lambda>s. sd_Name s = name \<and> logs_advertised s) defs)"
  by (induction defs) (auto simp: first_service_def service_log_source_def logs_advertised_def)

lemma loaded_source:
  assumes "fs_file fs (control_path env) = Inr data" "yaml data = Some c0"
    and "ctl_Enabled (Control c0)" "logs_Enabled (Logs (Control c0))"
    and "loadServiceDefs fs svc (control_services_dir env) = Inr defs"
  shows "source (loadControlConfig env fs yaml svc) name =
     (case map_of (Sources (Logs (Control c0))) name of
        Some src \<Rightarrow> Some src
      | None \<Rightarrow> map_option (service_source_of \<circ> service_log_source)
                  (find (\<lambda>s. sd_Name s = name \<and> logs_advertised s) defs))"
    "ctl_Enabled (Control (loadControlConfig env fs yaml svc))"
    "logs_Enabled (Logs (Control (loadControlConfig env fs yaml svc)))"
  using assms log_sources_of_defs [OF assms(5)]
  by (simp_all add: loadControlConfig_def Let_def control_path_def control_services_dir_def source_def
      map_of_merge_service_sources first_service_of_defs option.map_comp split: option.split)

lemma no_logs_refused:
  assumes "operator_logs env fs yaml = None"
  shows "logsJob arch (loadControlConfig env fs yaml svc) f = not_permitted f"
proof -
  have "\<not> logsEnabled (loadControlConfig env fs yaml svc)"
    using assms
    by (auto simp: operator_logs_def control_path_def loadControlConfig_def logsEnabled_def zero_config_def Let_def
        split: sum.splits option.splits if_splits)
  then show ?thesis by (simp add: logsJob_def)
qed

lemma find_some_iff: "(\<exists>x. find P xs = Some x) \<longleftrightarrow> (\<exists>x\<in>set xs. P x)"
  by (induction xs) auto

lemma logsEnabled_if_source:
  "ctl_Enabled (Control c) \<Longrightarrow> logs_Enabled (Logs (Control c)) \<Longrightarrow> source c name = Some src \<Longrightarrow> logsEnabled c"
  by (auto simp: logsEnabled_def source_def)

lemma sourceNames_iff: "name \<in> set (sourceNames c) \<longleftrightarrow> (\<exists>src. source c name = Some src)"
  by (auto simp: sourceNames_def source_def dom_map_of_conv_image_fst [symmetric] domIff)

lemma find_mono: "find P xs = Some x \<Longrightarrow> P x \<and> x \<in> set xs"
  by (induction xs) (auto split: if_splits)

lemma expand_item_ok_iff: "is_ok (expand_item d) \<longleftrightarrow> service_wf d"
  using expandService_ok_iff [of d] by (auto simp: expand_item_def is_ok_iff split: sum.splits)

text \<open>A log block with a type but without what the type needs.\<close>

lemma untailable_logs_advertised:
  assumes "fs_file fs (control_path env) = Inr data" "yaml data = Some c0"
    and "ctl_Enabled (Control c0)" "logs_Enabled (Logs (Control c0))"
    and "loadServiceDefs fs svc (control_services_dir env) = Inr defs"
    and "find (\<lambda>s. sd_Name s = f_Target f \<and> logs_advertised s) defs = Some d"
    and "map_of (Sources (Logs (Control c0))) (f_Target f) = None"
    and "logsStr (sd_Logs d) ''type'' = ''docker''" "logsStr (sd_Logs d) ''container'' = []"
  shows "ss_Logs (service_summary d) \<and>
    logsJob arch (loadControlConfig env fs yaml svc) f = Refuse (ErrFrame (f_ReqID f) ''bad_source'' 400)"
proof -
  have src: "source (loadControlConfig env fs yaml svc) (f_Target f) = Some (service_source_of (service_log_source d))"
    using loaded_source(1) [where yaml = yaml, OF assms(1-5), of "f_Target f"] assms(6,7) by simp
  then have "logsEnabled (loadControlConfig env fs yaml svc)"
    using loaded_source(2,3) [where yaml = yaml, OF assms(1-5)] logsEnabled_if_source by blast
  moreover have "ss_Logs (service_summary d)"
    using find_mono [OF assms(6)] by (simp add: service_summary_def Let_def logs_advertised_def)
  ultimately show ?thesis
    using src assms(8,9)
    by (simp add: logsJob_def logArgs_def service_source_of_def service_log_source_def log_error_text_def Let_def)
qed

section \<open>Properties\<close>

text \<open>C16: One service definition that is not well formed takes the metrics of every service with it: the
  tick then collects the host's own bindings only, while the heartbeat goes on advertising the keys of
  all services. When all are well formed, what is collected for them are exactly the advertised keys, in
  order, each by a collector of the registry; when the directory cannot be read there is neither.\<close>

theorem services_all_or_none:
  "case loadServiceDefs (ti_fs ti) (ti_services ti) (snd_servicesDir s) of
     Inl e \<Rightarrow> tick_summaries s ti = Inl e \<and> tick_bindings s ti = own_bindings s ti
   | Inr defs \<Rightarrow>
       tick_summaries s ti = Inr (map service_summary defs) \<and>
       (if list_all service_wf defs
        then \<exists>svc. tick_bindings s ti = own_bindings s ti @ svc \<and>
          map OutputKey svc = concat (map (\<lambda>d. map smr_Key (ss_Metrics (service_summary d))) defs) \<and>
          (\<forall>b\<in>set svc. Primitive b \<in> set DefaultRegistry)
        else tick_bindings s ti = own_bindings s ti)"
proof (cases "loadServiceDefs (ti_fs ti) (ti_services ti) (snd_servicesDir s)")
  case (Inl e)
  then show ?thesis
    by (simp add: tick_summaries_def LoadServiceSummaries_def tick_bindings_def LoadServiceDir_def own_bindings_def
        result_bind_def)
next
  case (Inr defs)
  have load: "LoadServiceDir (ti_fs ti) (ti_services ti) (snd_servicesDir s) = collect expand_item defs"
    using Inr by (simp add: LoadServiceDir_def result_bind_def)
  have ok: "is_ok (collect expand_item defs) \<longleftrightarrow> list_all service_wf defs"
    by (simp add: collect_ok_iff expand_item_ok_iff list_all_iff)
  have bs: "tick_bindings s ti = own_bindings s ti @ (case collect expand_item defs of Inl e \<Rightarrow> [] | Inr svc \<Rightarrow> svc)"
    by (simp add: tick_bindings_def own_bindings_def load)
  have "tick_summaries s ti = Inr (map service_summary defs)"
    using Inr by (simp add: tick_summaries_def LoadServiceSummaries_def result_bind_def)
  moreover have "map OutputKey svc = concat (map (\<lambda>d. map smr_Key (ss_Metrics (service_summary d))) defs) \<and>
      (\<forall>b\<in>set svc. Primitive b \<in> set DefaultRegistry)" if "collect expand_item defs = Inr svc" for svc
    using collect_mapD [OF that expand_item_InrD] by (simp add: list_all_iff)
  ultimately show ?thesis
    using Inr bs ok by (cases "collect expand_item defs") auto
qed

text \<open>C17: Let the heartbeat and the control channel read one and the same services directory in one state of the
  file system, and let the heartbeat advertise its services. Where the allow-list cannot be read or has the
  channel or its logs switched off, every request for logs is refused as not permitted, advertised or
  not. Otherwise both halves of the agent agree on the logs of the services: a name is a log source of the channel if and
  only if the operator listed it or a summary of the heartbeat advertises logs under it; the operator's entry wins;
  and a request for the logs of an advertised service is neither refused as not permitted nor as unknown.\<close>

theorem logs_views_agree:
  assumes "ti_fs ti = fs" "snd_servicesDir s = control_services_dir env" "tick_summaries s ti = Inr rows"
  shows "let c = loadControlConfig env fs yaml (ti_services ti) in
    case operator_logs env fs yaml of
      None \<Rightarrow> \<forall>arch f. logsJob arch c f = not_permitted f
    | Some own \<Rightarrow>
        (\<forall>name. name \<in> set (sourceNames c) \<longleftrightarrow> map_of own name \<noteq> None \<or> (\<exists>r\<in>set rows. ss_Name r = name \<and> ss_Logs r)) \<and>
        (\<forall>name src. map_of own name = Some src \<longrightarrow> source c name = Some src) \<and>
        (\<forall>r\<in>set rows. ss_Logs r \<longrightarrow> (\<forall>arch f. f_Target f = ss_Name r \<longrightarrow>
           logsJob arch c f \<noteq> not_permitted f \<and>
           logsJob arch c f \<noteq> Refuse (ErrFrame (f_ReqID f) ''unknown_target'' 404)))"
proof (cases "operator_logs env fs yaml")
  case None
  then show ?thesis by (simp add: no_logs_refused Let_def)
next
  case (Some own)
  then obtain data c0 where c0: "fs_file fs (control_path env) = Inr data" "yaml data = Some c0"
    "ctl_Enabled (Control c0)" "logs_Enabled (Logs (Control c0))" "own = Sources (Logs (Control c0))"
    by (auto simp: operator_logs_def split: sum.splits option.splits if_splits)
  obtain defs where defs: "loadServiceDefs fs (ti_services ti) (control_services_dir env) = Inr defs"
    and rows: "rows = map service_summary defs"
    using assms by (auto simp: tick_summaries_def summaries_of_defs)
  let ?c = "loadControlConfig env fs yaml (ti_services ti)"
  note src = loaded_source [where yaml = yaml, OF c0(1-4) defs]
  have adv: "(\<exists>r\<in>set rows. ss_Name r = name \<and> ss_Logs r) \<longleftrightarrow> (\<exists>d\<in>set defs. sd_Name d = name \<and> logs_advertised d)" for name
    by (auto simp: rows service_summary_def Let_def logs_advertised_def)
  have names: "(\<exists>x. source ?c name = Some x) \<longleftrightarrow>
      map_of own name \<noteq> None \<or> (\<exists>r\<in>set rows. ss_Name r = name \<and> ss_Logs r)" for name
    using find_some_iff [of "\<lambda>s. sd_Name s = name \<and> logs_advertised s" defs]
    by (auto simp: src(1) adv c0(5) split: option.split)
  have served: "logsJob arch ?c f \<noteq> not_permitted f \<and>
      logsJob arch ?c f \<noteq> Refuse (ErrFrame (f_ReqID f) ''unknown_target'' 404)"
    if r: "r \<in> set rows" "ss_Logs r" "f_Target f = ss_Name r" for r arch f
  proof -
    obtain x where x: "source ?c (f_Target f) = Some x" using names r by metis
    then have "logsEnabled ?c" using src(2,3) logsEnabled_if_source by blast
    with x show ?thesis
      by (auto simp: logsJob_def not_permitted_def log_error_text_def Let_def split: sum.splits log_error.splits)
  qed
  have own: "map_of own name = Some y \<Longrightarrow> source ?c name = Some y" for name y
    by (simp add: src(1) c0(5))
  show ?thesis using names served own Some by (simp add: Let_def sourceNames_iff)
qed

section \<open>A concrete host\<close>

text \<open>Two services, one of which has an axis without a probe.\<close>

definition views_bad :: serviceDef where
  "views_bad = demo_service\<lparr>sd_Name := ''bad'', sd_Up := [(''wat'', VInt 1)], sd_Logs := [(''type'', VStr ''docker'')]\<rparr>"

definition views_fs :: filesys where
  "views_fs =
     \<lparr>fs_dir = (\<lambda>d. if d = ''/etc/iclic-host-agent/services.d'' then DirOk [demo_entry ''b.yaml'', demo_entry ''a.yaml'']
                  else DirNotExist),
      fs_file = (\<lambda>p. Inr p)\<rparr>"

definition views_services :: "string \<Rightarrow> serviceDef option" where
  "views_services data = Some (if has_suffix data ''a.yaml'' then demo_service else views_bad)"

definition views_tick :: tick_input where
  "views_tick = \<lparr>ti_fs = views_fs, ti_bindings = (\<lambda>_. None), ti_services = views_services, ti_now = ''now''\<rparr>"

definition views_sender :: Sender where
  "views_sender = NewSender Map.empty demo_config ''/etc/iclic-host-agent/collectors.d''"

definition views_control :: ControlConfig where
  "views_control = zero_config\<lparr>Control := (Control zero_config)
     \<lparr>ctl_Enabled := True, Logs := zero_logs\<lparr>logs_Enabled := True\<rparr>\<rparr>\<rparr>"

lemma views_dirs:
  "snd_servicesDir views_sender = ''/etc/iclic-host-agent/services.d''"
  "control_services_dir (\<lambda>_. []) = ''/etc/iclic-host-agent/services.d''"
  by code_simp+

lemma views_defs:
  "loadServiceDefs views_fs views_services ''/etc/iclic-host-agent/services.d'' = Inr [demo_service, views_bad]"
  by code_simp

lemma views_own: "own_bindings views_sender views_tick = []"
  by code_simp

theorem services_all_or_none_witness:
  "tick_bindings views_sender views_tick = [] \<and>
   (\<exists>rows. tick_summaries views_sender views_tick = Inr rows \<and> map ss_Name rows = [''tleasy'', ''bad''])"
proof -
  have "\<not> service_wf views_bad" by code_simp
  moreover have "map ss_Name [service_summary demo_service, service_summary views_bad] = [''tleasy'', ''bad'']"
    by (simp add: service_summary_def Let_def demo_service_def views_bad_def)
  moreover have "loadServiceDefs (ti_fs views_tick) (ti_services views_tick) (snd_servicesDir views_sender) =
      Inr [demo_service, views_bad]"
    using views_defs views_dirs by (simp add: views_tick_def)
  ultimately show ?thesis
    using services_all_or_none [where s = views_sender and ti = views_tick] views_own by simp
qed

theorem logs_views_agree_witness:
  "let c = loadControlConfig (\<lambda>_. []) views_fs (\<lambda>_. Some views_control) views_services
   in ''tleasy'' \<in> set (sourceNames c) \<and> ''nosuch'' \<notin> set (sourceNames c)"
proof -
  have "tick_summaries views_sender views_tick = Inr [service_summary demo_service, service_summary views_bad]"
    using views_defs by (simp add: tick_summaries_def views_dirs views_tick_def summaries_of_defs)
  moreover have "operator_logs (\<lambda>_. []) views_fs (\<lambda>_. Some views_control) = Some []"
    by (simp add: operator_logs_def views_fs_def views_control_def zero_logs_def)
  ultimately show ?thesis
    using logs_views_agree [of views_tick views_fs views_sender "\<lambda>_. []"
        "[service_summary demo_service, service_summary views_bad]" "\<lambda>_. Some views_control"]
    by (simp add: views_dirs Let_def views_tick_def service_summary_def demo_service_def views_bad_def logsStr_def gget_def)
qed

end
