(* ===== verification/Spec2Isabelle.thy ===== *)
theory Spec2Isabelle
  imports Control_Channel Stream_Pipe Agent_Main Heartbeat Agent_Collectors Snapshot_Steps Docker_Clients
    Agent_Process Stream_Relay Live_Stream Process_Traffic Service_Views
begin

text \<open>
  ICLIC host agent.

  The agent is one Go process per host (\<open>src/cmd/agent/main.go\<close>). It loads its configuration,
  sends a heartbeat on a ticker that the server can retune, and keeps one outbound websocket open
  on which the server can ask for a closed set of read-only operator verbs. The heartbeat carries
  metrics that collectors gather, which are configured by YAML files of the operator. The release
  gate checks the signature of the next binary.

  \<^bold>\<open>Theories.\<close>

  \<^item> \<open>Agent_Prelude\<close>: results as sums (\<open>error + value\<close>), lists processed with the first error
    winning, Go maps as association lists, the directory and file reads (\<open>filesys\<close>).
  \<^item> \<open>Go_Strings\<close>, \<open>Go_Strconv\<close>, \<open>Go_Float\<close>, \<open>Go_Value\<close>: what the code uses of the standard
    library. Strings are lists of bytes. \<open>float64\<close> is a rational rounded to nearest even with
    the infinities and NaN; integers of 64 bits wrap explicitly. Dynamic values and JSON
    documents are datatypes.
  \<^item> \<open>Collector_Config\<close>: \<open>collectors/binding.go\<close>, \<open>loader.go\<close>, \<open>services.go\<close>, \<open>registry.go\<close>.
  \<^item> \<open>Runner\<close>: \<open>collectors/runner.go\<close>. A goroutine is a pending task and finishing one is a step
    of \<open>run_step\<close>; \<open>Run registry bs m\<close> holds when some schedule yields \<open>m\<close>, so the properties hold
    for all schedules.
  \<^item> \<open>Control_Config\<close>, \<open>Control_Wire\<close>, \<open>Control_Jobs\<close>, \<open>Control_Redact\<close>: \<open>control/config.go\<close> and the
    parts of \<open>control/control.go\<close> that are functions: the allow-list and its hard limits, frames
    and arguments, what each verb decides, the masking of secrets.
  \<^item> \<open>Control_Session\<close>: the read loop and the goroutines of a connection as the step relation
    \<open>session_step\<close> over the state of \<open>session\<close> (registry of streams, jobs with their control
    points, frames written, processes started); \<open>reach\<close> are the states a session can reach.
  \<^item> \<open>Stream_Pipe\<close>: below one \<open>Line\<close> of the session: the process, the two pipes, the goroutine that
    waits and the scanner of \<open>streamCommand\<close>, as the step relation \<open>pipe_step\<close>.
  \<^item> \<open>Stream_Relay\<close>: a session together with the pipes of its commands (\<open>relay_step\<close>): each \<open>Line\<close> is
    the next line of what the scanner has read.
  \<^item> \<open>Control_Channel\<close>: the reconnect loop and \<open>connectOnce\<close>, and the composition of the
    allow-list with the session. \<open>Live_Metrics\<close>: \<open>control/metrics.go\<close>.
    \<open>Live_Stream\<close>: a session together with the samplers of its \<open>metrics.live\<close> jobs (\<open>live_step\<close>).
  \<^item> \<open>Agent_Config\<close>: \<open>config/config.go\<close>. \<open>Release_Verify\<close>: \<open>release/verify.go\<close>. \<open>Agent_Main\<close>:
    \<open>cmd/agent/main.go\<close>.
  \<^item> \<open>Heartbeat_Signals\<close>, \<open>Heartbeat\<close>: \<open>heartbeat/heartbeat.go\<close>. \<open>SendOnce\<close> relates the input of a
    tick and what the world answers with the requests made and the resulting disk.
  \<^item> \<open>Primitive_Args\<close>, \<open>Go_Time\<close>: what the collectors share: typed reads of arguments, JSON paths,
    rounding, the record \<open>host\<close> of what the surroundings answer, and the part of \<open>time\<close> that log
    lines need.
  \<^item> \<open>Security_Logs\<close>, \<open>Security_Snapshot\<close>: \<open>collectors/primitives_security.go\<close>: the sources, and the
    snapshot with its cache (\<open>sec_state\<close>).
  \<^item> \<open>Critical_Sections\<close>: calls of two critical sections that overlap, as the step relation
    \<open>section_step\<close>. \<open>Snapshot_Steps\<close> instantiates it with the cache of the snapshot, \<open>Docker_Clients\<close>
    with the HTTP clients that the collectors share (\<open>dockerClientFor\<close>).
  \<^item> \<open>Docker_Primitives\<close>: \<open>primitives_docker.go\<close>. \<open>Runtime_Services\<close>: \<open>primitives_runtime_services.go\<close>.
    \<open>Procfs_Primitives\<close>: \<open>primitives_procfs.go\<close>, \<open>primitives_procfs_io.go\<close>.
  \<^item> \<open>Host_Primitives\<close>: \<open>primitives_os.go\<close>, \<open>primitives_disk.go\<close>, \<open>primitives_exec.go\<close>,
    \<open>primitives_systemd.go\<close>, \<open>primitives_file.go\<close>, \<open>primitives_apt.go\<close>, over the record \<open>machine\<close>.
    \<open>Net_Primitives\<close>: \<open>primitives_net.go\<close>, \<open>primitives_http_json.go\<close>, \<open>primitives_tls.go\<close>.
  \<^item> \<open>Agent_Collectors\<close>: \<open>builtins\<close>, the registry with the collectors behind the names and the memory
    they keep between calls (\<open>prim_state\<close>, \<open>prim_reach\<close>), and which of them can return what JSON cannot
    print.
  \<^item> \<open>Collector_Types\<close>: the types of the metrics (\<open>gty\<close>, \<open>result_type\<close>) and one lemma per collector that
    it returns its type. \<open>Shared_Tick\<close>: \<open>Run\<close> on the collectors with their memory, as the step relation
    \<open>tick_step\<close>: each call finds what the calls that ended before it left, on a machine of its own
    time; and the composition with the payload of the heartbeat.
  \<^item> \<open>Service_Views\<close>: \<open>services.d\<close> as the heartbeat and the control channel use it: what is collected,
    what is advertised and what can be tailed.
  \<^item> \<open>Agent_Process\<close>: the process as a whole (\<open>main\<close> after the start-up). \<open>process_step\<close> is one step of
    the heartbeat loop, of the signal handler, of the loop of the control channel or of any session it
    opened; \<open>process_reach\<close> are the states of the process. \<open>Process_Traffic\<close>: the bodies
    of all requests of its heartbeat sender.

  \<^bold>\<open>What the properties show.\<close> Control channel: whatever the server sends, only the processes the
  allow-list permits are started, each with a bounded line count and lifetime; every job's frames
  are numbered and end with one terminal frame; the registry holds exactly the live jobs while
  the server keeps the ids of its requests in flight distinct, cancel frames included, and what goes wrong for
  good when it does not; a missing or
  malformed allow-list serves nothing. Collectors: the collected map does not depend on the
  schedule beyond the order of merged runtime signals. Heartbeat: every metric reaches the server,
  runtime signals go out one by one, the desired version is recorded atomically, and one
  unprintable metric silences the host; which bindings can produce one is settled for the whole
  registry. Collectors: every configured service is reported and is healthy exactly when its
  probes say so; the security snapshot answers from its cache within its window; frames, bans,
  rates, percentages and certificate days are compared with references and bounded; scans
  of the snapshot may overlap, but the first that is stored ends the rush for a minute; the
  clients to \<open>dockerd\<close> are one per socket, whatever the interleaving. Streams: once the
  command is gone, and while no frame is lost, the goroutines reach the end in a bounded number of steps and the scanner
  has read every byte; one that leaves its loop early can leave a goroutine
  and a pipe behind for good; the data frames of a command are the first lines of its output,
  masked, and all of them once the scanner has seen the end. The frames of \<open>metrics.live\<close> are
  the samples of its ticks, each reading against the one before it, with a CPU value between 0 and
  100. Metrics: however the collectors of a tick interleave, each metric has the type its collector
  promises. Services: one
  definition that is not well formed silences the metrics of all, and the logs that the heartbeat
  advertises are those the channel serves where the allow-list has logs. Process: the
  agent starts only from an accepted command line and a valid configuration, and with the lock where its file can be
  opened; the ticker follows the server; whatever the server and
  the host do, the sessions of the running process start what an allow-list permits, its heartbeats, signals and dials
  go to the configured server, it writes two files, sends heartbeats that print and hold typed metrics, and ends only after a signal
  or by the panic of an interval that overflows a \<open>time.Duration\<close>.

  \<^bold>\<open>Locales.\<close> \<open>registry\<close> (\<open>Control_Session\<close>) is the contract of the stream registry and is
  interpreted on the Go map model; \<open>commuting_merge\<close> (\<open>Runner\<close>) is the contract under which a merge
  is independent of the schedule and is interpreted on \<open>mergeBindingValue\<close>. \<open>two_sections\<close>
  (\<open>Critical_Sections\<close>) says how a call that happens at once is made of its two critical sections, and is
  interpreted on the snapshot; \<open>rechecked\<close> extends it for calls that check again, which therefore behave
  one after another however they interleave, and is interpreted on \<open>dockerClientFor\<close>. \<open>side_by_side\<close> (\<open>Agent_Process\<close>) lifts what the moves of one component keep to all
  components that move one at a time, and is interpreted on the sessions of the process.

  \<^bold>\<open>Parameters.\<close> Third-party code and the operating system are arguments: the YAML decoder
  (\<open>gopkg.in/yaml.v3\<close>) maps file contents to decoded values, the websocket library and the HTTP
  client give outcomes, \<open>crypto/ed25519\<close> is a predicate, the lexical layer of \<open>encoding/json\<close>
  maps text to a document, \<open>strconv.ParseFloat\<close> maps text to a double, processes and files give
  their output. The answers the collectors get are the fields of \<open>host\<close> and \<open>machine\<close>; time limits
  are part of what was asked where the code computes them, and whether one struck is part of the
  answer. \<open>docs_finite\<close> says that decoded numbers are in the range of a double, which
  \<open>encoding/json\<close> guarantees. The texts of errors that only reach the log are abbreviated. No
  axioms are used and nothing is assumed of the parameters beyond what a statement shows.

  \<^bold>\<open>Fuel and bounds.\<close> No definition uses fuel: every loop is structural recursion or has a
  termination proof; loops that run for the life of the process are modelled by the list of
  rounds, heartbeats or steps that happened.

  \<^bold>\<open>Not modelled.\<close> Logging; wall-clock time beyond the order of events; \<open>drainAndClose\<close>, which
  changes no answer; the interleaving of collectors inside their calls, each of which is one step of
  a tick (for the snapshot see \<open>Snapshot_Steps\<close>); what the collectors send to the endpoints, ports and sockets they
  probe, of which only the answers are inputs, so that the requests and dials of \<open>Agent_Process\<close> are those of the
  heartbeat sender and the control channel; the interleaving of a heartbeat with the control channel, which
  share no state, so that a heartbeat is one step of the process; other programs that write the file
  of the desired version while a heartbeat does; the installer, the updater (but for how it
  reads the desired version) and the other shell scripts, packaging and documentation.
\<close>

end
